theory Spec2Isabelle
  imports Main "HOL-Library.Sublist"
begin

section \<open>Python string primitives\<close>

text \<open>
  A Python \<open>str\<close> is modelled as a HOL \<open>string\<close> whose characters are the code points
  0 to 255 (Latin-1); \<open>length\<close> is Python's \<open>len\<close>. On these code points
  \<open>str.isspace\<close> holds for U+0009..U+000D, U+001C..U+0020, U+0085 and U+00A0, and
  \<open>str.lower\<close> adds 32 to A..Z and to U+00C0..U+00DE except U+00D7.
\<close>

definition py_isspace :: "char \<Rightarrow> bool" where
  "py_isspace c = (c \<in> set [CHR 0x09, CHR 0x0A, CHR 0x0B, CHR 0x0C, CHR 0x0D,
       CHR 0x1C, CHR 0x1D, CHR 0x1E, CHR 0x1F, CHR 0x20, CHR 0x85, CHR 0xA0])"

text \<open>\<open>s.strip()\<close>: leading and trailing whitespace removed.\<close>

definition py_strip :: "string \<Rightarrow> string" where
  "py_strip s = rev (dropWhile py_isspace (rev (dropWhile py_isspace s)))"

text \<open>Adding 32 to an upper-case code point sets bit 5, which is clear in both ranges.\<close>

definition py_lower_char :: "char \<Rightarrow> char" where
  "py_lower_char c = (let n = (of_char c :: nat) in
     if (65 \<le> n \<and> n \<le> 90) \<or> (192 \<le> n \<and> n \<le> 222 \<and> n \<noteq> 215)
     then (case c of Char b0 b1 b2 b3 b4 b5 b6 b7 \<Rightarrow> Char b0 b1 b2 b3 b4 True b6 b7)
     else c)"

definition py_lower :: "string \<Rightarrow> string" where
  "py_lower s = map py_lower_char s"

text \<open>\<open>s.startswith(p)\<close> and the substring test \<open>p in s\<close>.\<close>

fun py_startswith :: "string \<Rightarrow> string \<Rightarrow> bool" where
  "py_startswith s [] = True"
| "py_startswith [] (p # ps) = False"
| "py_startswith (c # cs) (p # ps) = (c = p \<and> py_startswith cs ps)"

fun py_in :: "string \<Rightarrow> string \<Rightarrow> bool" where
  "py_in p [] = (p = [])"
| "py_in p (c # cs) = (py_startswith (c # cs) p \<or> py_in p cs)"

text \<open>
  \<open>s.split(sep)\<close> for a one-character separator: the pieces between the separators;
  never the empty list.
\<close>

fun py_split :: "char \<Rightarrow> string \<Rightarrow> string list" where
  "py_split sep [] = [[]]"
| "py_split sep (c # cs) =
     (if c = sep then [] # py_split sep cs
      else (c # hd (py_split sep cs)) # tl (py_split sep cs))"

text \<open>Python's truth value of an optional string: \<open>None\<close> and \<open>''\<close> are false.\<close>

definition truthy :: "string option \<Rightarrow> bool" where
  "truthy x = (case x of None \<Rightarrow> False | Some s \<Rightarrow> s \<noteq> [])"

text \<open>\<open>str(x)\<close> of an optional string: the string itself, or \<open>'None'\<close>.\<close>

definition py_str :: "string option \<Rightarrow> string" where
  "py_str x = (case x of None \<Rightarrow> ''None'' | Some s \<Rightarrow> s)"

text \<open>\<open>sep.join(xs)\<close>.\<close>

fun py_join :: "string \<Rightarrow> string list \<Rightarrow> string" where
  "py_join sep [] = []"
| "py_join sep [x] = x"
| "py_join sep (x # y # ys) = x @ sep @ py_join sep (y # ys)"

section \<open>Cell classifier\<close>

text \<open>
  \<open>[line.strip() for line in cell_text.split('\n') if line.strip()]\<close>, shared by the
  variants of \<open>extract_subject_and_teacher\<close>.
\<close>

definition cell_lines :: "string \<Rightarrow> string list" where
  "cell_lines cell_text =
     map py_strip (filter (\<lambda>line. py_strip line \<noteq> []) (py_split (CHR 0x0A) cell_text))"

subsection \<open>\<open>import_schedule_smart.extract_subject_and_teacher\<close>\<close>

definition smart_skip_keywords :: "string list" where
  "smart_skip_keywords =
     [''ylbmessa'', ''tsafkaerb'', ''kaerb'', ''assembly'', ''breakfast'', ''break'']"

text \<open>The result is Python's pair; \<open>None\<close> is \<open>None\<close>.\<close>

definition smart_extract_subject_and_teacher :: "string \<Rightarrow> string option \<times> string option" where
  "smart_extract_subject_and_teacher cell_text0 =
     (if cell_text0 = [] \<or> py_strip cell_text0 = [] then (None, None)
      else
        let cell_text = py_strip cell_text0 in
        if list_ex (\<lambda>kw. py_in kw (py_lower cell_text)) smart_skip_keywords then (None, None)
        else
          let lines = cell_lines cell_text in
          (case lines of
             [] \<Rightarrow> (None, None)
           | subject # rest \<Rightarrow>
               let teacher = (if length lines > 1 then py_join '' '' rest else ''Unknown'')
               in (Some subject, Some teacher)))"

subsection \<open>\<open>import_complete_schedules.extract_subject_and_teacher\<close>\<close>

definition complete_skip_keywords :: "string list" where
  "complete_skip_keywords =
     [''assembly'', ''breakfast'', ''break'', ''ylbmessa'', ''tsafkaerb'', ''kaerb'',
      ''lunch'', ''recess'', ''snack'', ''prayer'']"

definition complete_extract_subject_and_teacher :: "string \<Rightarrow> string option \<times> string option" where
  "complete_extract_subject_and_teacher cell_text0 =
     (if cell_text0 = [] \<or> py_strip cell_text0 = [] then (None, None)
      else
        let cell_text = py_strip cell_text0 in
        if list_ex (\<lambda>kw. py_in kw (py_lower cell_text)) complete_skip_keywords then (None, None)
        else if length cell_text < 2 then (None, None)
        else
          let lines = cell_lines cell_text in
          (case lines of
             [] \<Rightarrow> (None, None)
           | subject0 # rest \<Rightarrow>
               let teacher0 = (if length lines > 1 then py_join '' '' rest
                               else ''Unknown Teacher'');
                   subject = py_strip subject0;
                   teacher = py_strip teacher0
               in if length subject < 2 then (None, None)
                  else (Some subject, Some teacher)))"

text \<open>
  The first non-blank line of the raw input, the "subject line" of the specification;
  empty when every line is blank. Stated on the input as it arrives, before any trimming
  by the classifier, for comparison with the code.
\<close>

definition spec_subject_line :: "string \<Rightarrow> string" where
  "spec_subject_line cell_text =
     (case filter (\<lambda>line. py_strip line \<noteq> []) (py_split (CHR 0x0A) cell_text) of
        [] \<Rightarrow> []
      | line # _ \<Rightarrow> line)"

section \<open>Time-slot catalogue\<close>

text \<open>\<open>datetime.time(h, m)\<close> as the pair of hour and minute.\<close>

type_synonym time = "nat \<times> nat"

definition DAY_MAPPING :: "(string \<times> int) list" where
  "DAY_MAPPING =
     [(''sunday'', 6), (''monday'', 0), (''tuesday'', 1), (''wednesday'', 2),
      (''thursday'', 3), (''friday'', 4), (''saturday'', 5)]"

definition TIME_PERIODS :: "(string \<times> string \<times> string) list" where
  "TIME_PERIODS =
     [(''1'', ''08:30'', ''09:05''), (''2'', ''09:05'', ''09:40''),
      (''3'', ''09:40'', ''10:20''), (''4'', ''10:20'', ''11:00''),
      (''5'', ''11:00'', ''11:40''), (''6'', ''11:40'', ''12:20''),
      (''7'', ''12:20'', ''13:00''), (''8'', ''13:00'', ''13:40''),
      (''9'', ''13:40'', ''14:15''), (''10'', ''14:15'', ''14:50'')]"

text \<open>The list literal \<open>['1', ..., '10']\<close> that both extractors iterate over.\<close>

definition period_nums :: "string list" where
  "period_nums = [''1'', ''2'', ''3'', ''4'', ''5''] @ [''6'', ''7'', ''8'', ''9'', ''10'']"

text \<open>
  \<open>int(s)\<close> on a non-empty string of ASCII digits; every other spelling is \<open>None\<close> here
  (Python's \<open>int\<close> also takes a sign, surrounding whitespace and underscores, which the
  catalogue's literals never contain).
\<close>

definition is_digit :: "char \<Rightarrow> bool" where
  "is_digit c = (48 \<le> (of_char c :: nat) \<and> (of_char c :: nat) \<le> 57)"

definition py_int :: "string \<Rightarrow> nat option" where
  "py_int s =
     (if s \<noteq> [] \<and> list_all is_digit s
      then Some (foldl (\<lambda>acc c. 10 * acc + ((of_char c :: nat) - 48)) 0 s)
      else None)"

text \<open>
  \<open>parse_time\<close> of \<open>import_schedule_smart\<close> and \<open>import_complete_schedules\<close>: the unpacking
  \<open>h, m = ...\<close> needs exactly two pieces, \<open>time(h, m)\<close> needs an hour below 24 and a minute
  below 60, and every exception becomes \<open>None\<close>.
\<close>

definition parse_time :: "string \<Rightarrow> time option" where
  "parse_time time_str =
     (case py_split (CHR '':'') time_str of
        [hs, ms] \<Rightarrow>
          (case (py_int hs, py_int ms) of
             (Some h, Some m) \<Rightarrow> if h \<le> 23 \<and> m \<le> 59 then Some (h, m) else None
           | _ \<Rightarrow> None)
      | _ \<Rightarrow> None)"

section \<open>Pages, tables and raw entries\<close>

text \<open>
  A table is the grid \<open>page.extract_tables()\<close> yields: rows of optional cell texts.
  A page carries its tables and \<open>page.extract_text()\<close>.
\<close>

type_synonym cell = "string option"
type_synonym row = "cell list"
type_synonym table = "row list"

record page =
  tables :: "table list"
  text_of_page :: "string option"

text \<open>
  The schedule entry dictionaries. \<open>entry\<close> has the keys \<open>import_schedule_smart\<close> writes;
  \<open>import_complete_schedules\<close> adds \<open>floor\<close> (here \<open>floor_number\<close>) and \<open>is_free\<close>.
  The entries of \<open>import_schedule_from_pdf\<close> have the keys its import reads in common
  with these. A value that may be \<open>None\<close> in some script is an option.
\<close>

record entry =
  class_name :: "string option"
  day :: "int option"
  day_name :: string
  start_time :: "time option"
  end_time :: "time option"
  subject :: "string option"
  teacher :: "string option"
  period :: string

record complete_entry = entry +
  floor_number :: int
  is_free :: bool

text \<open>What became of a page: the three warnings that skip it, or its entries.\<close>

datatype 'e page_result = NoTables | NoDay | NoPeriodColumns | Extracted "'e list"

fun page_entries :: "'e page_result \<Rightarrow> 'e list" where
  "page_entries (Extracted es) = es"
| "page_entries _ = []"

text \<open>The first result that is not \<open>None\<close>, for a loop that breaks at its first match.\<close>

fun first_some :: "('a \<Rightarrow> 'b option) \<Rightarrow> 'a list \<Rightarrow> 'b option" where
  "first_some f [] = None"
| "first_some f (x # xs) = (case f x of Some y \<Rightarrow> Some y | None \<Rightarrow> first_some f xs)"

text \<open>
  The class name of a data row, or \<open>None\<close> where both extractors \<open>continue\<close>: an empty row,
  an empty first cell, or a name shorter than 2 characters after trimming.
\<close>

definition class_name_of_row :: "row \<Rightarrow> string option" where
  "class_name_of_row r =
     (case r of
        [] \<Rightarrow> None
      | c0 # _ \<Rightarrow>
          if \<not> truthy c0 then None
          else
            let class_name = py_strip (py_str c0) in
            if class_name = [] \<or> length class_name < 2 then None else Some class_name)"

section \<open>Extraction in \<open>import_complete_schedules\<close>\<close>

text \<open>The first key of \<open>DAY_MAPPING\<close>, in the dictionary's order, that occurs in the text.\<close>

definition day_in_text :: "string \<Rightarrow> (string \<times> int) option" where
  "day_in_text lowered = find (\<lambda>(day_key, day_value). py_in day_key lowered) DAY_MAPPING"

definition complete_day_of_cell :: "cell \<Rightarrow> (string \<times> int) option" where
  "complete_day_of_cell c =
     (case c of
        None \<Rightarrow> None
      | Some s \<Rightarrow> if s = [] then None else day_in_text (py_lower s))"

text \<open>The header scan: the cells of the first three rows, row by row.\<close>

definition complete_day_from_table :: "table \<Rightarrow> (string \<times> int) option" where
  "complete_day_from_table t = first_some (first_some complete_day_of_cell) (take 3 t)"

definition complete_day_from_text :: "string option \<Rightarrow> (string \<times> int) option" where
  "complete_day_from_text txt =
     (case txt of
        None \<Rightarrow> None
      | Some s \<Rightarrow> if s = [] then None else day_in_text (py_lower s))"

definition complete_resolve_day :: "table \<Rightarrow> string option \<Rightarrow> (string \<times> int) option" where
  "complete_resolve_day t txt =
     (case complete_day_from_table t of
        Some d \<Rightarrow> Some d
      | None \<Rightarrow> complete_day_from_text txt)"

text \<open>The period a header cell names: the first of the ten numerals whose token matches.\<close>

definition complete_period_of_cell :: "string \<Rightarrow> string option" where
  "complete_period_of_cell cell_str =
     find (\<lambda>period_num.
             py_in (CHR 0x0A # period_num @ [CHR 0x0A]) cell_str
           \<or> py_strip cell_str = period_num
           \<or> py_startswith cell_str (period_num @ [CHR 0x0A])
           \<or> py_in (''period '' @ period_num) (py_lower cell_str))
          period_nums"

text \<open>\<open>temp_period_cols\<close> of one row, in column order; \<open>period_count\<close> is its length.\<close>

definition complete_row_period_cols :: "row \<Rightarrow> (nat \<times> string) list" where
  "complete_row_period_cols r =
     List.map_filter
       (\<lambda>(col_idx, c).
           if \<not> truthy c then None
           else map_option (\<lambda>p. (col_idx, p)) (complete_period_of_cell (py_str c)))
       (enumerate 0 r)"

fun complete_scan_period_rows :: "nat \<Rightarrow> row list \<Rightarrow> (nat \<times> (nat \<times> string) list) option" where
  "complete_scan_period_rows row_idx [] = None"
| "complete_scan_period_rows row_idx (r # rs) =
     (if r = [] then complete_scan_period_rows (Suc row_idx) rs
      else
        let temp_period_cols = complete_row_period_cols r in
        if length temp_period_cols \<ge> 3 then Some (row_idx, temp_period_cols)
        else complete_scan_period_rows (Suc row_idx) rs)"

definition complete_find_period_columns :: "table \<Rightarrow> (nat \<times> (nat \<times> string) list) option" where
  "complete_find_period_columns t = complete_scan_period_rows 0 (take 5 t)"

text \<open>One pass of the loop over the ten periods for a class row: \<open>None\<close> is \<open>continue\<close>.\<close>

definition complete_period_entry ::
  "int \<Rightarrow> string \<Rightarrow> int \<Rightarrow> (nat \<times> string) list \<Rightarrow> row \<Rightarrow> string \<Rightarrow> string
     \<Rightarrow> complete_entry option" where
  "complete_period_entry floor_no dname dnum period_columns r cname period_num =
     (let col_idx = map_option fst (find (\<lambda>(c_idx, p_num). p_num = period_num) period_columns)
      in
        case map_of TIME_PERIODS period_num of
          None \<Rightarrow> None
        | Some (start_time_str, end_time_str) \<Rightarrow>
            if start_time_str = [] \<or> end_time_str = [] then None
            else
              let (subject0, teacher0) =
                    (case col_idx of
                       None \<Rightarrow> (None, None)
                     | Some i \<Rightarrow>
                         if i < length r \<and> truthy (r ! i)
                         then complete_extract_subject_and_teacher (py_str (r ! i))
                         else (None, None));
                  free = (\<not> truthy subject0 \<or> \<not> truthy teacher0)
              in Some \<lparr> class_name = Some cname, day = Some dnum, day_name = dname,
                        start_time = parse_time start_time_str,
                        end_time = parse_time end_time_str,
                        subject = (if free then Some ''Free Period'' else subject0),
                        teacher = (if free then Some ''No Teacher'' else teacher0),
                        period = period_num,
                        floor_number = floor_no, is_free = free \<rparr>)"

definition complete_row_entries ::
  "int \<Rightarrow> string \<Rightarrow> int \<Rightarrow> (nat \<times> string) list \<Rightarrow> row \<Rightarrow> complete_entry list" where
  "complete_row_entries floor_no dname dnum period_columns r =
     (case class_name_of_row r of
        None \<Rightarrow> []
      | Some cname \<Rightarrow>
          List.map_filter
            (complete_period_entry floor_no dname dnum period_columns r cname) period_nums)"

definition complete_extract_page :: "int \<Rightarrow> page \<Rightarrow> complete_entry page_result" where
  "complete_extract_page floor_no pg =
     (case tables pg of
        [] \<Rightarrow> NoTables
      | t # _ \<Rightarrow>
          (case complete_resolve_day t (text_of_page pg) of
             None \<Rightarrow> NoDay
           | Some (dname, dnum) \<Rightarrow>
               (case complete_find_period_columns t of
                  None \<Rightarrow> NoPeriodColumns
                | Some (period_row_idx, period_columns) \<Rightarrow>
                    if period_columns = [] then NoPeriodColumns
                    else Extracted
                      (concat (map (complete_row_entries floor_no dname dnum period_columns)
                                   (drop (period_row_idx + 1) t))))))"

text \<open>
  \<open>extract_schedules_from_pdf\<close> on the pages of an opened document: a skipped page adds
  nothing and the loop goes on with the next page.
\<close>

definition complete_extract_schedules_from_pdf :: "page list \<Rightarrow> int \<Rightarrow> complete_entry list" where
  "complete_extract_schedules_from_pdf pages floor_no =
     concat (map (\<lambda>pg. page_entries (complete_extract_page floor_no pg)) pages)"

section \<open>Extraction in \<open>import_schedule_smart\<close>\<close>

datatype py_error = IndexError | IntegrityError | OperationalError | NotFound

text \<open>
  The day is read from the second cell of the second row only; \<open>table[1][1]\<close> raises
  \<open>IndexError\<close> on a second row with a single cell.
\<close>

definition smart_day_of_table :: "table \<Rightarrow> py_error + (string \<times> int) option" where
  "smart_day_of_table t =
     (if length t > 1 \<and> t ! 1 \<noteq> [] then
        (if length (t ! 1) < 2 then Inl IndexError
         else
           let day_cell = (if truthy (t ! 1 ! 1) then py_lower (py_str (t ! 1 ! 1)) else [])
           in Inr (day_in_text day_cell))
      else Inr None)"

definition smart_period_of_cell :: "string \<Rightarrow> string option" where
  "smart_period_of_cell cell_text =
     find (\<lambda>period_num.
             py_in (CHR 0x0A # period_num @ [CHR 0x0A]) cell_text
           \<or> py_startswith cell_text (period_num @ [CHR 0x0A]))
          period_nums"

text \<open>The period columns are read from the third row only, with no threshold.\<close>

definition smart_period_columns :: "table \<Rightarrow> (nat \<times> string) list" where
  "smart_period_columns t =
     (if length t > 2 \<and> t ! 2 \<noteq> [] then
        List.map_filter
          (\<lambda>(col_idx, c).
              if \<not> truthy c then None
              else map_option (\<lambda>p. (col_idx, p)) (smart_period_of_cell (py_str c)))
          (enumerate 0 (t ! 2))
      else [])"

text \<open>One pass of the loop over the period columns for a class row: \<open>None\<close> is \<open>continue\<close>.\<close>

definition smart_column_entry ::
  "string \<Rightarrow> int \<Rightarrow> row \<Rightarrow> string \<Rightarrow> nat \<times> string \<Rightarrow> entry option" where
  "smart_column_entry dname dnum r cname cp =
     (case cp of (col_idx, period_num) \<Rightarrow>
        if col_idx \<ge> length r then None
        else if \<not> truthy (r ! col_idx) then None
        else
          let (subject0, teacher0) = smart_extract_subject_and_teacher (py_str (r ! col_idx)) in
          if \<not> truthy subject0 \<or> \<not> truthy teacher0 then None
          else
            (case map_of TIME_PERIODS period_num of
               None \<Rightarrow> None
             | Some (start_time_str, end_time_str) \<Rightarrow>
                 if start_time_str = [] \<or> end_time_str = [] then None
                 else
                   let start_time0 = parse_time start_time_str;
                       end_time0 = parse_time end_time_str
                   in if start_time0 = None \<or> end_time0 = None then None
                      else Some \<lparr> class_name = Some cname, day = Some dnum, day_name = dname,
                                  start_time = start_time0, end_time = end_time0,
                                  subject = subject0, teacher = teacher0,
                                  period = period_num \<rparr>))"

definition smart_row_entries ::
  "string \<Rightarrow> int \<Rightarrow> (nat \<times> string) list \<Rightarrow> row \<Rightarrow> entry list" where
  "smart_row_entries dname dnum period_columns r =
     (case class_name_of_row r of
        None \<Rightarrow> []
      | Some cname \<Rightarrow> List.map_filter (smart_column_entry dname dnum r cname) period_columns)"

definition smart_extract_page :: "page \<Rightarrow> py_error + entry page_result" where
  "smart_extract_page pg =
     (case tables pg of
        [] \<Rightarrow> Inr NoTables
      | t # _ \<Rightarrow>
          (case smart_day_of_table t of
             Inl err \<Rightarrow> Inl err
           | Inr None \<Rightarrow> Inr NoDay
           | Inr (Some (dname, dnum)) \<Rightarrow>
               Inr (Extracted
                 (concat (map (smart_row_entries dname dnum (smart_period_columns t))
                              (drop 3 t))))))"

text \<open>
  \<open>extract_schedules_from_pdf\<close> on the pages of an opened document. Nothing catches an
  exception here: the first page that raises ends the whole extraction.
\<close>

fun smart_extract_schedules_from_pdf :: "page list \<Rightarrow> py_error + entry list" where
  "smart_extract_schedules_from_pdf [] = Inr []"
| "smart_extract_schedules_from_pdf (pg # pgs) =
     (case smart_extract_page pg of
        Inl err \<Rightarrow> Inl err
      | Inr res \<Rightarrow>
          (case smart_extract_schedules_from_pdf pgs of
             Inl err \<Rightarrow> Inl err
           | Inr es \<Rightarrow> Inr (page_entries res @ es)))"

section \<open>The database of \<open>app.py\<close>\<close>

text \<open>
  One record per model class, one list per table in insertion order; \<open>first()\<close> is the
  first match in that order. Every column is \<open>nullable=False\<close> unless it is an option
  here. A floor's name is either some text or the default Arabic name that the import
  scripts build from the floor number.
\<close>

datatype floor_label = FloorName string | DefaultFloorName int

record floor_row =
  fl_id :: nat
  fl_name :: floor_label
  fl_number :: int

record class_row =
  cl_id :: nat
  cl_name :: string
  cl_floor_id :: nat

record teacher_row =
  te_id :: nat
  te_name :: string

record subject_row =
  su_id :: nat
  su_name :: string

record schedule_row =
  sc_id :: nat
  sc_class_id :: nat
  sc_teacher_id :: nat
  sc_subject_id :: nat
  sc_day_of_week :: int
  sc_start_time :: time
  sc_end_time :: time

record attendance_row =
  at_id :: nat
  at_schedule_id :: nat
  at_class_id :: nat
  at_teacher_id :: nat
  at_date :: "nat \<times> nat \<times> nat"
  at_status :: string
  at_actual_time :: "time option"
  at_minutes_late :: "int option"
  at_notes :: "string option"

text \<open>
  The committed state. \<open>commit_no\<close> counts the commits attempted so far; it only says
  which commit of a run an injected failure hits.
\<close>

record db =
  floors :: "floor_row list"
  classes :: "class_row list"
  teachers :: "teacher_row list"
  subjects :: "subject_row list"
  schedules :: "schedule_row list"
  attendances :: "attendance_row list"
  commit_no :: nat

text \<open>The integer primary key SQLite gives a new row: one more than the largest in use.\<close>

definition next_id :: "nat list \<Rightarrow> nat" where
  "next_id ids = Suc (fold max ids 0)"

definition bump :: "db \<Rightarrow> db" where
  "bump d = d\<lparr> commit_no := Suc (commit_no d) \<rparr>"

text \<open>
  \<open>db.session.add(row); db.session.commit()\<close>. The parameter \<open>fails\<close> says which commits
  of the run the store rejects for a reason of its own (\<open>OperationalError\<close>); a \<open>None\<close> in
  a column that is not nullable, or a second row with a unique value, is an
  \<open>IntegrityError\<close>. A commit that raises persists nothing: the \<open>rollback()\<close> of the
  handlers then only discards the pending row.
\<close>

definition add_floor :: "(nat \<Rightarrow> bool) \<Rightarrow> floor_label \<Rightarrow> int \<Rightarrow> db \<Rightarrow> (py_error + nat) \<times> db" where
  "add_floor fails name number d =
     (if fails (commit_no d) then (Inl OperationalError, bump d)
      else if number \<in> set (map fl_number (floors d)) then (Inl IntegrityError, bump d)
      else
        let i = next_id (map fl_id (floors d)) in
        (Inr i, bump (d\<lparr> floors := floors d
                          @ [\<lparr> fl_id = i, fl_name = name, fl_number = number \<rparr>] \<rparr>)))"

definition add_class :: "(nat \<Rightarrow> bool) \<Rightarrow> string option \<Rightarrow> nat \<Rightarrow> db \<Rightarrow> (py_error + nat) \<times> db" where
  "add_class fails name floor_id d =
     (if fails (commit_no d) then (Inl OperationalError, bump d)
      else
        (case name of
           None \<Rightarrow> (Inl IntegrityError, bump d)
         | Some n \<Rightarrow>
             let i = next_id (map cl_id (classes d)) in
             (Inr i, bump (d\<lparr> classes := classes d
                               @ [\<lparr> cl_id = i, cl_name = n, cl_floor_id = floor_id \<rparr>] \<rparr>))))"

definition add_teacher :: "(nat \<Rightarrow> bool) \<Rightarrow> string option \<Rightarrow> db \<Rightarrow> (py_error + nat) \<times> db" where
  "add_teacher fails name d =
     (if fails (commit_no d) then (Inl OperationalError, bump d)
      else
        (case name of
           None \<Rightarrow> (Inl IntegrityError, bump d)
         | Some n \<Rightarrow>
             let i = next_id (map te_id (teachers d)) in
             (Inr i, bump (d\<lparr> teachers := teachers d @ [\<lparr> te_id = i, te_name = n \<rparr>] \<rparr>))))"

definition add_subject :: "(nat \<Rightarrow> bool) \<Rightarrow> string option \<Rightarrow> db \<Rightarrow> (py_error + nat) \<times> db" where
  "add_subject fails name d =
     (if fails (commit_no d) then (Inl OperationalError, bump d)
      else
        (case name of
           None \<Rightarrow> (Inl IntegrityError, bump d)
         | Some n \<Rightarrow>
             if n \<in> set (map su_name (subjects d)) then (Inl IntegrityError, bump d)
             else
               let i = next_id (map su_id (subjects d)) in
               (Inr i, bump (d\<lparr> subjects := subjects d @ [\<lparr> su_id = i, su_name = n \<rparr>] \<rparr>))))"

definition add_schedule ::
  "(nat \<Rightarrow> bool) \<Rightarrow> nat \<Rightarrow> nat \<Rightarrow> nat \<Rightarrow> int option \<Rightarrow> time option \<Rightarrow> time option \<Rightarrow> db
     \<Rightarrow> (py_error + nat) \<times> db" where
  "add_schedule fails class_id teacher_id subject_id dow st en d =
     (if fails (commit_no d) then (Inl OperationalError, bump d)
      else
        (case (dow, st, en) of
           (Some dw, Some s, Some e) \<Rightarrow>
             let i = next_id (map sc_id (schedules d)) in
             (Inr i, bump (d\<lparr> schedules := schedules d
                               @ [\<lparr> sc_id = i, sc_class_id = class_id,
                                    sc_teacher_id = teacher_id, sc_subject_id = subject_id,
                                    sc_day_of_week = dw, sc_start_time = s,
                                    sc_end_time = e \<rparr>] \<rparr>))
         | _ \<Rightarrow> (Inl IntegrityError, bump d)))"

text \<open>
  The \<open>filter_by(...).first()\<close> queries. Comparing a column with \<open>None\<close> asks for a null,
  which no row has.
\<close>

definition find_floor :: "int \<Rightarrow> db \<Rightarrow> floor_row option" where
  "find_floor number d = find (\<lambda>f. fl_number f = number) (floors d)"

definition find_class :: "string option \<Rightarrow> nat \<Rightarrow> db \<Rightarrow> class_row option" where
  "find_class name floor_id d =
     (case name of
        None \<Rightarrow> None
      | Some n \<Rightarrow> find (\<lambda>c. cl_name c = n \<and> cl_floor_id c = floor_id) (classes d))"

definition find_teacher :: "string option \<Rightarrow> db \<Rightarrow> teacher_row option" where
  "find_teacher name d =
     (case name of None \<Rightarrow> None | Some n \<Rightarrow> find (\<lambda>t. te_name t = n) (teachers d))"

definition find_subject :: "string option \<Rightarrow> db \<Rightarrow> subject_row option" where
  "find_subject name d =
     (case name of None \<Rightarrow> None | Some n \<Rightarrow> find (\<lambda>s. su_name s = n) (subjects d))"

text \<open>The duplicate check on the natural key (class, day, start, end).\<close>

definition find_schedule ::
  "nat \<Rightarrow> int option \<Rightarrow> time option \<Rightarrow> time option \<Rightarrow> db \<Rightarrow> schedule_row option" where
  "find_schedule class_id dow st en d =
     (case (dow, st, en) of
        (Some dw, Some s, Some e) \<Rightarrow>
          find (\<lambda>r. sc_class_id r = class_id \<and> sc_day_of_week r = dw
                   \<and> sc_start_time r = s \<and> sc_end_time r = e) (schedules d)
      | _ \<Rightarrow> None)"

text \<open>
  Get-or-create, written out in the same way in each import script: the id of the row and
  whether it was created.
\<close>

definition get_or_create_floor :: "(nat \<Rightarrow> bool) \<Rightarrow> int \<Rightarrow> db \<Rightarrow> (py_error + nat) \<times> db" where
  "get_or_create_floor fails floor_no d =
     (case find_floor floor_no d of
        Some f \<Rightarrow> (Inr (fl_id f), d)
      | None \<Rightarrow> add_floor fails (DefaultFloorName floor_no) floor_no d)"

definition get_or_create_class ::
  "(nat \<Rightarrow> bool) \<Rightarrow> string option \<Rightarrow> nat \<Rightarrow> db \<Rightarrow> (py_error + nat \<times> bool) \<times> db" where
  "get_or_create_class fails name floor_id d =
     (case find_class name floor_id d of
        Some c \<Rightarrow> (Inr (cl_id c, False), d)
      | None \<Rightarrow>
          (case add_class fails name floor_id d of
             (Inl err, d') \<Rightarrow> (Inl err, d')
           | (Inr i, d') \<Rightarrow> (Inr (i, True), d')))"

definition get_or_create_teacher ::
  "(nat \<Rightarrow> bool) \<Rightarrow> string option \<Rightarrow> db \<Rightarrow> (py_error + nat \<times> bool) \<times> db" where
  "get_or_create_teacher fails name d =
     (case find_teacher name d of
        Some t \<Rightarrow> (Inr (te_id t, False), d)
      | None \<Rightarrow>
          (case add_teacher fails name d of
             (Inl err, d') \<Rightarrow> (Inl err, d')
           | (Inr i, d') \<Rightarrow> (Inr (i, True), d')))"

definition get_or_create_subject ::
  "(nat \<Rightarrow> bool) \<Rightarrow> string option \<Rightarrow> db \<Rightarrow> (py_error + nat \<times> bool) \<times> db" where
  "get_or_create_subject fails name d =
     (case find_subject name d of
        Some s \<Rightarrow> (Inr (su_id s, False), d)
      | None \<Rightarrow>
          (case add_subject fails name d of
             (Inl err, d') \<Rightarrow> (Inl err, d')
           | (Inr i, d') \<Rightarrow> (Inr (i, True), d')))"

text \<open>The store that never rejects a commit for a reason of its own.\<close>

definition no_failure :: "nat \<Rightarrow> bool" where
  "no_failure n = False"

text \<open>The store that rejects exactly the commit numbered \<open>k\<close>, counting from 0.\<close>

definition fails_at :: "nat \<Rightarrow> nat \<Rightarrow> bool" where
  "fails_at k n \<longleftrightarrow> n = k"

section \<open>\<open>import_schedule_smart.import_to_database\<close>\<close>

record smart_stats =
  sm_total :: nat
  sm_imported :: nat
  sm_skipped :: nat
  sm_errors :: nat
  sm_classes_created :: "string option set"
  sm_teachers_created :: "string option set"
  sm_subjects_created :: "string option set"

text \<open>
  The body of the \<open>try\<close> for one entry: the exception that ends it, if any, with the
  database and the statistics as they are at that point.
\<close>

definition smart_try_entry ::
  "(nat \<Rightarrow> bool) \<Rightarrow> nat \<Rightarrow> 'a entry_scheme \<Rightarrow> db \<Rightarrow> smart_stats
     \<Rightarrow> (py_error + unit) \<times> db \<times> smart_stats" where
  "smart_try_entry fails floor_id e d st =
     (case get_or_create_class fails (class_name e) floor_id d of
        (Inl err, d1) \<Rightarrow> (Inl err, d1, st)
      | (Inr (class_id, class_new), d1) \<Rightarrow>
     let st1 = (if class_new
                then st\<lparr> sm_classes_created := insert (class_name e) (sm_classes_created st) \<rparr>
                else st) in
     (case get_or_create_teacher fails (teacher e) d1 of
        (Inl err, d2) \<Rightarrow> (Inl err, d2, st1)
      | (Inr (teacher_id, teacher_new), d2) \<Rightarrow>
     let st2 = (if teacher_new
                then st1\<lparr> sm_teachers_created := insert (teacher e) (sm_teachers_created st1) \<rparr>
                else st1) in
     (case get_or_create_subject fails (subject e) d2 of
        (Inl err, d3) \<Rightarrow> (Inl err, d3, st2)
      | (Inr (subject_id, subject_new), d3) \<Rightarrow>
     let st3 = (if subject_new
                then st2\<lparr> sm_subjects_created := insert (subject e) (sm_subjects_created st2) \<rparr>
                else st2) in
     (case find_schedule class_id (day e) (start_time e) (end_time e) d3 of
        Some existing \<Rightarrow> (Inr (), d3, st3\<lparr> sm_skipped := sm_skipped st3 + 1 \<rparr>)
      | None \<Rightarrow>
     (case add_schedule fails class_id teacher_id subject_id
             (day e) (start_time e) (end_time e) d3 of
        (Inl err, d4) \<Rightarrow> (Inl err, d4, st3)
      | (Inr schedule_id, d4) \<Rightarrow>
          (Inr (), d4, st3\<lparr> sm_imported := sm_imported st3 + 1 \<rparr>))))))"

text \<open>One pass of the loop: the \<open>except\<close> clause counts the error and rolls back.\<close>

definition smart_step ::
  "(nat \<Rightarrow> bool) \<Rightarrow> nat \<Rightarrow> db \<times> smart_stats \<Rightarrow> 'a entry_scheme \<Rightarrow> db \<times> smart_stats" where
  "smart_step fails floor_id ds e =
     (case ds of (d, st) \<Rightarrow>
        (case smart_try_entry fails floor_id e d st of
           (Inl err, d', st') \<Rightarrow> (d', st'\<lparr> sm_errors := sm_errors st' + 1 \<rparr>)
         | (Inr u, d', st') \<Rightarrow> (d', st')))"

text \<open>
  The whole import: the statistics it prints, or the exception of the floor's
  get-or-create, which nothing catches.
\<close>

definition smart_import_to_database ::
  "(nat \<Rightarrow> bool) \<Rightarrow> 'a entry_scheme list \<Rightarrow> int \<Rightarrow> db \<Rightarrow> (py_error + smart_stats) \<times> db" where
  "smart_import_to_database fails schedules_in floor_no d =
     (case get_or_create_floor fails floor_no d of
        (Inl err, d0) \<Rightarrow> (Inl err, d0)
      | (Inr floor_id, d0) \<Rightarrow>
          let stats = \<lparr> sm_total = length schedules_in, sm_imported = 0, sm_skipped = 0,
                        sm_errors = 0, sm_classes_created = {}, sm_teachers_created = {},
                        sm_subjects_created = {} \<rparr>;
              (d1, st1) = foldl (smart_step fails floor_id) (d0, stats) schedules_in
          in (Inr st1, d1))"

section \<open>\<open>import_complete_schedules.import_to_database\<close>\<close>

record complete_stats =
  co_total :: nat
  co_imported :: nat
  co_free_periods :: nat
  co_academic :: nat
  co_skipped :: nat
  co_classes_created :: "string option set"

text \<open>The sentinel subject and teacher, looked up or created before the loop.\<close>

definition complete_try_entry ::
  "(nat \<Rightarrow> bool) \<Rightarrow> nat \<Rightarrow> nat \<Rightarrow> nat \<Rightarrow> complete_entry \<Rightarrow> db \<Rightarrow> complete_stats
     \<Rightarrow> (py_error + unit) \<times> db \<times> complete_stats" where
  "complete_try_entry fails floor_id free_subject_id no_teacher_id e d st =
     (case get_or_create_class fails (class_name e) floor_id d of
        (Inl err, d1) \<Rightarrow> (Inl err, d1, st)
      | (Inr (class_id, class_new), d1) \<Rightarrow>
     let st1 = (if class_new
                then st\<lparr> co_classes_created := insert (class_name e) (co_classes_created st) \<rparr>
                else st) in
     (case (if is_free e then (Inr (no_teacher_id, False), d1)
            else get_or_create_teacher fails (teacher e) d1) of
        (Inl err, d2) \<Rightarrow> (Inl err, d2, st1)
      | (Inr (teacher_id, teacher_new), d2) \<Rightarrow>
     (case (if is_free e then (Inr (free_subject_id, False), d2)
            else get_or_create_subject fails (subject e) d2) of
        (Inl err, d3) \<Rightarrow> (Inl err, d3, st1)
      | (Inr (subject_id, subject_new), d3) \<Rightarrow>
     (case find_schedule class_id (day e) (start_time e) (end_time e) d3 of
        Some existing \<Rightarrow> (Inr (), d3, st1\<lparr> co_skipped := co_skipped st1 + 1 \<rparr>)
      | None \<Rightarrow>
     (case add_schedule fails class_id teacher_id subject_id
             (day e) (start_time e) (end_time e) d3 of
        (Inl err, d4) \<Rightarrow> (Inl err, d4, st1)
      | (Inr schedule_id, d4) \<Rightarrow>
          let st4 = st1\<lparr> co_imported := co_imported st1 + 1 \<rparr> in
          (Inr (), d4,
           if is_free e then st4\<lparr> co_free_periods := co_free_periods st4 + 1 \<rparr>
           else st4\<lparr> co_academic := co_academic st4 + 1 \<rparr>))))))"

text \<open>One pass of the loop: the \<open>except\<close> clause rolls back and counts nothing.\<close>

definition complete_step ::
  "(nat \<Rightarrow> bool) \<Rightarrow> nat \<Rightarrow> nat \<Rightarrow> nat \<Rightarrow> db \<times> complete_stats \<Rightarrow> complete_entry
     \<Rightarrow> db \<times> complete_stats" where
  "complete_step fails floor_id free_subject_id no_teacher_id ds e =
     (case ds of (d, st) \<Rightarrow>
        (case complete_try_entry fails floor_id free_subject_id no_teacher_id e d st of
           (err_or_unit, d', st') \<Rightarrow> (d', st')))"

text \<open>
  \<open>clear_existing\<close>: the schedules of every class of the floor are deleted in one commit.
\<close>

definition clear_floor_schedules :: "(nat \<Rightarrow> bool) \<Rightarrow> nat \<Rightarrow> db \<Rightarrow> (py_error + unit) \<times> db" where
  "clear_floor_schedules fails floor_id d =
     (if fails (commit_no d) then (Inl OperationalError, bump d)
      else
        let classes_in_floor = map cl_id (filter (\<lambda>c. cl_floor_id c = floor_id) (classes d)) in
        (Inr (), bump (d\<lparr> schedules :=
                           filter (\<lambda>s. sc_class_id s \<notin> set classes_in_floor) (schedules d) \<rparr>)))"

definition complete_import_to_database ::
  "(nat \<Rightarrow> bool) \<Rightarrow> complete_entry list \<Rightarrow> int \<Rightarrow> bool \<Rightarrow> db
     \<Rightarrow> (py_error + complete_stats) \<times> db" where
  "complete_import_to_database fails schedules_in floor_no clear_existing d =
     (case get_or_create_floor fails floor_no d of
        (Inl err, d0) \<Rightarrow> (Inl err, d0)
      | (Inr floor_id, d0) \<Rightarrow>
     (case (if clear_existing then clear_floor_schedules fails floor_id d0 else (Inr (), d0)) of
        (Inl err, d1) \<Rightarrow> (Inl err, d1)
      | (Inr u, d1) \<Rightarrow>
     (case get_or_create_subject fails (Some ''Free Period'') d1 of
        (Inl err, d2) \<Rightarrow> (Inl err, d2)
      | (Inr (free_subject_id, subject_new), d2) \<Rightarrow>
     (case get_or_create_teacher fails (Some ''No Teacher'') d2 of
        (Inl err, d3) \<Rightarrow> (Inl err, d3)
      | (Inr (no_teacher_id, teacher_new), d3) \<Rightarrow>
          let stats = \<lparr> co_total = length schedules_in, co_imported = 0, co_free_periods = 0,
                        co_academic = 0, co_skipped = 0, co_classes_created = {} \<rparr>;
              (d4, st4) = foldl (complete_step fails floor_id free_subject_id no_teacher_id)
                            (d3, stats) schedules_in
          in (Inr st4, d4)))))"

section \<open>\<open>import_schedule_from_pdf.import_schedule_to_database\<close>\<close>

record pdf_stats =
  pd_processed :: nat
  pd_imported :: nat
  pd_skipped :: nat
  pd_errors :: nat
  pd_classes_created :: nat
  pd_teachers_created :: nat
  pd_subjects_created :: nat

text \<open>
  The body of the \<open>try\<close>: the validations are interleaved with the get-or-create steps, and
  each of them, like the duplicate check, adds to \<open>skipped\<close> and continues. A time object
  is always true, so \<open>not entry['start_time']\<close> asks for \<open>None\<close>.
\<close>

definition pdf_try_entry ::
  "(nat \<Rightarrow> bool) \<Rightarrow> nat \<Rightarrow> 'a entry_scheme \<Rightarrow> db \<Rightarrow> pdf_stats
     \<Rightarrow> (py_error + unit) \<times> db \<times> pdf_stats" where
  "pdf_try_entry fails floor_id e d st =
     (if day e = None then (Inr (), d, st\<lparr> pd_skipped := pd_skipped st + 1 \<rparr>)
      else if start_time e = None \<or> end_time e = None
      then (Inr (), d, st\<lparr> pd_skipped := pd_skipped st + 1 \<rparr>)
      else if \<not> truthy (class_name e)
      then (Inr (), d, st\<lparr> pd_skipped := pd_skipped st + 1 \<rparr>)
      else
     (case get_or_create_class fails (class_name e) floor_id d of
        (Inl err, d1) \<Rightarrow> (Inl err, d1, st)
      | (Inr (class_id, class_new), d1) \<Rightarrow>
     let st1 = (if class_new then st\<lparr> pd_classes_created := pd_classes_created st + 1 \<rparr>
                else st) in
     if \<not> truthy (teacher e)
     then (Inr (), d1, st1\<lparr> pd_skipped := pd_skipped st1 + 1 \<rparr>)
     else
     (case get_or_create_teacher fails (teacher e) d1 of
        (Inl err, d2) \<Rightarrow> (Inl err, d2, st1)
      | (Inr (teacher_id, teacher_new), d2) \<Rightarrow>
     let st2 = (if teacher_new then st1\<lparr> pd_teachers_created := pd_teachers_created st1 + 1 \<rparr>
                else st1) in
     if \<not> truthy (subject e)
     then (Inr (), d2, st2\<lparr> pd_skipped := pd_skipped st2 + 1 \<rparr>)
     else
     (case get_or_create_subject fails (subject e) d2 of
        (Inl err, d3) \<Rightarrow> (Inl err, d3, st2)
      | (Inr (subject_id, subject_new), d3) \<Rightarrow>
     let st3 = (if subject_new then st2\<lparr> pd_subjects_created := pd_subjects_created st2 + 1 \<rparr>
                else st2) in
     (case find_schedule class_id (day e) (start_time e) (end_time e) d3 of
        Some existing \<Rightarrow> (Inr (), d3, st3\<lparr> pd_skipped := pd_skipped st3 + 1 \<rparr>)
      | None \<Rightarrow>
     (case add_schedule fails class_id teacher_id subject_id
             (day e) (start_time e) (end_time e) d3 of
        (Inl err, d4) \<Rightarrow> (Inl err, d4, st3)
      | (Inr schedule_id, d4) \<Rightarrow>
          (Inr (), d4, st3\<lparr> pd_imported := pd_imported st3 + 1 \<rparr>)))))))"

definition pdf_step ::
  "(nat \<Rightarrow> bool) \<Rightarrow> nat \<Rightarrow> db \<times> pdf_stats \<Rightarrow> 'a entry_scheme \<Rightarrow> db \<times> pdf_stats" where
  "pdf_step fails floor_id ds e =
     (case ds of (d, st) \<Rightarrow>
        (case pdf_try_entry fails floor_id e d (st\<lparr> pd_processed := pd_processed st + 1 \<rparr>) of
           (Inl err, d', st') \<Rightarrow> (d', st'\<lparr> pd_errors := pd_errors st' + 1 \<rparr>)
         | (Inr u, d', st') \<Rightarrow> (d', st')))"

definition import_schedule_to_database ::
  "(nat \<Rightarrow> bool) \<Rightarrow> 'a entry_scheme list \<Rightarrow> int \<Rightarrow> db \<Rightarrow> (py_error + pdf_stats) \<times> db" where
  "import_schedule_to_database fails schedules_in floor_no d =
     (case get_or_create_floor fails floor_no d of
        (Inl err, d0) \<Rightarrow> (Inl err, d0)
      | (Inr floor_id, d0) \<Rightarrow>
          let stats = \<lparr> pd_processed = 0, pd_imported = 0, pd_skipped = 0, pd_errors = 0,
                        pd_classes_created = 0, pd_teachers_created = 0,
                        pd_subjects_created = 0 \<rparr>;
              (d1, st1) = foldl (pdf_step fails floor_id) (d0, stats) schedules_in
          in (Inr st1, d1))"

section \<open>\<open>import_remaining_floors.import_to_database\<close>\<close>

record remaining_stats =
  rf_total :: nat
  rf_imported :: nat
  rf_skipped_duplicate :: nat
  rf_skipped_invalid :: nat
  rf_errors :: nat
  rf_classes_created :: "string option set"
  rf_teachers_created :: "string option set"
  rf_subjects_created :: "string option set"

text \<open>
  The validation that opens the \<open>try\<close>: \<open>all([...])\<close> of the six values read with
  \<open>entry.get\<close>. A name counts when it is a non-empty string, a time when it is not \<open>None\<close>
  (a time object is always true), and the day is compared with \<open>None\<close>, so that Monday, 0,
  counts.
\<close>

definition remaining_valid :: "'a entry_scheme \<Rightarrow> bool" where
  "remaining_valid e \<longleftrightarrow>
     truthy (class_name e) \<and> truthy (subject e) \<and> truthy (teacher e)
     \<and> start_time e \<noteq> None \<and> end_time e \<noteq> None \<and> day e \<noteq> None"

text \<open>
  The body of the \<open>try\<close>: the validation comes before any query, and an entry it rejects
  adds to \<open>skipped_invalid\<close>; the duplicate check adds to \<open>skipped_duplicate\<close>.
\<close>

definition remaining_try_entry ::
  "(nat \<Rightarrow> bool) \<Rightarrow> nat \<Rightarrow> 'a entry_scheme \<Rightarrow> db \<Rightarrow> remaining_stats
     \<Rightarrow> (py_error + unit) \<times> db \<times> remaining_stats" where
  "remaining_try_entry fails floor_id e d st =
     (if \<not> remaining_valid e
      then (Inr (), d, st\<lparr> rf_skipped_invalid := rf_skipped_invalid st + 1 \<rparr>)
      else
     (case get_or_create_class fails (class_name e) floor_id d of
        (Inl err, d1) \<Rightarrow> (Inl err, d1, st)
      | (Inr (class_id, class_new), d1) \<Rightarrow>
     let st1 = (if class_new
                then st\<lparr> rf_classes_created := insert (class_name e) (rf_classes_created st) \<rparr>
                else st) in
     (case get_or_create_teacher fails (teacher e) d1 of
        (Inl err, d2) \<Rightarrow> (Inl err, d2, st1)
      | (Inr (teacher_id, teacher_new), d2) \<Rightarrow>
     let st2 = (if teacher_new
                then st1\<lparr> rf_teachers_created := insert (teacher e) (rf_teachers_created st1) \<rparr>
                else st1) in
     (case get_or_create_subject fails (subject e) d2 of
        (Inl err, d3) \<Rightarrow> (Inl err, d3, st2)
      | (Inr (subject_id, subject_new), d3) \<Rightarrow>
     let st3 = (if subject_new
                then st2\<lparr> rf_subjects_created := insert (subject e) (rf_subjects_created st2) \<rparr>
                else st2) in
     (case find_schedule class_id (day e) (start_time e) (end_time e) d3 of
        Some existing \<Rightarrow>
          (Inr (), d3, st3\<lparr> rf_skipped_duplicate := rf_skipped_duplicate st3 + 1 \<rparr>)
      | None \<Rightarrow>
     (case add_schedule fails class_id teacher_id subject_id
             (day e) (start_time e) (end_time e) d3 of
        (Inl err, d4) \<Rightarrow> (Inl err, d4, st3)
      | (Inr schedule_id, d4) \<Rightarrow>
          (Inr (), d4, st3\<lparr> rf_imported := rf_imported st3 + 1 \<rparr>)))))))"

text \<open>One pass of the loop: the \<open>except\<close> clause counts the error and rolls back.\<close>

definition remaining_step ::
  "(nat \<Rightarrow> bool) \<Rightarrow> nat \<Rightarrow> db \<times> remaining_stats \<Rightarrow> 'a entry_scheme
     \<Rightarrow> db \<times> remaining_stats" where
  "remaining_step fails floor_id ds e =
     (case ds of (d, st) \<Rightarrow>
        (case remaining_try_entry fails floor_id e d st of
           (Inl err, d', st') \<Rightarrow> (d', st'\<lparr> rf_errors := rf_errors st' + 1 \<rparr>)
         | (Inr u, d', st') \<Rightarrow> (d', st')))"

text \<open>
  The whole import. With no entries it prints a warning and returns before it opens the
  database: no statistics, and no floor row.
\<close>

definition remaining_import_to_database ::
  "(nat \<Rightarrow> bool) \<Rightarrow> 'a entry_scheme list \<Rightarrow> int \<Rightarrow> db
     \<Rightarrow> (py_error + remaining_stats option) \<times> db" where
  "remaining_import_to_database fails schedules_in floor_no d =
     (if schedules_in = [] then (Inr None, d)
      else
     (case get_or_create_floor fails floor_no d of
        (Inl err, d0) \<Rightarrow> (Inl err, d0)
      | (Inr floor_id, d0) \<Rightarrow>
          let stats = \<lparr> rf_total = length schedules_in, rf_imported = 0,
                        rf_skipped_duplicate = 0, rf_skipped_invalid = 0, rf_errors = 0,
                        rf_classes_created = {}, rf_teachers_created = {},
                        rf_subjects_created = {} \<rparr>;
              (d1, st1) = foldl (remaining_step fails floor_id) (d0, stats) schedules_in
          in (Inr (Some st1), d1)))"

section \<open>Deleting a teacher or a subject in \<open>app.py\<close>\<close>

text \<open>What the route answers: the flashed message's category before the redirect.\<close>

datatype flash = FlashError | FlashSuccess

text \<open>
  \<open>delete_teacher\<close>: \<open>get_or_404\<close>, then the guard on \<open>teacher.schedules\<close>. Past the guard the
  delete first sets the teacher of every attendance row of that teacher to null, which
  that column does not allow.
\<close>

definition delete_teacher :: "nat \<Rightarrow> db \<Rightarrow> (py_error + flash) \<times> db" where
  "delete_teacher teacher_id d =
     (case find (\<lambda>t. te_id t = teacher_id) (teachers d) of
        None \<Rightarrow> (Inl NotFound, d)
      | Some teacher0 \<Rightarrow>
          if filter (\<lambda>s. sc_teacher_id s = teacher_id) (schedules d) \<noteq> []
          then (Inr FlashError, d)
          else if filter (\<lambda>a. at_teacher_id a = teacher_id) (attendances d) \<noteq> []
          then (Inl IntegrityError, bump d)
          else (Inr FlashSuccess,
                bump (d\<lparr> teachers := filter (\<lambda>t. te_id t \<noteq> teacher_id) (teachers d) \<rparr>)))"

definition delete_subject :: "nat \<Rightarrow> db \<Rightarrow> (py_error + flash) \<times> db" where
  "delete_subject subject_id d =
     (case find (\<lambda>s. su_id s = subject_id) (subjects d) of
        None \<Rightarrow> (Inl NotFound, d)
      | Some subject0 \<Rightarrow>
          if filter (\<lambda>s. sc_subject_id s = subject_id) (schedules d) \<noteq> []
          then (Inr FlashError, d)
          else (Inr FlashSuccess,
                bump (d\<lparr> subjects := filter (\<lambda>s. su_id s \<noteq> subject_id) (subjects d) \<rparr>)))"

section \<open>Predicates of the statements about the import engines\<close>

text \<open>An entry all of whose fields read by the import are present, as extraction builds it.\<close>

definition entry_ok :: "'a entry_scheme \<Rightarrow> bool" where
  "entry_ok e \<longleftrightarrow>
     class_name e \<noteq> None \<and> day e \<noteq> None \<and> start_time e \<noteq> None \<and> end_time e \<noteq> None
     \<and> subject e \<noteq> None \<and> teacher e \<noteq> None"

text \<open>
  The natural key of an entry is taken: its class exists on the floor and a schedule row
  of that class has the entry's day, start and end.
\<close>

definition key_taken :: "nat \<Rightarrow> db \<Rightarrow> 'a entry_scheme \<Rightarrow> bool" where
  "key_taken floor_id d e \<longleftrightarrow>
     (case find_class (class_name e) floor_id d of
        None \<Rightarrow> False
      | Some c \<Rightarrow> find_schedule (cl_id c) (day e) (start_time e) (end_time e) d \<noteq> None)"

text \<open>The later state has the rows of the earlier one, in place, and possibly more after them.\<close>

definition db_extends :: "db \<Rightarrow> db \<Rightarrow> bool" where
  "db_extends d d' \<longleftrightarrow>
     floors d' = floors d \<and> attendances d' = attendances d
     \<and> prefix (classes d) (classes d') \<and> prefix (teachers d) (teachers d')
     \<and> prefix (subjects d) (subjects d') \<and> prefix (schedules d) (schedules d')"

text \<open>
  An entry that one of the validations of \<open>import_schedule_to_database\<close> rejects: no day,
  no start or end time, or an empty class, teacher or subject name.
\<close>

definition pdf_invalid :: "'a entry_scheme \<Rightarrow> bool" where
  "pdf_invalid e \<longleftrightarrow>
     day e = None \<or> start_time e = None \<or> end_time e = None
     \<or> \<not> truthy (class_name e) \<or> \<not> truthy (teacher e) \<or> \<not> truthy (subject e)"

section \<open>Example inputs\<close>

text \<open>A one-page document with three period columns and one class row, and the empty database.\<close>

definition example_page :: page where
  "example_page =
     \<lparr> tables = [[[Some ''Floor''], [None, Some ''Monday''],
                    [Some ''Class'', Some ''1\<newline>08:30'', Some ''2\<newline>09:05'',
                     Some ''3\<newline>09:40''],
                    [Some ''5A'', Some ''Math\<newline>Mr. Ali'', None, Some ''Break'']]],
       text_of_page = None \<rparr>"

definition example_entry :: entry where
  "example_entry =
     \<lparr> class_name = Some ''5A'', day = Some 0, day_name = ''monday'',
       start_time = Some (8, 30), end_time = Some (9, 5),
       subject = Some ''Math'', teacher = Some ''Mr. Ali'', period = ''1'' \<rparr>"

definition empty_db :: db where
  "empty_db = \<lparr> floors = [], classes = [], teachers = [], subjects = [], schedules = [],
                attendances = [], commit_no = 0 \<rparr>"

text \<open>
  A database with one floor, class, teacher, subject and schedule row: class 5A on floor 2
  has Math with Mr. Ali on Monday in period 1.
\<close>

definition example_school_db :: db where
  "example_school_db =
     \<lparr> floors = [\<lparr> fl_id = 1, fl_name = DefaultFloorName 2, fl_number = 2 \<rparr>],
       classes = [\<lparr> cl_id = 1, cl_name = ''5A'', cl_floor_id = 1 \<rparr>],
       teachers = [\<lparr> te_id = 1, te_name = ''Mr. Ali'' \<rparr>],
       subjects = [\<lparr> su_id = 1, su_name = ''Math'' \<rparr>],
       schedules = [\<lparr> sc_id = 1, sc_class_id = 1, sc_teacher_id = 1, sc_subject_id = 1,
                      sc_day_of_week = 0, sc_start_time = (8, 30), sc_end_time = (9, 5) \<rparr>],
       attendances = [], commit_no = 0 \<rparr>"

text \<open>The free-period entry of complete mode for the same class and period.\<close>

definition example_free_entry :: complete_entry where
  "example_free_entry =
     \<lparr> class_name = Some ''5A'', day = Some 0, day_name = ''monday'',
       start_time = Some (8, 30), end_time = Some (9, 5),
       subject = Some ''Free Period'', teacher = Some ''No Teacher'', period = ''1'',
       floor_number = 2, is_free = True \<rparr>"

section \<open>Facts about the string primitives\<close>

lemma py_strip_Nil [simp]: "py_strip [] = []"
  by (simp add: py_strip_def)

lemma set_py_strip: "set (py_strip s) \<subseteq> set s"
proof -
  have "set (py_strip s) \<subseteq> set (dropWhile py_isspace s)"
    unfolding py_strip_def using set_dropWhileD by fastforce
  also have "\<dots> \<subseteq> set s"
    using set_dropWhileD by fastforce
  finally show ?thesis .
qed

lemma py_strip_last_nonspace:
  assumes "py_strip s \<noteq> []"
  shows "\<not> py_isspace (last (py_strip s))"
proof -
  let ?t = "dropWhile py_isspace (rev (dropWhile py_isspace s))"
  from assms have ne: "?t \<noteq> []" by (simp add: py_strip_def)
  then have "\<not> py_isspace (hd ?t)" by (rule hd_dropWhile)
  moreover have "last (py_strip s) = hd ?t"
    using ne by (simp add: py_strip_def last_rev)
  ultimately show ?thesis by simp
qed

lemma py_strip_has_nonspace:
  assumes "py_strip s \<noteq> []"
  shows "\<exists>c \<in> set (py_strip s). \<not> py_isspace c"
  using assms py_strip_last_nonspace last_in_set by blast

lemma py_strip_nonempty:
  assumes "c \<in> set s" and "\<not> py_isspace c"
  shows "py_strip s \<noteq> []"
proof -
  from assms have "c \<in> set (dropWhile py_isspace s)"
    by (induction s) auto
  then have "c \<in> set (rev (dropWhile py_isspace s))" by simp
  then have "dropWhile py_isspace (rev (dropWhile py_isspace s)) \<noteq> []"
    using assms(2) by (metis dropWhile_eq_Nil_conv)
  then show ?thesis by (simp add: py_strip_def)
qed

lemma py_strip_cons_space: "py_isspace c \<Longrightarrow> py_strip (c # s) = py_strip s"
  by (simp add: py_strip_def)

lemma py_strip_snoc_space:
  assumes "py_isspace c"
  shows "py_strip (s @ [c]) = py_strip s"
proof (cases "\<forall>x \<in> set s. py_isspace x")
  case True
  then have "dropWhile py_isspace s = []" by simp
  moreover have "dropWhile py_isspace (s @ [c]) = []" using True assms by simp
  ultimately show ?thesis by (simp only: py_strip_def)
next
  case False
  then have "dropWhile py_isspace (s @ [c]) = dropWhile py_isspace s @ [c]"
    by (auto simp: dropWhile_append)
  then show ?thesis using assms by (simp add: py_strip_def)
qed

lemma py_split_nonempty: "py_split sep s \<noteq> []"
  by (induction s) auto

lemma py_split_snoc:
  "py_split sep (s @ [c]) =
     (if c = sep then py_split sep s @ [[]]
      else butlast (py_split sep s) @ [last (py_split sep s) @ [c]])"
proof (induction s)
  case Nil
  then show ?case by simp
next
  case (Cons a s)
  obtain l ls where sp: "py_split sep s = l # ls"
    using py_split_nonempty by (cases "py_split sep s") auto
  show ?case using Cons sp by (cases ls) auto
qed

lemma last_dropWhile_nonempty:
  assumes "dropWhile P xs \<noteq> []"
  shows "last (dropWhile P xs) = last xs"
proof -
  have "xs = takeWhile P xs @ dropWhile P xs" by simp
  then have "last xs = last (takeWhile P xs @ dropWhile P xs)" by simp
  also have "\<dots> = last (dropWhile P xs)" using assms by (rule last_appendR)
  finally show ?thesis by simp
qed

lemma py_strip_hd_nonspace:
  assumes "py_strip s \<noteq> []"
  shows "\<not> py_isspace (hd (py_strip s))"
proof -
  let ?u = "dropWhile py_isspace s"
  let ?t = "dropWhile py_isspace (rev ?u)"
  from assms have t: "?t \<noteq> []" by (simp add: py_strip_def)
  have u: "?u \<noteq> []"
  proof
    assume "?u = []"
    then have "?t = []" by (simp only: rev.simps dropWhile.simps)
    with t show False by simp
  qed
  have "hd (py_strip s) = last ?t" using t by (simp add: py_strip_def hd_rev)
  also have "\<dots> = last (rev ?u)" using t by (rule last_dropWhile_nonempty)
  also have "\<dots> = hd ?u" using u by (simp add: last_rev)
  finally have "hd (py_strip s) = hd ?u" .
  moreover have "\<not> py_isspace (hd ?u)" using u by (rule hd_dropWhile)
  ultimately show ?thesis by simp
qed

lemma py_strip_fixed:
  assumes "s \<noteq> []" and "\<not> py_isspace (hd s)" and "\<not> py_isspace (last s)"
  shows "py_strip s = s"
proof -
  have "dropWhile py_isspace s = s" using assms(2) by (simp add: dropWhile_eq_self_iff)
  moreover have "dropWhile py_isspace (rev s) = rev s"
    using assms(1,3) by (simp add: dropWhile_eq_self_iff hd_rev)
  ultimately show ?thesis by (simp add: py_strip_def)
qed

lemma py_strip_idem: "py_strip (py_strip s) = py_strip s"
proof (cases "py_strip s = []")
  case True
  then show ?thesis by simp
next
  case False
  then show ?thesis
    using py_strip_fixed py_strip_hd_nonspace py_strip_last_nonspace by blast
qed

lemma cell_lines_cons_space:
  assumes "py_isspace c"
  shows "cell_lines (c # s) = cell_lines s"
proof -
  obtain l ls where sp: "py_split (CHR 0x0A) s = l # ls"
    using py_split_nonempty by (cases "py_split (CHR 0x0A) s") auto
  show ?thesis using assms sp
    by (simp add: cell_lines_def py_strip_cons_space)
qed

lemma cell_lines_snoc_space:
  assumes "py_isspace c"
  shows "cell_lines (s @ [c]) = cell_lines s"
proof -
  let ?ls = "py_split (CHR 0x0A) s"
  have ne: "?ls \<noteq> []" by (rule py_split_nonempty)
  then have bl: "?ls = butlast ?ls @ [last ?ls]" by simp
  have "cell_lines s = map py_strip (filter (\<lambda>line. py_strip line \<noteq> [])
           (butlast ?ls @ [last ?ls]))"
    unfolding cell_lines_def using bl by simp
  then show ?thesis using assms
    by (simp add: cell_lines_def py_split_snoc py_strip_snoc_space)
qed

lemma cell_lines_dropWhile: "cell_lines (dropWhile py_isspace s) = cell_lines s"
  by (induction s) (simp_all add: cell_lines_cons_space)

lemma cell_lines_rev_dropWhile:
  "cell_lines (rev (dropWhile py_isspace r)) = cell_lines (rev r)"
  by (induction r) (simp_all add: cell_lines_snoc_space)

lemma cell_lines_py_strip: "cell_lines (py_strip s) = cell_lines s"
proof -
  have "cell_lines (py_strip s) = cell_lines (rev (rev (dropWhile py_isspace s)))"
    unfolding py_strip_def by (rule cell_lines_rev_dropWhile)
  then show ?thesis by (simp add: cell_lines_dropWhile)
qed

lemma cell_lines_subject_line:
  "cell_lines s = [] \<and> spec_subject_line s = [] \<or>
   (\<exists>rest. cell_lines s = py_strip (spec_subject_line s) # rest)"
  by (auto simp: cell_lines_def spec_subject_line_def split: list.splits)

lemma complete_short_subject_line:
  assumes "length (py_strip (spec_subject_line s)) < 2"
  shows "complete_extract_subject_and_teacher s = (None, None)"
proof -
  have "cell_lines (py_strip s) = cell_lines s" by (rule cell_lines_py_strip)
  with cell_lines_subject_line [of s] assms show ?thesis
    by (auto simp: complete_extract_subject_and_teacher_def Let_def py_strip_idem
             split: list.splits)
qed

lemma complete_filler:
  assumes "list_ex (\<lambda>kw. py_in kw (py_lower (py_strip s))) complete_skip_keywords"
  shows "complete_extract_subject_and_teacher s = (None, None)"
  using assms by (simp add: complete_extract_subject_and_teacher_def Let_def)

lemma smart_filler:
  assumes "list_ex (\<lambda>kw. py_in kw (py_lower (py_strip s))) smart_skip_keywords"
  shows "smart_extract_subject_and_teacher s = (None, None)"
  using assms by (simp add: smart_extract_subject_and_teacher_def Let_def)

lemma complete_subject_length:
  assumes "complete_extract_subject_and_teacher s = (Some subj, Some t)"
  shows "2 \<le> length subj"
  using assms
  by (auto simp: complete_extract_subject_and_teacher_def Let_def split: if_splits list.splits)

lemma set_py_join_hd: "set x \<subseteq> set (py_join sep (x # xs))"
  by (cases xs) auto

lemma cell_lines_nonempty: "l \<in> set (cell_lines t) \<Longrightarrow> l \<noteq> []"
  by (auto simp: cell_lines_def)

lemma cell_lines_has_nonspace:
  assumes "l \<in> set (cell_lines t)"
  shows "\<exists>c \<in> set l. \<not> py_isspace c"
proof -
  from assms obtain x where "l = py_strip x" and "py_strip x \<noteq> []"
    by (auto simp: cell_lines_def)
  then show ?thesis using py_strip_has_nonspace by simp
qed

lemma py_join_nonspace:
  assumes "\<exists>c \<in> set x. \<not> py_isspace c"
  shows "\<exists>c \<in> set (py_join sep (x # xs)). \<not> py_isspace c"
  using assms set_py_join_hd by blast

section \<open>Classifier: both or neither component\<close>

lemma smart_extract_shape:
  "smart_extract_subject_and_teacher s = (None, None) \<or>
   (\<exists>subj t. smart_extract_subject_and_teacher s = (Some subj, Some t) \<and> subj \<noteq> [] \<and> t \<noteq> [])"
proof (cases "smart_extract_subject_and_teacher s = (None, None)")
  case True
  then show ?thesis by simp
next
  case False
  let ?ls = "cell_lines (py_strip s)"
  from False obtain subject rest where ls: "?ls = subject # rest"
    and res: "smart_extract_subject_and_teacher s =
              (Some subject, Some (if rest \<noteq> [] then py_join '' '' rest else ''Unknown''))"
    by (auto simp: smart_extract_subject_and_teacher_def Let_def split: if_splits list.splits)
  have "subject \<noteq> []" using ls cell_lines_nonempty [of subject "py_strip s"] by simp
  moreover have "(if rest \<noteq> [] then py_join '' '' rest else ''Unknown'') \<noteq> []"
  proof (cases rest)
    case Nil
    then show ?thesis by simp
  next
    case (Cons y ys)
    have "y \<in> set ?ls" using ls Cons by simp
    then have "\<exists>c \<in> set y. \<not> py_isspace c" by (rule cell_lines_has_nonspace)
    then have "\<exists>c \<in> set (py_join '' '' (y # ys)). \<not> py_isspace c" by (rule py_join_nonspace)
    then show ?thesis using Cons by auto
  qed
  ultimately show ?thesis using res by simp
qed

lemma complete_extract_shape:
  "complete_extract_subject_and_teacher s = (None, None) \<or>
   (\<exists>subj t. complete_extract_subject_and_teacher s = (Some subj, Some t) \<and> subj \<noteq> [] \<and> t \<noteq> [])"
proof (cases "complete_extract_subject_and_teacher s = (None, None)")
  case True
  then show ?thesis by simp
next
  case False
  let ?ls = "cell_lines (py_strip s)"
  from False obtain subject rest where ls: "?ls = subject # rest"
    and len: "2 \<le> length (py_strip subject)"
    and res: "complete_extract_subject_and_teacher s =
              (Some (py_strip subject),
               Some (py_strip (if rest \<noteq> [] then py_join '' '' rest else ''Unknown Teacher'')))"
    by (auto simp: complete_extract_subject_and_teacher_def Let_def split: if_splits list.splits)
  have "py_strip subject \<noteq> []" using len by auto
  moreover have "py_strip (if rest \<noteq> [] then py_join '' '' rest else ''Unknown Teacher'') \<noteq> []"
  proof (cases rest)
    case Nil
    then show ?thesis by (simp add: py_strip_def py_isspace_def)
  next
    case (Cons y ys)
    have "y \<in> set ?ls" using ls Cons by simp
    then have "\<exists>c \<in> set y. \<not> py_isspace c" by (rule cell_lines_has_nonspace)
    then have "\<exists>c \<in> set (py_join '' '' (y # ys)). \<not> py_isspace c" by (rule py_join_nonspace)
    then have "py_strip (py_join '' '' (y # ys)) \<noteq> []" using py_strip_nonempty by blast
    then show ?thesis using Cons by simp
  qed
  ultimately show ?thesis using res by simp
qed

text \<open>
  C10. For every input string, each variant of \<open>extract_subject_and_teacher\<close> returns either
  \<open>(None, None)\<close> or a pair of two non-empty strings: never a subject without a teacher, nor
  a teacher without a subject.
\<close>

theorem extract_subject_and_teacher_both_or_neither:
  "(smart_extract_subject_and_teacher s = (None, None) \<or>
    (\<exists>subj t. smart_extract_subject_and_teacher s = (Some subj, Some t)
        \<and> subj \<noteq> [] \<and> t \<noteq> []))
   \<and>
   (complete_extract_subject_and_teacher s = (None, None) \<or>
    (\<exists>subj t. complete_extract_subject_and_teacher s = (Some subj, Some t)
        \<and> subj \<noteq> [] \<and> t \<noteq> []))"
  using smart_extract_shape [of s] complete_extract_shape [of s] by blast

section \<open>Classifier: reference vector and length rule\<close>

lemmas classifier_eval = smart_extract_subject_and_teacher_def complete_extract_subject_and_teacher_def
  smart_skip_keywords_def complete_skip_keywords_def cell_lines_def py_strip_def py_isspace_def
  py_lower_def py_lower_char_def Let_def spec_subject_line_def

text \<open>
  C5 (amended). In \<open>import_complete_schedules\<close>, an input whose trimmed text contains a
  filler keyword is classified as \<open>(None, None)\<close> whatever its length, every input whose
  subject line (first non-blank line) trims to fewer than 2 characters is classified as
  \<open>(None, None)\<close>, and the subject of an academic pair has at least 2 characters.
  \<open>import_schedule_smart\<close> has the filler check, with its own keywords, but no length
  check.
\<close>

theorem complete_classifier_filler_and_length:
  "(list_ex (\<lambda>kw. py_in kw (py_lower (py_strip s))) complete_skip_keywords
      \<longrightarrow> complete_extract_subject_and_teacher s = (None, None))
   \<and> (length (py_strip (spec_subject_line s)) < 2
      \<longrightarrow> complete_extract_subject_and_teacher s = (None, None))
   \<and> (\<forall>subj t. complete_extract_subject_and_teacher s = (Some subj, Some t)
      \<longrightarrow> 2 \<le> length subj)
   \<and> (list_ex (\<lambda>kw. py_in kw (py_lower (py_strip s))) smart_skip_keywords
      \<longrightarrow> smart_extract_subject_and_teacher s = (None, None))"
  using complete_filler complete_short_subject_line complete_subject_length smart_filler
  by blast

theorem complete_classifier_filler_and_length_witness:
  "list_ex (\<lambda>kw. py_in kw (py_lower (py_strip '' Lunch ''))) complete_skip_keywords
   \<and> complete_extract_subject_and_teacher '' Lunch '' = (None, None)
   \<and> length (py_strip (spec_subject_line ''\<newline> A \<newline>Mr. Ali'')) < 2
   \<and> complete_extract_subject_and_teacher ''\<newline> A \<newline>Mr. Ali'' = (None, None)
   \<and> complete_extract_subject_and_teacher ''Math\<newline>Mr. Ali'' = (Some ''Math'', Some ''Mr. Ali'')
   \<and> 2 \<le> length ''Math''
   \<and> list_ex (\<lambda>kw. py_in kw (py_lower (py_strip ''Breakfast''))) smart_skip_keywords
   \<and> smart_extract_subject_and_teacher ''Breakfast'' = (None, None)"
  using complete_classifier_filler_and_length [of "'' Lunch ''"]
    complete_classifier_filler_and_length [of "''Breakfast''"]
    complete_classifier_filler_and_length [of "''\<newline> A \<newline>Mr. Ali''"]
    complete_classifier_filler_and_length [of "''Math\<newline>Mr. Ali''"]
  by (simp add: classifier_eval)

text \<open>
  C5 as stated fails for \<open>import_schedule_smart\<close>: the one-character subject line \<open>A\<close> is
  returned as an academic pair.
\<close>

theorem smart_short_subject_counterexample:
  "length (py_strip (spec_subject_line ''A'')) < 2
   \<and> smart_extract_subject_and_teacher ''A'' = (Some ''A'', Some ''Unknown'')"
  by (simp add: classifier_eval)

text \<open>
  C4 (amended). The reference vector of the classifier: both variants map \<open>"Math\nMr. Ali"\<close> to
  \<open>("Math", "Mr. Ali")\<close> and \<open>"Break"\<close> and \<open>""\<close> to \<open>(None, None)\<close>; the single line
  \<open>"Art"\<close> gets the sentinel teacher \<open>"Unknown"\<close> in \<open>import_schedule_smart\<close> and
  \<open>"Unknown Teacher"\<close> in \<open>import_complete_schedules\<close>.
\<close>

theorem classifier_reference_vector:
  "smart_extract_subject_and_teacher ''Math\<newline>Mr. Ali'' = (Some ''Math'', Some ''Mr. Ali'')
   \<and> smart_extract_subject_and_teacher ''Break'' = (None, None)
   \<and> smart_extract_subject_and_teacher '''' = (None, None)
   \<and> smart_extract_subject_and_teacher ''Art'' = (Some ''Art'', Some ''Unknown'')
   \<and> complete_extract_subject_and_teacher ''Math\<newline>Mr. Ali'' = (Some ''Math'', Some ''Mr. Ali'')
   \<and> complete_extract_subject_and_teacher ''Break'' = (None, None)
   \<and> complete_extract_subject_and_teacher '''' = (None, None)
   \<and> complete_extract_subject_and_teacher ''Art'' = (Some ''Art'', Some ''Unknown Teacher'')"
  by (simp add: classifier_eval)

text \<open>
  C4 as stated fails for \<open>import_complete_schedules\<close>: its sentinel teacher is not
  \<open>"Unknown"\<close>.
\<close>

theorem complete_sentinel_counterexample:
  "complete_extract_subject_and_teacher ''Art'' \<noteq> (Some ''Art'', Some ''Unknown'')"
  by (simp add: classifier_eval)


section \<open>Table locator of \<open>import_complete_schedules\<close>\<close>

lemma complete_scan_period_rows_Some_iff:
  "complete_scan_period_rows k rows = Some (i, cols) \<longleftrightarrow>
     (\<exists>j < length rows. i = k + j
        \<and> cols = complete_row_period_cols (rows ! j)
        \<and> 3 \<le> length cols
        \<and> (\<forall>j' < j. length (complete_row_period_cols (rows ! j')) < 3))"
proof (induction rows arbitrary: k)
  case Nil
  show ?case by simp
next
  case (Cons r rs)
  have empty_row: "complete_row_period_cols [] = []"
    by (simp add: complete_row_period_cols_def)
  show ?case
  proof (cases "3 \<le> length (complete_row_period_cols r)")
    case True
    then have "r \<noteq> []" using empty_row by auto
    with True have "complete_scan_period_rows k (r # rs) = Some (k, complete_row_period_cols r)"
      by (simp add: Let_def)
    moreover have "(\<exists>j < length (r # rs). i = k + j
        \<and> cols = complete_row_period_cols ((r # rs) ! j)
        \<and> 3 \<le> length cols
        \<and> (\<forall>j' < j. length (complete_row_period_cols ((r # rs) ! j')) < 3))
       \<longleftrightarrow> (i = k \<and> cols = complete_row_period_cols r)" (is "?L \<longleftrightarrow> ?R")
    proof
      assume ?L
      then obtain j where j: "j < length (r # rs)" "i = k + j"
        "cols = complete_row_period_cols ((r # rs) ! j)"
        "\<forall>j' < j. length (complete_row_period_cols ((r # rs) ! j')) < 3" by blast
      have "j = 0"
      proof (rule ccontr)
        assume "j \<noteq> 0"
        then have "length (complete_row_period_cols ((r # rs) ! 0)) < 3" using j(4) by blast
        with True show False by simp
      qed
      with j show ?R by simp
    next
      assume ?R
      with True show ?L by (intro exI [of _ 0]) simp
    qed
    ultimately show ?thesis by auto
  next
    case False
    then have step: "complete_scan_period_rows k (r # rs) = complete_scan_period_rows (Suc k) rs"
      by (simp add: Let_def)
    have "(\<exists>j < length (r # rs). i = k + j
        \<and> cols = complete_row_period_cols ((r # rs) ! j)
        \<and> 3 \<le> length cols
        \<and> (\<forall>j' < j. length (complete_row_period_cols ((r # rs) ! j')) < 3))
       \<longleftrightarrow> (\<exists>j < length rs. i = Suc k + j
        \<and> cols = complete_row_period_cols (rs ! j)
        \<and> 3 \<le> length cols
        \<and> (\<forall>j' < j. length (complete_row_period_cols (rs ! j')) < 3))" (is "?L \<longleftrightarrow> ?R")
    proof
      assume ?L
      then obtain j where j: "j < length (r # rs)" "i = k + j"
        "cols = complete_row_period_cols ((r # rs) ! j)" "3 \<le> length cols"
        "\<forall>j' < j. length (complete_row_period_cols ((r # rs) ! j')) < 3" by blast
      from j(3,4) False obtain j0 where j0: "j = Suc j0" by (cases j) auto
      have "\<forall>j' < j0. length (complete_row_period_cols (rs ! j')) < 3"
      proof (intro allI impI)
        fix j' assume "j' < j0"
        then have "Suc j' < j" using j0 by simp
        then have "length (complete_row_period_cols ((r # rs) ! Suc j')) < 3" using j(5) by blast
        then show "length (complete_row_period_cols (rs ! j')) < 3" by simp
      qed
      with j j0 show ?R by (intro exI [of _ j0]) simp
    next
      assume ?R
      then obtain j where j: "j < length rs" "i = Suc k + j"
        "cols = complete_row_period_cols (rs ! j)" "3 \<le> length cols"
        "\<forall>j' < j. length (complete_row_period_cols (rs ! j')) < 3" by blast
      have "\<forall>j' < Suc j. length (complete_row_period_cols ((r # rs) ! j')) < 3"
      proof (intro allI impI)
        fix j' assume "j' < Suc j"
        then show "length (complete_row_period_cols ((r # rs) ! j')) < 3"
          using False j(5) by (cases j') auto
      qed
      with j show ?L by (intro exI [of _ "Suc j"]) simp
    qed
    with step Cons.IH [of "Suc k"] show ?thesis by simp
  qed
qed

lemma complete_find_period_columns_Some_iff:
  "complete_find_period_columns t = Some (i, cols) \<longleftrightarrow>
     i < min 5 (length t)
     \<and> cols = complete_row_period_cols (t ! i)
     \<and> 3 \<le> length cols
     \<and> (\<forall>j < i. length (complete_row_period_cols (t ! j)) < 3)"
  unfolding complete_find_period_columns_def complete_scan_period_rows_Some_iff
  by (auto simp: min_def)

lemma complete_scan_period_rows_None_iff:
  "complete_scan_period_rows k rows = None \<longleftrightarrow>
     (\<forall>r \<in> set rows. length (complete_row_period_cols r) < 3)"
proof (induction rows arbitrary: k)
  case Nil
  show ?case by simp
next
  case (Cons r rs)
  have "complete_row_period_cols [] = []"
    by (simp add: complete_row_period_cols_def)
  then show ?case using Cons.IH [of "Suc k"]
    by (cases "r = []") (auto simp: Let_def)
qed

lemma complete_find_period_columns_None_iff:
  "complete_find_period_columns t = None \<longleftrightarrow>
     (\<forall>i < min 5 (length t). length (complete_row_period_cols (t ! i)) < 3)"
proof -
  have "(\<forall>r \<in> set (take 5 t). length (complete_row_period_cols r) < 3) \<longleftrightarrow>
        (\<forall>i < length (take 5 t). length (complete_row_period_cols (take 5 t ! i)) < 3)"
    by (simp add: all_set_conv_all_nth)
  also have "\<dots> \<longleftrightarrow> (\<forall>i < min 5 (length t). length (complete_row_period_cols (t ! i)) < 3)"
    by (auto simp: min_def)
  finally show ?thesis
    by (simp add: complete_find_period_columns_def complete_scan_period_rows_None_iff)
qed

lemma complete_find_period_columns_take:
  "complete_find_period_columns (take 5 t) = complete_find_period_columns t"
  by (simp add: complete_find_period_columns_def)

lemma length_map_filter_enumerate:
  "length (List.map_filter (\<lambda>(i, c). if P c then map_option (\<lambda>p. (i, p)) (g c) else None)
             (enumerate n xs))
   = length (filter (\<lambda>c. P c \<and> g c \<noteq> None) xs)"
  by (induction xs arbitrary: n) (auto split: option.splits)

lemma complete_period_count:
  "length (complete_row_period_cols r) =
   length (filter (\<lambda>c. truthy c \<and> complete_period_of_cell (py_str c) \<noteq> None) r)"
proof -
  have "complete_row_period_cols r =
        List.map_filter (\<lambda>(i, c). if truthy c
             then map_option (\<lambda>p. (i, p)) (complete_period_of_cell (py_str c)) else None)
          (enumerate 0 r)"
    unfolding complete_row_period_cols_def
    by (rule arg_cong [where f = "\<lambda>f. List.map_filter f (enumerate 0 r)"]) auto
  then show ?thesis by (simp only: length_map_filter_enumerate)
qed

lemma complete_extract_pdf_append:
  "complete_extract_schedules_from_pdf (ps @ qs) fl =
   complete_extract_schedules_from_pdf ps fl @ complete_extract_schedules_from_pdf qs fl"
  by (simp add: complete_extract_schedules_from_pdf_def)

lemma complete_extract_page_no_columns:
  assumes "tables pg = t # ts" and "complete_resolve_day t (text_of_page pg) \<noteq> None"
    and "complete_find_period_columns t = None"
  shows "complete_extract_page fl pg = NoPeriodColumns"
  using assms by (auto simp: complete_extract_page_def split: option.splits)

lemmas locator_eval = complete_find_period_columns_def complete_row_period_cols_def
  complete_period_of_cell_def period_nums_def truthy_def py_str_def py_strip_def py_isspace_def
  py_lower_def py_lower_char_def Let_def

lemmas day_eval = complete_resolve_day_def complete_day_from_table_def complete_day_of_cell_def
  complete_day_from_text_def day_in_text_def DAY_MAPPING_def py_lower_def py_lower_char_def

text \<open>
  C6 (amended). In \<open>import_complete_schedules\<close> the table locator scans at most the first
  5 rows of the page's first table. A row is accepted as the period-header row iff it is the
  first scanned row in which at least 3 cells match a period token (matching cells are
  counted, not distinct periods); the column-to-period mapping of that row is recorded and
  the scan stops. If no row among the first 5 qualifies, the page is skipped with the
  period-columns warning and the run continues with the other pages.
\<close>

theorem complete_period_header_row:
  "(complete_find_period_columns t = Some (i, cols) \<longleftrightarrow>
      i < min 5 (length t)
      \<and> cols = complete_row_period_cols (t ! i)
      \<and> 3 \<le> length (filter (\<lambda>c. truthy c \<and> complete_period_of_cell (py_str c) \<noteq> None) (t ! i))
      \<and> (\<forall>j < i. length (filter (\<lambda>c. truthy c \<and> complete_period_of_cell (py_str c) \<noteq> None)
                             (t ! j)) < 3))
   \<and> complete_find_period_columns (take 5 t) = complete_find_period_columns t
   \<and> (tables pg = t # ts \<and> complete_resolve_day t (text_of_page pg) \<noteq> None
        \<and> (\<forall>j < min 5 (length t).
              length (filter (\<lambda>c. truthy c \<and> complete_period_of_cell (py_str c) \<noteq> None)
                             (t ! j)) < 3)
      \<longrightarrow> complete_extract_page fl pg = NoPeriodColumns
        \<and> complete_extract_schedules_from_pdf (before @ pg # after) fl =
            complete_extract_schedules_from_pdf before fl
            @ complete_extract_schedules_from_pdf after fl)"
proof (intro conjI impI)
  show "complete_find_period_columns t = Some (i, cols) \<longleftrightarrow>
      i < min 5 (length t)
      \<and> cols = complete_row_period_cols (t ! i)
      \<and> 3 \<le> length (filter (\<lambda>c. truthy c \<and> complete_period_of_cell (py_str c) \<noteq> None) (t ! i))
      \<and> (\<forall>j < i. length (filter (\<lambda>c. truthy c \<and> complete_period_of_cell (py_str c) \<noteq> None)
                             (t ! j)) < 3)"
    unfolding complete_period_count [symmetric]
    using complete_find_period_columns_Some_iff [of t i cols] by blast
  show "complete_find_period_columns (take 5 t) = complete_find_period_columns t"
    by (rule complete_find_period_columns_take)
next
  assume a: "tables pg = t # ts \<and> complete_resolve_day t (text_of_page pg) \<noteq> None
        \<and> (\<forall>j < min 5 (length t).
              length (filter (\<lambda>c. truthy c \<and> complete_period_of_cell (py_str c) \<noteq> None)
                             (t ! j)) < 3)"
  then have none: "complete_find_period_columns t = None"
    unfolding complete_find_period_columns_None_iff complete_period_count by blast
  with a show skip: "complete_extract_page fl pg = NoPeriodColumns"
    using complete_extract_page_no_columns by blast
  have "complete_extract_schedules_from_pdf [pg] fl = []"
    using skip by (simp add: complete_extract_schedules_from_pdf_def)
  then show "complete_extract_schedules_from_pdf (before @ pg # after) fl =
            complete_extract_schedules_from_pdf before fl
            @ complete_extract_schedules_from_pdf after fl"
    using complete_extract_pdf_append [of before "[pg] @ after" fl]
      complete_extract_pdf_append [of "[pg]" after fl] by simp
qed

theorem complete_period_header_row_witness:
  "complete_find_period_columns
       [[Some ''Floor 2''], [Some ''Class'', Some ''1'', Some ''2'', Some ''Period 3'']]
     = Some (1, [(1, ''1''), (2, ''2''), (3, ''3'')])
   \<and> (1::nat) < min 5 (length [[Some ''Floor 2''],
                               [Some ''Class'', Some ''1'', Some ''2'', Some ''Period 3'']])
   \<and> complete_extract_page 2
        \<lparr> tables = [[[Some ''Monday''], [Some ''Class'', Some ''1'', Some ''2'']]],
          text_of_page = None \<rparr> = NoPeriodColumns"
proof -
  let ?T = "[[Some ''Floor 2''], [Some ''Class'', Some ''1'', Some ''2'', Some ''Period 3'']]"
  let ?U = "[[Some ''Monday''], [Some ''Class'', Some ''1'', Some ''2'']]"
  let ?P = "\<lparr> tables = [?U], text_of_page = None \<rparr>"
  have ev: "complete_find_period_columns ?T = Some (1, [(1, ''1''), (2, ''2''), (3, ''3'')])"
    by (simp add: locator_eval)
  have day: "complete_resolve_day ?U (text_of_page ?P) \<noteq> None"
    by (simp add: day_eval)
  have r0: "length (filter (\<lambda>c. truthy c \<and> complete_period_of_cell (py_str c) \<noteq> None)
                (?U ! 0)) < 3"
    by simp
  have r1: "length (filter (\<lambda>c. truthy c \<and> complete_period_of_cell (py_str c) \<noteq> None)
                (?U ! 1)) < 3"
    by (simp add: locator_eval)
  have few: "\<forall>j < min 5 (length ?U).
      length (filter (\<lambda>c. truthy c \<and> complete_period_of_cell (py_str c) \<noteq> None)
                (?U ! j)) < 3"
  proof (intro allI impI)
    fix j :: nat assume "j < min 5 (length ?U)"
    then have "j = 0 \<or> j = 1" by auto
    then show "length (filter (\<lambda>c. truthy c \<and> complete_period_of_cell (py_str c) \<noteq> None)
                (?U ! j)) < 3"
      using r0 r1 by blast
  qed
  have tabs: "tables ?P = ?U # []" by simp
  have A: "(1::nat) < min 5 (length ?T)"
    using ev complete_period_header_row
      [where t = ?T and i = 1 and cols = "[(1, ''1''), (2, ''2''), (3, ''3'')]"]
    by blast
  have B: "complete_extract_page 2 ?P = NoPeriodColumns"
    using tabs day few complete_period_header_row
      [where t = ?U and pg = ?P and ts = "[]" and fl = 2]
    by blast
  show ?thesis using ev A B by blast
qed

text \<open>
  C6 as stated fails: a row whose three cells all name period 1 is accepted, with one
  distinct period.
\<close>

theorem complete_period_header_distinct_counterexample:
  "complete_find_period_columns [[Some ''1'', Some ''1'', Some ''1'']]
       = Some (0, [(0, ''1''), (1, ''1''), (2, ''1'')])
   \<and> card (set (map snd [(0::nat, ''1''), (1, ''1''), (2, ''1'')])) = 1"
  by (simp add: locator_eval)

section \<open>Day resolver of \<open>import_complete_schedules\<close>\<close>

lemma first_some_None_iff: "first_some f xs = None \<longleftrightarrow> (\<forall>x \<in> set xs. f x = None)"
  by (induction xs) (auto split: option.splits)

lemma day_in_text_None_iff:
  "day_in_text s = None \<longleftrightarrow> (\<forall>k \<in> fst ` set DAY_MAPPING. \<not> py_in k s)"
  by (auto simp: day_in_text_def find_None_iff)

lemma complete_day_from_table_None_iff:
  "complete_day_from_table t = None \<longleftrightarrow>
     (\<forall>r \<in> set (take 3 t). \<forall>c \<in> set r. \<forall>s. c = Some s \<longrightarrow>
         (\<forall>k \<in> fst ` set DAY_MAPPING. \<not> py_in k (py_lower s)))"
proof -
  have cell: "complete_day_of_cell c = None \<longleftrightarrow>
         (\<forall>s. c = Some s \<longrightarrow> (\<forall>k \<in> fst ` set DAY_MAPPING. \<not> py_in k (py_lower s)))" for c
  proof (cases c)
    case None
    then show ?thesis by (simp add: complete_day_of_cell_def)
  next
    case (Some s)
    have "\<forall>k \<in> fst ` set DAY_MAPPING. \<not> py_in k []"
      by (simp add: DAY_MAPPING_def)
    then show ?thesis using Some
      by (auto simp: complete_day_of_cell_def day_in_text_None_iff py_lower_def)
  qed
  show ?thesis
    unfolding complete_day_from_table_def first_some_None_iff cell by blast
qed

lemma day_in_text_tuesday:
  assumes "py_in ''tuesday'' s"
  shows "day_in_text s =
     (if py_in ''sunday'' s then Some (''sunday'', 6)
      else if py_in ''monday'' s then Some (''monday'', 0)
      else Some (''tuesday'', 1))"
  using assms by (simp add: day_in_text_def DAY_MAPPING_def)


text \<open>
  C7 (amended). In \<open>import_complete_schedules\<close>, for every page whose header cells (the
  first three rows of the table) contain no day name but whose page text contains
  \<open>tuesday\<close> in any letter case, the day resolver falls back to the page text and never
  answers not-found: it returns index 1 unless the text also contains \<open>sunday\<close> or
  \<open>monday\<close>, which come first in \<open>DAY_MAPPING\<close> and win with 6 and 0.
\<close>

theorem complete_day_fallback:
  assumes "\<forall>r \<in> set (take 3 t). \<forall>c \<in> set r. \<forall>s. c = Some s \<longrightarrow>
             (\<forall>k \<in> fst ` set DAY_MAPPING. \<not> py_in k (py_lower s))"
    and "py_in ''tuesday'' (py_lower txt)"
  shows "complete_resolve_day t (Some txt) =
           (if py_in ''sunday'' (py_lower txt) then Some (''sunday'', 6)
            else if py_in ''monday'' (py_lower txt) then Some (''monday'', 0)
            else Some (''tuesday'', 1))"
proof -
  from assms(1) have "complete_day_from_table t = None"
    by (simp only: complete_day_from_table_None_iff)
  moreover from assms(2) have "txt \<noteq> []" by (auto simp: py_lower_def)
  ultimately show ?thesis
    using day_in_text_tuesday [OF assms(2)]
    by (simp add: complete_resolve_day_def complete_day_from_text_def)
qed

theorem complete_day_fallback_witness:
  "py_in ''tuesday'' (py_lower ''Schedule for TUESDAY'')
   \<and> complete_resolve_day [[Some ''Class'', Some ''1'']] (Some ''Schedule for TUESDAY'')
       = Some (''tuesday'', 1)"
proof -
  have h1: "\<forall>r \<in> set (take 3 [[Some ''Class'', Some ''1'']]). \<forall>c \<in> set r. \<forall>s. c = Some s \<longrightarrow>
             (\<forall>k \<in> fst ` set DAY_MAPPING. \<not> py_in k (py_lower s))"
    by (simp add: DAY_MAPPING_def py_lower_def py_lower_char_def)
  have h2: "py_in ''tuesday'' (py_lower ''Schedule for TUESDAY'')"
    by (simp add: py_lower_def py_lower_char_def)
  have h3: "\<not> py_in ''sunday'' (py_lower ''Schedule for TUESDAY'')"
    "\<not> py_in ''monday'' (py_lower ''Schedule for TUESDAY'')"
    by (simp_all add: py_lower_def py_lower_char_def)
  show ?thesis using complete_day_fallback [OF h1 h2] h2 h3 by simp
qed

text \<open>
  C7 as stated fails: a page text with both \<open>Monday\<close> and \<open>Tuesday\<close> resolves to 0 in
  \<open>import_complete_schedules\<close>, and \<open>import_schedule_smart\<close>, which reads the day from one
  table cell only, skips a page whose text alone names Tuesday.
\<close>

theorem day_fallback_counterexample:
  "py_in ''tuesday'' (py_lower ''Monday Tuesday'')
   \<and> complete_day_from_table [[Some ''Class'', Some ''1'']] = None
   \<and> complete_resolve_day [[Some ''Class'', Some ''1'']] (Some ''Monday Tuesday'')
       = Some (''monday'', 0)
   \<and> smart_extract_page
        \<lparr> tables = [[[Some ''Floor 2''], [Some ''Class'', Some ''1'']]],
          text_of_page = Some ''Tuesday'' \<rparr> = Inr NoDay"
  by (simp add: smart_extract_page_def smart_day_of_table_def day_eval truthy_def py_str_def)


section \<open>Complete mode: ten entries for every class row\<close>

lemma class_name_of_row_Some_iff:
  "class_name_of_row r = Some cname \<longleftrightarrow>
     (\<exists>s rest. r = Some s # rest \<and> s \<noteq> [] \<and> cname = py_strip s \<and> 2 \<le> length cname)"
  by (cases r; cases "hd r")
     (auto simp: class_name_of_row_def truthy_def py_str_def Let_def)

lemma time_period_known:
  assumes "p \<in> set period_nums"
  shows "\<exists>s e. map_of TIME_PERIODS p = Some (s, e) \<and> s \<noteq> [] \<and> e \<noteq> []"
  using assms by (auto simp: period_nums_def TIME_PERIODS_def)

lemma map_filter_all_Some:
  assumes "\<forall>x \<in> set xs. f x \<noteq> None"
  shows "List.map_filter f xs = map (\<lambda>x. the (f x)) xs"
  using assms by (induction xs) auto

lemma complete_period_entry_Some:
  assumes "p \<in> set period_nums"
  shows "\<exists>e. complete_period_entry fl dname dnum cols r cname p = Some e
     \<and> period e = p \<and> class_name e = Some cname \<and> day e = Some dnum
     \<and> (is_free e \<and> subject e = Some ''Free Period'' \<and> teacher e = Some ''No Teacher''
        \<or> \<not> is_free e \<and> truthy (subject e) \<and> truthy (teacher e)
          \<and> (\<exists>i < length r. (i, p) \<in> set cols \<and> truthy (r ! i)
                \<and> complete_extract_subject_and_teacher (py_str (r ! i))
                    = (subject e, teacher e)))"
proof -
  from time_period_known [OF assms] obtain s e
    where tp: "map_of TIME_PERIODS p = Some (s, e)" "s \<noteq> []" "e \<noteq> []" by blast
  show ?thesis
  proof (cases "find (\<lambda>(c_idx, p_num). p_num = p) cols")
    case None
    then show ?thesis using tp
      by (simp add: complete_period_entry_def truthy_def)
  next
    case (Some ip)
    obtain i q where ip: "ip = (i, q)" by (cases ip)
    from Some ip have mem: "(i, p) \<in> set cols"
      by (auto simp: find_Some_iff in_set_conv_nth) 
    show ?thesis
    proof (cases "i < length r \<and> truthy (r ! i)")
      case False
      then show ?thesis using tp Some ip
        by (auto simp: complete_period_entry_def truthy_def)
    next
      case True
      obtain a b where ab: "complete_extract_subject_and_teacher (py_str (r ! i)) = (a, b)"
        by (cases "complete_extract_subject_and_teacher (py_str (r ! i))")
      show ?thesis
      proof (cases "truthy a \<and> truthy b")
        case False
        then show ?thesis using tp Some ip True ab
          by (auto simp: complete_period_entry_def)
      next
        case tt: True
        then show ?thesis using tp Some ip True ab mem
          by (auto simp: complete_period_entry_def)
      qed
    qed
  qed
qed


lemma complete_row_entries_ten:
  assumes "class_name_of_row r = Some cname"
  shows "length (complete_row_entries fl dname dnum cols r) = 10
     \<and> map period (complete_row_entries fl dname dnum cols r) = period_nums
     \<and> (\<forall>e \<in> set (complete_row_entries fl dname dnum cols r).
          class_name e = Some cname \<and> day e = Some dnum
          \<and> (is_free e \<and> subject e = Some ''Free Period'' \<and> teacher e = Some ''No Teacher''
             \<or> \<not> is_free e \<and> truthy (subject e) \<and> truthy (teacher e)
               \<and> (\<exists>i < length r. (i, period e) \<in> set cols \<and> truthy (r ! i)
                     \<and> complete_extract_subject_and_teacher (py_str (r ! i))
                         = (subject e, teacher e))))"
proof -
  let ?f = "complete_period_entry fl dname dnum cols r cname"
  have some: "\<forall>p \<in> set period_nums. ?f p \<noteq> None"
    using complete_period_entry_Some [of _ fl dname dnum cols r cname] by fastforce
  have es: "complete_row_entries fl dname dnum cols r = map (\<lambda>p. the (?f p)) period_nums"
    using assms map_filter_all_Some [OF some] by (simp add: complete_row_entries_def)
  have len: "length (complete_row_entries fl dname dnum cols r) = 10"
    unfolding es by (simp add: period_nums_def)
  have per: "map period (complete_row_entries fl dname dnum cols r) = period_nums"
  proof -
    have "\<forall>p \<in> set period_nums. period (the (?f p)) = p"
      using complete_period_entry_Some [of _ fl dname dnum cols r cname] by fastforce
    then have "map (\<lambda>p. period (the (?f p))) period_nums = period_nums"
      by (simp add: map_idI)
    then show ?thesis unfolding es by (simp add: comp_def)
  qed
  have each: "\<forall>e \<in> set (complete_row_entries fl dname dnum cols r).
          class_name e = Some cname \<and> day e = Some dnum
          \<and> (is_free e \<and> subject e = Some ''Free Period'' \<and> teacher e = Some ''No Teacher''
             \<or> \<not> is_free e \<and> truthy (subject e) \<and> truthy (teacher e)
               \<and> (\<exists>i < length r. (i, period e) \<in> set cols \<and> truthy (r ! i)
                     \<and> complete_extract_subject_and_teacher (py_str (r ! i))
                         = (subject e, teacher e)))"
  proof
    fix e assume "e \<in> set (complete_row_entries fl dname dnum cols r)"
    then obtain p where p: "p \<in> set period_nums" and e: "e = the (?f p)"
      unfolding es by auto
    from complete_period_entry_Some [OF p, of fl dname dnum cols r cname] e
    show "class_name e = Some cname \<and> day e = Some dnum
          \<and> (is_free e \<and> subject e = Some ''Free Period'' \<and> teacher e = Some ''No Teacher''
             \<or> \<not> is_free e \<and> truthy (subject e) \<and> truthy (teacher e)
               \<and> (\<exists>i < length r. (i, period e) \<in> set cols \<and> truthy (r ! i)
                     \<and> complete_extract_subject_and_teacher (py_str (r ! i))
                         = (subject e, teacher e)))"
      by auto
  qed
  from len per each show ?thesis by blast
qed

lemma complete_extract_page_resolved:
  assumes "tables pg = t # ts"
    and "complete_resolve_day t (text_of_page pg) = Some (dname, dnum)"
    and "complete_find_period_columns t = Some (idx, cols)"
  shows "complete_extract_page fl pg =
           Extracted (concat (map (complete_row_entries fl dname dnum cols) (drop (idx + 1) t)))"
proof -
  from assms(3) have "3 \<le> length cols"
    using complete_find_period_columns_Some_iff [of t idx cols] by blast
  then have "cols \<noteq> []" by auto
  then show ?thesis using assms by (simp add: complete_extract_page_def)
qed

text \<open>
  C2. In complete mode, on a page whose day and period-header row were resolved, the page's
  entries are those of its rows below the header row, and every class row that is processed
  (first cell non-empty and at least 2 characters after trimming, see
  \<open>class_name_of_row_Some_iff\<close>) emits exactly 10 entries, one for each period 1 to 10 in
  order; each is either academic (the classifier's pair for a cell of that row) or a
  placeholder with \<open>is_free\<close>, subject \<open>Free Period\<close> and teacher \<open>No Teacher\<close>. A row that
  is not processed emits nothing.
\<close>

theorem complete_mode_ten_entries_per_class_row:
  assumes "tables pg = t # ts"
    and "complete_resolve_day t (text_of_page pg) = Some (dname, dnum)"
    and "complete_find_period_columns t = Some (idx, cols)"
  shows "complete_extract_page fl pg =
           Extracted (concat (map (complete_row_entries fl dname dnum cols) (drop (idx + 1) t)))
     \<and> (\<forall>r \<in> set (drop (idx + 1) t).
          (class_name_of_row r = None \<longrightarrow> complete_row_entries fl dname dnum cols r = [])
        \<and> (\<forall>cname. class_name_of_row r = Some cname \<longrightarrow>
              length (complete_row_entries fl dname dnum cols r) = 10
            \<and> map period (complete_row_entries fl dname dnum cols r) = period_nums
            \<and> (\<forall>e \<in> set (complete_row_entries fl dname dnum cols r).
                 class_name e = Some cname \<and> day e = Some dnum
                 \<and> (is_free e \<and> subject e = Some ''Free Period''
                      \<and> teacher e = Some ''No Teacher''
                    \<or> \<not> is_free e \<and> truthy (subject e) \<and> truthy (teacher e)
                      \<and> (\<exists>i < length r. (i, period e) \<in> set cols \<and> truthy (r ! i)
                            \<and> complete_extract_subject_and_teacher (py_str (r ! i))
                                = (subject e, teacher e))))))"
proof (intro conjI ballI allI impI)
  show "complete_extract_page fl pg =
           Extracted (concat (map (complete_row_entries fl dname dnum cols) (drop (idx + 1) t)))"
    using assms by (rule complete_extract_page_resolved)
next
  fix r assume "class_name_of_row r = None"
  then show "complete_row_entries fl dname dnum cols r = []"
    by (simp add: complete_row_entries_def)
next
  fix r cname assume c: "class_name_of_row r = Some cname"
  from complete_row_entries_ten [OF c, of fl dname dnum cols]
  show "length (complete_row_entries fl dname dnum cols r) = 10" by blast
  from complete_row_entries_ten [OF c, of fl dname dnum cols]
  show "map period (complete_row_entries fl dname dnum cols r) = period_nums" by blast
  fix e assume e: "e \<in> set (complete_row_entries fl dname dnum cols r)"
  from complete_row_entries_ten [OF c, of fl dname dnum cols] e
  have *: "class_name e = Some cname \<and> day e = Some dnum
                 \<and> (is_free e \<and> subject e = Some ''Free Period''
                      \<and> teacher e = Some ''No Teacher''
                    \<or> \<not> is_free e \<and> truthy (subject e) \<and> truthy (teacher e)
                      \<and> (\<exists>i < length r. (i, period e) \<in> set cols \<and> truthy (r ! i)
                            \<and> complete_extract_subject_and_teacher (py_str (r ! i))
                                = (subject e, teacher e)))" by blast
  from * show "class_name e = Some cname" by blast
  from * show "day e = Some dnum" by blast
  from * show "is_free e \<and> subject e = Some ''Free Period''
                      \<and> teacher e = Some ''No Teacher''
                    \<or> \<not> is_free e \<and> truthy (subject e) \<and> truthy (teacher e)
                      \<and> (\<exists>i < length r. (i, period e) \<in> set cols \<and> truthy (r ! i)
                            \<and> complete_extract_subject_and_teacher (py_str (r ! i))
                                = (subject e, teacher e))" by blast
qed

theorem complete_mode_ten_entries_per_class_row_witness:
  "class_name_of_row [Some ''5A'', Some ''Math\<newline>Mr. Ali'', Some ''Break'', None] = Some ''5A''
   \<and> length (complete_row_entries 2 ''monday'' 0 [(1, ''1''), (2, ''2''), (3, ''3'')]
                [Some ''5A'', Some ''Math\<newline>Mr. Ali'', Some ''Break'', None]) = 10
   \<and> map period (complete_row_entries 2 ''monday'' 0 [(1, ''1''), (2, ''2''), (3, ''3'')]
                [Some ''5A'', Some ''Math\<newline>Mr. Ali'', Some ''Break'', None]) = period_nums"
proof -
  let ?r = "[Some ''5A'', Some ''Math\<newline>Mr. Ali'', Some ''Break'', None]"
  let ?T = "[[Some ''Monday''], [Some ''Class'', Some ''1'', Some ''2'', Some ''3''], ?r]"
  let ?P = "\<lparr> tables = [?T], text_of_page = None \<rparr>"
  have tabs: "tables ?P = ?T # []" by simp
  have day: "complete_resolve_day ?T (text_of_page ?P) = Some (''monday'', 0)"
    by (simp add: day_eval)
  have hdr: "complete_find_period_columns ?T = Some (1, [(1, ''1''), (2, ''2''), (3, ''3'')])"
    by (simp add: locator_eval)
  have row: "?r \<in> set (drop (1 + 1) ?T)" by simp
  have cn: "class_name_of_row ?r = Some ''5A''"
    by (simp add: class_name_of_row_def truthy_def py_str_def py_strip_def py_isspace_def)
  show ?thesis
    using complete_mode_ten_entries_per_class_row [OF tabs day hdr, of 2] row cn by blast
qed


section \<open>Facts about the import engines\<close>

lemma db_extends_refl [simp]: "db_extends d d"
  by (simp add: db_extends_def)

lemma db_extends_trans: "db_extends a b \<Longrightarrow> db_extends b c \<Longrightarrow> db_extends a c"
  by (auto simp: db_extends_def)

lemma db_extends_bump [simp]: "db_extends d (bump d)"
  by (simp add: db_extends_def bump_def)

lemma get_or_create_class_extends:
  "get_or_create_class fails name fid d = (r, d') \<Longrightarrow> db_extends d d'"
  by (auto simp: get_or_create_class_def add_class_def db_extends_def bump_def Let_def
           split: option.splits if_splits)

lemma get_or_create_teacher_extends:
  "get_or_create_teacher fails name d = (r, d') \<Longrightarrow> db_extends d d'"
  by (auto simp: get_or_create_teacher_def add_teacher_def db_extends_def bump_def Let_def
           split: option.splits if_splits)

lemma get_or_create_subject_extends:
  "get_or_create_subject fails name d = (r, d') \<Longrightarrow> db_extends d d'"
  by (auto simp: get_or_create_subject_def add_subject_def db_extends_def bump_def Let_def
           split: option.splits if_splits)

lemma add_schedule_extends:
  "add_schedule fails c t s dw st en d = (r, d') \<Longrightarrow> db_extends d d'"
  by (auto simp: add_schedule_def db_extends_def bump_def Let_def
           split: option.splits if_splits)

lemma add_schedule_failed:
  "add_schedule fails c t s dw st en d = (Inl err, d') \<Longrightarrow> schedules d' = schedules d"
  by (auto simp: add_schedule_def bump_def Let_def split: option.splits if_splits)

lemma get_or_create_class_schedules:
  "get_or_create_class fails name fid d = (r, d') \<Longrightarrow> schedules d' = schedules d"
  by (auto simp: get_or_create_class_def add_class_def bump_def Let_def
           split: option.splits if_splits)

lemma get_or_create_teacher_schedules:
  "get_or_create_teacher fails name d = (r, d') \<Longrightarrow> schedules d' = schedules d"
  by (auto simp: get_or_create_teacher_def add_teacher_def bump_def Let_def
           split: option.splits if_splits)

lemma get_or_create_subject_schedules:
  "get_or_create_subject fails name d = (r, d') \<Longrightarrow> schedules d' = schedules d"
  by (auto simp: get_or_create_subject_def add_subject_def bump_def Let_def
           split: option.splits if_splits)

text \<open>What one pass of each \<open>try\<close> body can do to the schedules and the counters.\<close>

lemma smart_try_entry_cases:
  assumes "smart_try_entry fails fid e d st = (r, d', st')"
  shows "db_extends d d'
     \<and> sm_total st' = sm_total st \<and> sm_errors st' = sm_errors st
     \<and> (case r of
          Inl err \<Rightarrow> schedules d' = schedules d
                     \<and> sm_imported st' = sm_imported st \<and> sm_skipped st' = sm_skipped st
        | Inr u \<Rightarrow> (schedules d' = schedules d \<and> sm_imported st' = sm_imported st
                      \<and> sm_skipped st' = sm_skipped st + 1)
                 \<or> (length (schedules d') = length (schedules d) + 1
                      \<and> sm_imported st' = sm_imported st + 1
                      \<and> sm_skipped st' = sm_skipped st))"
proof -
  obtain r1 d1 where g1: "get_or_create_class fails (class_name e) fid d = (r1, d1)"
    by (cases "get_or_create_class fails (class_name e) fid d")
  obtain r2 d2 where g2: "get_or_create_teacher fails (teacher e) d1 = (r2, d2)"
    by (cases "get_or_create_teacher fails (teacher e) d1")
  obtain r3 d3 where g3: "get_or_create_subject fails (subject e) d2 = (r3, d3)"
    by (cases "get_or_create_subject fails (subject e) d2")
  note ext = get_or_create_class_extends [OF g1] get_or_create_teacher_extends [OF g2]
    get_or_create_subject_extends [OF g3]
  note sch = get_or_create_class_schedules [OF g1] get_or_create_teacher_schedules [OF g2]
    get_or_create_subject_schedules [OF g3]
  show ?thesis
  proof (cases r1)
    case (Inl err)
    with assms g1 ext sch show ?thesis by (auto simp: smart_try_entry_def)
  next
    case c1: (Inr a1)
    show ?thesis
    proof (cases r2)
      case (Inl err)
      with assms g1 g2 c1 ext sch show ?thesis
        by (auto simp: smart_try_entry_def Let_def dest: db_extends_trans split: prod.splits)
    next
      case c2: (Inr a2)
      show ?thesis
      proof (cases r3)
        case (Inl err)
        with assms g1 g2 g3 c1 c2 ext sch show ?thesis
          by (auto simp: smart_try_entry_def Let_def dest: db_extends_trans split: prod.splits)
      next
        case c3: (Inr a3)
        have e13: "db_extends d d3" using ext db_extends_trans by blast
        have s13: "schedules d3 = schedules d" using sch by simp
        obtain cid cn tid tn sid sn where a: "a1 = (cid, cn)" "a2 = (tid, tn)" "a3 = (sid, sn)"
          by (cases a1, cases a2, cases a3) auto
        show ?thesis
        proof (cases "find_schedule cid (day e) (start_time e) (end_time e) d3")
          case (Some x)
          with assms g1 g2 g3 c1 c2 c3 a e13 s13 show ?thesis
            by (auto simp: smart_try_entry_def Let_def)
        next
          case None
          obtain r4 d4 where g4: "add_schedule fails cid tid sid (day e) (start_time e) (end_time e) d3 = (r4, d4)"
            by (cases "add_schedule fails cid tid sid (day e) (start_time e) (end_time e) d3")
          have e4: "db_extends d d4" using e13 add_schedule_extends [OF g4] db_extends_trans by blast
          show ?thesis
          proof (cases r4)
            case (Inl err)
            with assms g1 g2 g3 g4 c1 c2 c3 a None e4 s13 add_schedule_failed [of fails cid tid sid "day e" "start_time e" "end_time e" d3 err d4]
            show ?thesis by (auto simp: smart_try_entry_def Let_def)
          next
            case (Inr i)
            with g4 have "length (schedules d4) = length (schedules d3) + 1"
              by (auto simp: add_schedule_def bump_def Let_def split: option.splits if_splits)
            with Inr assms g1 g2 g3 g4 c1 c2 c3 a None e4 s13
            show ?thesis by (auto simp: smart_try_entry_def Let_def)
          qed
        qed
      qed
    qed
  qed
qed


lemma pdf_try_entry_cases:
  assumes "pdf_try_entry fails fid e d st = (r, d', st')"
  shows "db_extends d d'
     \<and> pd_processed st' = pd_processed st \<and> pd_errors st' = pd_errors st
     \<and> (case r of
          Inl err \<Rightarrow> schedules d' = schedules d
                     \<and> pd_imported st' = pd_imported st \<and> pd_skipped st' = pd_skipped st
        | Inr u \<Rightarrow> (schedules d' = schedules d \<and> pd_imported st' = pd_imported st
                      \<and> pd_skipped st' = pd_skipped st + 1)
                 \<or> (length (schedules d') = length (schedules d) + 1
                      \<and> pd_imported st' = pd_imported st + 1
                      \<and> pd_skipped st' = pd_skipped st))"
proof -
  obtain r1 d1 where g1: "get_or_create_class fails (class_name e) fid d = (r1, d1)"
    by (cases "get_or_create_class fails (class_name e) fid d")
  obtain r2 d2 where g2: "get_or_create_teacher fails (teacher e) d1 = (r2, d2)"
    by (cases "get_or_create_teacher fails (teacher e) d1")
  obtain r3 d3 where g3: "get_or_create_subject fails (subject e) d2 = (r3, d3)"
    by (cases "get_or_create_subject fails (subject e) d2")
  note ext = get_or_create_class_extends [OF g1] get_or_create_teacher_extends [OF g2]
    get_or_create_subject_extends [OF g3]
  note sch = get_or_create_class_schedules [OF g1] get_or_create_teacher_schedules [OF g2]
    get_or_create_subject_schedules [OF g3]
  have e12: "db_extends d d2" using ext db_extends_trans by blast
  have e13: "db_extends d d3" using ext db_extends_trans by blast
  have s13: "schedules d3 = schedules d" using sch by simp
  have add: "db_extends d d4 \<and> (case r4 of Inl err \<Rightarrow> schedules d4 = schedules d
               | Inr i \<Rightarrow> length (schedules d4) = length (schedules d) + 1)"
    if "add_schedule fails c t s dw st0 en d3 = (r4, d4)"
    for c t s dw st0 en r4 d4
    using that e13 s13 add_schedule_extends [OF that] db_extends_trans [of d d3 d4]
    by (auto simp: add_schedule_def bump_def Let_def split: option.splits if_splits sum.splits)
  show ?thesis
    using assms g1 g2 g3 ext sch e12 e13 s13
    by (auto simp: pdf_try_entry_def Let_def split: if_splits sum.splits option.splits prod.splits
             dest!: add)
qed


lemma complete_try_entry_cases:
  assumes "complete_try_entry fails fid fsid ntid e d st = (r, d', st')"
  shows "db_extends d d' \<and> co_total st' = co_total st
     \<and> (case r of
          Inl err \<Rightarrow> schedules d' = schedules d
                     \<and> co_imported st' = co_imported st \<and> co_skipped st' = co_skipped st
                     \<and> co_free_periods st' = co_free_periods st
                     \<and> co_academic st' = co_academic st
        | Inr u \<Rightarrow> (schedules d' = schedules d \<and> co_imported st' = co_imported st
                      \<and> co_skipped st' = co_skipped st + 1)
                 \<or> (length (schedules d') = length (schedules d) + 1
                      \<and> co_imported st' = co_imported st + 1
                      \<and> co_skipped st' = co_skipped st))"
proof -
  obtain r1 d1 where g1: "get_or_create_class fails (class_name e) fid d = (r1, d1)"
    by (cases "get_or_create_class fails (class_name e) fid d")
  have x1: "db_extends d d1" "schedules d1 = schedules d"
    using get_or_create_class_extends [OF g1] get_or_create_class_schedules [OF g1] by auto
  show ?thesis
  proof (cases "is_free e")
    case True
    have add: "db_extends d d4 \<and> (case r4 of Inl err \<Rightarrow> schedules d4 = schedules d
                 | Inr i \<Rightarrow> length (schedules d4) = length (schedules d) + 1)"
      if "add_schedule fails c t s dw st0 en d1 = (r4, d4)"
      for c t s dw st0 en r4 d4
      using that x1 add_schedule_extends [OF that] db_extends_trans [of d d1 d4]
      by (auto simp: add_schedule_def bump_def Let_def split: option.splits if_splits sum.splits)
    show ?thesis
      using assms g1 x1 True
      by (auto simp: complete_try_entry_def Let_def
               split: if_splits sum.splits option.splits prod.splits dest!: add)
  next
    case False
    obtain r2 d2 where g2: "get_or_create_teacher fails (teacher e) d1 = (r2, d2)"
      by (cases "get_or_create_teacher fails (teacher e) d1")
    obtain r3 d3 where g3: "get_or_create_subject fails (subject e) d2 = (r3, d3)"
      by (cases "get_or_create_subject fails (subject e) d2")
    note ext = get_or_create_teacher_extends [OF g2] get_or_create_subject_extends [OF g3]
    note sch = get_or_create_teacher_schedules [OF g2] get_or_create_subject_schedules [OF g3]
    have e12: "db_extends d d2" using x1 ext db_extends_trans by blast
    have e13: "db_extends d d3" using e12 ext db_extends_trans by blast
    have s13: "schedules d3 = schedules d" "schedules d2 = schedules d" using x1 sch by simp_all
    have add: "db_extends d d4 \<and> (case r4 of Inl err \<Rightarrow> schedules d4 = schedules d
                 | Inr i \<Rightarrow> length (schedules d4) = length (schedules d) + 1)"
      if "add_schedule fails c t s dw st0 en d3 = (r4, d4)"
      for c t s dw st0 en r4 d4
      using that e13 s13 add_schedule_extends [OF that] db_extends_trans [of d d3 d4]
      by (auto simp: add_schedule_def bump_def Let_def split: option.splits if_splits sum.splits)
    show ?thesis
      using assms g1 g2 g3 x1 e12 e13 s13 False
      by (auto simp: complete_try_entry_def Let_def
               split: if_splits sum.splits option.splits prod.splits dest!: add)
  qed
qed

lemma smart_step_count:
  assumes "smart_step fails fid (d, st) e = (d', st')"
  shows "db_extends d d' \<and> sm_total st' = sm_total st
     \<and> sm_imported st' + sm_skipped st' + sm_errors st'
       = sm_imported st + sm_skipped st + sm_errors st + 1"
proof -
  obtain r d1 st1 where t: "smart_try_entry fails fid e d st = (r, d1, st1)"
    by (cases "smart_try_entry fails fid e d st")
  from smart_try_entry_cases [OF t] assms t show ?thesis
    by (auto simp: smart_step_def split: sum.splits)
qed

lemma smart_fold_count:
  "foldl (smart_step fails fid) (d, st) es = (d', st') \<Longrightarrow>
     db_extends d d' \<and> sm_total st' = sm_total st
     \<and> sm_imported st' + sm_skipped st' + sm_errors st'
       = sm_imported st + sm_skipped st + sm_errors st + length es"
proof (induction es arbitrary: d st)
  case Nil
  then show ?case by simp
next
  case (Cons e es)
  obtain d1 st1 where s: "smart_step fails fid (d, st) e = (d1, st1)"
    by (cases "smart_step fails fid (d, st) e")
  from Cons.prems s have "foldl (smart_step fails fid) (d1, st1) es = (d', st')" by simp
  from Cons.IH [OF this] smart_step_count [OF s] show ?case
    by (auto dest: db_extends_trans)
qed

lemma pdf_step_count:
  assumes "pdf_step fails fid (d, st) e = (d', st')"
  shows "db_extends d d' \<and> pd_processed st' = pd_processed st + 1
     \<and> pd_imported st' + pd_skipped st' + pd_errors st'
       = pd_imported st + pd_skipped st + pd_errors st + 1"
proof -
  let ?st = "st\<lparr> pd_processed := pd_processed st + 1 \<rparr>"
  obtain r d1 st1 where t: "pdf_try_entry fails fid e d ?st = (r, d1, st1)"
    by (cases "pdf_try_entry fails fid e d ?st")
  from pdf_try_entry_cases [OF t] assms t show ?thesis
    by (auto simp: pdf_step_def split: sum.splits)
qed

lemma pdf_fold_count:
  "foldl (pdf_step fails fid) (d, st) es = (d', st') \<Longrightarrow>
     db_extends d d' \<and> pd_processed st' = pd_processed st + length es
     \<and> pd_imported st' + pd_skipped st' + pd_errors st'
       = pd_imported st + pd_skipped st + pd_errors st + length es"
proof (induction es arbitrary: d st)
  case Nil
  then show ?case by simp
next
  case (Cons e es)
  obtain d1 st1 where s: "pdf_step fails fid (d, st) e = (d1, st1)"
    by (cases "pdf_step fails fid (d, st) e")
  from Cons.prems s have "foldl (pdf_step fails fid) (d1, st1) es = (d', st')" by simp
  from Cons.IH [OF this] pdf_step_count [OF s] show ?case
    by (auto dest: db_extends_trans)
qed

lemma complete_step_count:
  assumes "complete_step fails fid fsid ntid (d, st) e = (d', st')"
  shows "db_extends d d' \<and> co_total st' = co_total st
     \<and> co_imported st' + co_skipped st' \<le> co_imported st + co_skipped st + 1
     \<and> co_imported st + co_skipped st \<le> co_imported st' + co_skipped st'"
proof -
  obtain r d1 st1 where t: "complete_try_entry fails fid fsid ntid e d st = (r, d1, st1)"
    by (cases "complete_try_entry fails fid fsid ntid e d st")
  from complete_try_entry_cases [OF t] assms t show ?thesis
    by (auto simp: complete_step_def split: sum.splits)
qed

lemma complete_fold_count:
  "foldl (complete_step fails fid fsid ntid) (d, st) es = (d', st') \<Longrightarrow>
     db_extends d d' \<and> co_total st' = co_total st
     \<and> co_imported st' + co_skipped st' \<le> co_imported st + co_skipped st + length es"
proof (induction es arbitrary: d st)
  case Nil
  then show ?case by simp
next
  case (Cons e es)
  obtain d1 st1 where s: "complete_step fails fid fsid ntid (d, st) e = (d1, st1)"
    by (cases "complete_step fails fid fsid ntid (d, st) e")
  from Cons.prems s have "foldl (complete_step fails fid fsid ntid) (d1, st1) es = (d', st')"
    by simp
  from Cons.IH [OF this] complete_step_count [OF s] show ?case
    by (auto dest: db_extends_trans)
qed


lemma truthy_Some: "truthy x \<Longrightarrow> \<exists>n. x = Some n"
  by (cases x) (auto simp: truthy_def)

lemma find_prefix:
  assumes "find P xs = Some x" and "prefix xs ys"
  shows "find P ys = Some x"
proof -
  from assms(2) obtain zs where "ys = xs @ zs" by (auto simp: prefix_def)
  moreover have "find P (xs @ zs) = Some x" using assms(1) by (induction xs) auto
  ultimately show ?thesis by simp
qed

lemma find_class_extends:
  "find_class name fid d = Some c \<Longrightarrow> db_extends d d' \<Longrightarrow> find_class name fid d' = Some c"
  by (auto simp: find_class_def db_extends_def split: option.splits intro: find_prefix)

lemma find_schedule_extends:
  "find_schedule cid dw st en d = Some r \<Longrightarrow> db_extends d d'
     \<Longrightarrow> find_schedule cid dw st en d' = Some r"
  by (auto simp: find_schedule_def db_extends_def split: option.splits intro: find_prefix)

lemma key_taken_extends:
  "key_taken fid d e \<Longrightarrow> db_extends d d' \<Longrightarrow> key_taken fid d' e"
proof -
  assume k: "key_taken fid d e" and x: "db_extends d d'"
  from k obtain c r where c: "find_class (class_name e) fid d = Some c"
    and r: "find_schedule (cl_id c) (day e) (start_time e) (end_time e) d = Some r"
    by (auto simp: key_taken_def split: option.splits)
  from find_class_extends [OF c x] find_schedule_extends [OF r x]
  show "key_taken fid d' e" by (simp add: key_taken_def)
qed

lemma find_schedule_same:
  "schedules d' = schedules d \<Longrightarrow> find_schedule cid dw st en d' = find_schedule cid dw st en d"
  by (auto simp: find_schedule_def split: option.splits)

lemma find_snoc_None:
  "find P xs = None \<Longrightarrow> P x \<Longrightarrow> find P (xs @ [x]) = Some x"
  by (induction xs) (auto split: if_splits)

text \<open>Get-or-create with a name, on a store that rejects no commit.\<close>

lemma get_or_create_class_no_failure:
  assumes "name \<noteq> None"
  obtains i b d' c where "get_or_create_class no_failure name fid d = (Inr (i, b), d')"
    and "find_class name fid d' = Some c" and "cl_id c = i"
proof (cases "find_class name fid d")
  case (Some c)
  then have "get_or_create_class no_failure name fid d = (Inr (cl_id c, False), d)"
    by (simp add: get_or_create_class_def)
  with Some that show ?thesis by blast
next
  case None
  from assms obtain n where n: "name = Some n" by auto
  let ?i = "next_id (map cl_id (classes d))"
  let ?c = "\<lparr> cl_id = ?i, cl_name = n, cl_floor_id = fid \<rparr>"
  let ?d = "bump (d\<lparr> classes := classes d @ [?c] \<rparr>)"
  have "get_or_create_class no_failure name fid d = (Inr (?i, True), ?d)"
    using None n by (simp add: get_or_create_class_def add_class_def no_failure_def Let_def)
  moreover have "find_class name fid ?d = Some ?c"
    using None n by (simp add: find_class_def bump_def find_snoc_None)
  ultimately show ?thesis using that by simp
qed

lemma get_or_create_teacher_no_failure:
  assumes "name \<noteq> None"
  obtains i b d' where "get_or_create_teacher no_failure name d = (Inr (i, b), d')"
proof (cases "find_teacher name d")
  case (Some t)
  then have "get_or_create_teacher no_failure name d = (Inr (te_id t, False), d)"
    by (simp add: get_or_create_teacher_def)
  with that show ?thesis by blast
next
  case None
  from assms obtain n where n: "name = Some n" by auto
  have "\<exists>i d'. get_or_create_teacher no_failure name d = (Inr (i, True), d')"
    using None n by (simp add: get_or_create_teacher_def add_teacher_def no_failure_def Let_def)
  with that show ?thesis by blast
qed

lemma get_or_create_subject_no_failure:
  assumes "name \<noteq> None"
  obtains i b d' where "get_or_create_subject no_failure name d = (Inr (i, b), d')"
proof (cases "find_subject name d")
  case (Some t)
  then have "get_or_create_subject no_failure name d = (Inr (su_id t, False), d)"
    by (simp add: get_or_create_subject_def)
  with that show ?thesis by blast
next
  case None
  from assms obtain n where n: "name = Some n" by auto
  from None n have "n \<notin> set (map su_name (subjects d))"
    by (auto simp: find_subject_def find_None_iff)
  then have "\<exists>i d'. get_or_create_subject no_failure name d = (Inr (i, True), d')"
    using None n by (simp add: get_or_create_subject_def add_subject_def no_failure_def Let_def)
  with that show ?thesis by blast
qed

lemma add_schedule_no_failure:
  assumes "dw \<noteq> None" "st \<noteq> None" "en \<noteq> None"
    and "find_schedule cid dw st en d = None"
  obtains i d' where "add_schedule no_failure cid tid sid dw st en d = (Inr i, d')"
    and "find_schedule cid dw st en d' \<noteq> None" and "classes d' = classes d"
proof -
  from assms obtain w s e where v: "dw = Some w" "st = Some s" "en = Some e" by auto
  let ?i = "next_id (map sc_id (schedules d))"
  let ?r = "\<lparr> sc_id = ?i, sc_class_id = cid, sc_teacher_id = tid, sc_subject_id = sid,
              sc_day_of_week = w, sc_start_time = s, sc_end_time = e \<rparr>"
  let ?d = "bump (d\<lparr> schedules := schedules d @ [?r] \<rparr>)"
  have "add_schedule no_failure cid tid sid dw st en d = (Inr ?i, ?d)"
    using v by (simp add: add_schedule_def no_failure_def Let_def)
  moreover have "find_schedule cid dw st en ?d = Some ?r"
    using v assms(4) by (simp add: find_schedule_def bump_def find_snoc_None)
  moreover have "classes ?d = classes d" by (simp add: bump_def)
  ultimately show ?thesis using that by simp
qed


lemma find_class_same:
  "classes d' = classes d \<Longrightarrow> find_class name fid d' = find_class name fid d"
  by (auto simp: find_class_def split: option.splits)

text \<open>An entry whose fields are present, on a store that rejects no commit.\<close>

lemma smart_try_entry_fresh:
  assumes "entry_ok e"
  obtains d' st' where "smart_try_entry no_failure fid e d st = (Inr (), d', st')"
    and "key_taken fid d' e"
proof -
  from assms have ok: "class_name e \<noteq> None" "teacher e \<noteq> None" "subject e \<noteq> None"
    "day e \<noteq> None" "start_time e \<noteq> None" "end_time e \<noteq> None"
    by (simp_all add: entry_ok_def)
  obtain cid b1 d1 c where g1: "get_or_create_class no_failure (class_name e) fid d
      = (Inr (cid, b1), d1)" and c: "find_class (class_name e) fid d1 = Some c" "cl_id c = cid"
    using get_or_create_class_no_failure [OF ok(1)] by metis
  obtain tid b2 d2 where g2: "get_or_create_teacher no_failure (teacher e) d1
      = (Inr (tid, b2), d2)"
    using get_or_create_teacher_no_failure [OF ok(2)] by metis
  obtain sid b3 d3 where g3: "get_or_create_subject no_failure (subject e) d2
      = (Inr (sid, b3), d3)"
    using get_or_create_subject_no_failure [OF ok(3)] by metis
  have "db_extends d1 d3"
    using get_or_create_teacher_extends [OF g2] get_or_create_subject_extends [OF g3]
      db_extends_trans by blast
  then have c3: "find_class (class_name e) fid d3 = Some c"
    using c(1) find_class_extends by blast
  show ?thesis
  proof (cases "find_schedule cid (day e) (start_time e) (end_time e) d3")
    case (Some r)
    then have "\<exists>st'. smart_try_entry no_failure fid e d st = (Inr (), d3, st')"
      by (simp add: smart_try_entry_def g1 g2 g3 Let_def)
    moreover have "key_taken fid d3 e" using c3 c(2) Some by (simp add: key_taken_def)
    ultimately show ?thesis using that by blast
  next
    case None
    obtain i d4 where g4: "add_schedule no_failure cid tid sid (day e) (start_time e)
        (end_time e) d3 = (Inr i, d4)"
      and f4: "find_schedule cid (day e) (start_time e) (end_time e) d4 \<noteq> None"
      and c4: "classes d4 = classes d3"
      using add_schedule_no_failure [OF ok(4,5,6) None] by metis
    have "\<exists>st'. smart_try_entry no_failure fid e d st = (Inr (), d4, st')"
      using None by (simp add: smart_try_entry_def g1 g2 g3 g4 Let_def)
    moreover have "key_taken fid d4 e"
      using c3 c(2) f4 find_class_same [OF c4] by (simp add: key_taken_def)
    ultimately show ?thesis using that by blast
  qed
qed

lemma smart_try_entry_taken:
  assumes "entry_ok e" and "key_taken fid d e"
  obtains d' st' where "smart_try_entry no_failure fid e d st = (Inr (), d', st')"
    and "schedules d' = schedules d" and "db_extends d d'"
    and "sm_skipped st' = sm_skipped st + 1" and "sm_imported st' = sm_imported st"
    and "sm_errors st' = sm_errors st"
proof -
  from assms(1) have ok: "teacher e \<noteq> None" "subject e \<noteq> None"
    by (simp_all add: entry_ok_def)
  from assms(2) obtain c r where c: "find_class (class_name e) fid d = Some c"
    and r: "find_schedule (cl_id c) (day e) (start_time e) (end_time e) d = Some r"
    by (auto simp: key_taken_def split: option.splits)
  have g1: "get_or_create_class no_failure (class_name e) fid d = (Inr (cl_id c, False), d)"
    using c by (simp add: get_or_create_class_def)
  obtain tid b2 d2 where g2: "get_or_create_teacher no_failure (teacher e) d
      = (Inr (tid, b2), d2)"
    using get_or_create_teacher_no_failure [OF ok(1)] by metis
  obtain sid b3 d3 where g3: "get_or_create_subject no_failure (subject e) d2
      = (Inr (sid, b3), d3)"
    using get_or_create_subject_no_failure [OF ok(2)] by metis
  have x: "db_extends d d3"
    using get_or_create_teacher_extends [OF g2] get_or_create_subject_extends [OF g3]
      db_extends_trans by blast
  have s: "schedules d3 = schedules d"
    using get_or_create_teacher_schedules [OF g2] get_or_create_subject_schedules [OF g3]
    by simp
  have f: "find_schedule (cl_id c) (day e) (start_time e) (end_time e) d3 = Some r"
    using r find_schedule_same [OF s] by simp
  obtain st' where t: "smart_try_entry no_failure fid e d st = (Inr (), d3, st')"
    and "sm_skipped st' = sm_skipped st + 1" "sm_imported st' = sm_imported st"
    "sm_errors st' = sm_errors st"
    by (simp add: smart_try_entry_def g1 g2 g3 f Let_def)
  with s x that show ?thesis by blast
qed

lemma smart_fold_fresh:
  assumes "\<forall>e \<in> set es. entry_ok e"
    and "foldl (smart_step no_failure fid) (d, st) es = (d', st')"
  shows "\<forall>e \<in> set es. key_taken fid d' e"
  using assms
proof (induction es arbitrary: d st)
  case Nil
  then show ?case by simp
next
  case (Cons e es)
  from Cons.prems(1) have ok: "entry_ok e" by simp
  obtain d1 st0 where t: "smart_try_entry no_failure fid e d st = (Inr (), d1, st0)"
    and k: "key_taken fid d1 e"
    using smart_try_entry_fresh [OF ok] by metis
  then have s: "smart_step no_failure fid (d, st) e = (d1, st0)"
    by (simp add: smart_step_def)
  with Cons.prems(2) have f: "foldl (smart_step no_failure fid) (d1, st0) es = (d', st')"
    by simp
  from smart_fold_count [OF f] have "db_extends d1 d'" by simp
  with k have "key_taken fid d' e" by (rule key_taken_extends)
  moreover from Cons.IH [OF _ f] Cons.prems(1) have "\<forall>x \<in> set es. key_taken fid d' x" by simp
  ultimately show ?case by simp
qed

lemma smart_fold_taken:
  assumes "\<forall>e \<in> set es. entry_ok e \<and> key_taken fid d e"
    and "foldl (smart_step no_failure fid) (d, st) es = (d', st')"
  shows "schedules d' = schedules d \<and> sm_skipped st' = sm_skipped st + length es
     \<and> sm_imported st' = sm_imported st \<and> sm_errors st' = sm_errors st"
  using assms
proof (induction es arbitrary: d st)
  case Nil
  then show ?case by simp
next
  case (Cons e es)
  from Cons.prems(1) have ok: "entry_ok e" and k: "key_taken fid d e" by simp_all
  obtain d1 st0 where t: "smart_try_entry no_failure fid e d st = (Inr (), d1, st0)"
    and s1: "schedules d1 = schedules d" and x1: "db_extends d d1"
    and c1: "sm_skipped st0 = sm_skipped st + 1" "sm_imported st0 = sm_imported st"
      "sm_errors st0 = sm_errors st"
    using smart_try_entry_taken [OF ok k] by metis
  then have s: "smart_step no_failure fid (d, st) e = (d1, st0)"
    by (simp add: smart_step_def)
  with Cons.prems(2) have f: "foldl (smart_step no_failure fid) (d1, st0) es = (d', st')"
    by simp
  have "\<forall>x \<in> set es. entry_ok x \<and> key_taken fid d1 x"
    using Cons.prems(1) x1 by (auto intro: key_taken_extends)
  from Cons.IH [OF this f] s1 c1 show ?case by simp
qed


lemma get_or_create_floor_found:
  "find_floor fl d = Some f \<Longrightarrow> get_or_create_floor fails fl d = (Inr (fl_id f), d)"
  by (simp add: get_or_create_floor_def)

lemma find_floor_same: "floors d' = floors d \<Longrightarrow> find_floor fl d' = find_floor fl d"
  by (simp add: find_floor_def)

lemma get_or_create_floor_no_failure:
  obtains fid d0 f where "get_or_create_floor no_failure fl d = (Inr fid, d0)"
    and "find_floor fl d0 = Some f" and "fl_id f = fid"
proof (cases "find_floor fl d")
  case (Some f)
  then show ?thesis using that get_or_create_floor_found by blast
next
  case None
  let ?i = "next_id (map fl_id (floors d))"
  let ?f = "\<lparr> fl_id = ?i, fl_name = DefaultFloorName fl, fl_number = fl \<rparr>"
  let ?d = "bump (d\<lparr> floors := floors d @ [?f] \<rparr>)"
  from None have "fl \<notin> set (map fl_number (floors d))"
    by (auto simp: find_floor_def find_None_iff)
  then have "get_or_create_floor no_failure fl d = (Inr ?i, ?d)"
    using None by (simp add: get_or_create_floor_def add_floor_def no_failure_def Let_def)
  moreover have "find_floor fl ?d = Some ?f"
    using None by (simp add: find_floor_def bump_def find_snoc_None)
  ultimately show ?thesis using that by simp
qed

lemma smart_import_twice:
  assumes ok: "\<forall>e \<in> set es. entry_ok e"
    and r1: "smart_import_to_database no_failure es fl d = (r1, d1)"
    and r2: "smart_import_to_database no_failure es fl d1 = (r2, d2)"
  shows "schedules d2 = schedules d1
     \<and> (\<exists>st2. r2 = Inr st2 \<and> sm_imported st2 = 0 \<and> sm_skipped st2 = length es
           \<and> sm_errors st2 = 0)
     \<and> (\<exists>f. find_floor fl d1 = Some f \<and> (\<forall>e \<in> set es. key_taken (fl_id f) d1 e))"
proof -
  obtain fid d0 f where g: "get_or_create_floor no_failure fl d = (Inr fid, d0)"
    and f: "find_floor fl d0 = Some f" "fl_id f = fid"
    using get_or_create_floor_no_failure by metis
  let ?st0 = "\<lparr> sm_total = length es, sm_imported = 0, sm_skipped = 0,
                 sm_errors = 0, sm_classes_created = {}, sm_teachers_created = {},
                 sm_subjects_created = {} \<rparr>"
  obtain da sta where l1: "foldl (smart_step no_failure fid) (d0, ?st0) es = (da, sta)"
    by (cases "foldl (smart_step no_failure fid) (d0, ?st0) es")
  from r1 g l1 have d1: "d1 = da" by (simp add: smart_import_to_database_def Let_def)
  from smart_fold_count [OF l1] have x: "db_extends d0 d1" using d1 by simp
  then have ff: "find_floor fl d1 = Some f" using f(1) find_floor_same [of d1 d0 fl]
    by (simp add: db_extends_def)
  then have g2: "get_or_create_floor no_failure fl d1 = (Inr fid, d1)"
    using f(2) get_or_create_floor_found by blast
  have taken: "\<forall>e \<in> set es. entry_ok e \<and> key_taken fid d1 e"
    using ok smart_fold_fresh [OF ok l1] d1 by simp
  obtain db stb where l2: "foldl (smart_step no_failure fid) (d1, ?st0) es = (db, stb)"
    by (cases "foldl (smart_step no_failure fid) (d1, ?st0) es")
  from r2 g2 l2 have res: "d2 = db" "r2 = Inr stb"
    by (simp_all add: smart_import_to_database_def Let_def)
  from smart_fold_taken [OF taken l2] res taken ff f(2) show ?thesis by auto
qed


lemma complete_try_entry_fresh:
  assumes "entry_ok e"
  obtains d' st' where
    "complete_try_entry no_failure fid fsid ntid e d st = (Inr (), d', st')"
    and "key_taken fid d' e"
proof -
  from assms have ok: "class_name e \<noteq> None" "teacher e \<noteq> None" "subject e \<noteq> None"
    "day e \<noteq> None" "start_time e \<noteq> None" "end_time e \<noteq> None"
    by (simp_all add: entry_ok_def)
  obtain cid b1 d1 c where g1: "get_or_create_class no_failure (class_name e) fid d
      = (Inr (cid, b1), d1)" and c: "find_class (class_name e) fid d1 = Some c" "cl_id c = cid"
    using get_or_create_class_no_failure [OF ok(1)] by metis
  obtain tid b2 d2 where g2: "(if is_free e then (Inr (ntid, False), d1)
      else get_or_create_teacher no_failure (teacher e) d1) = (Inr (tid, b2), d2)"
    and x2: "db_extends d1 d2"
  proof (cases "is_free e")
    case True
    then show ?thesis using that [of ntid False d1] by simp
  next
    case False
    obtain tid b2 d2 where "get_or_create_teacher no_failure (teacher e) d1
        = (Inr (tid, b2), d2)"
      using get_or_create_teacher_no_failure [OF ok(2)] by metis
    then show ?thesis using False that get_or_create_teacher_extends by simp
  qed
  obtain sid b3 d3 where g3: "(if is_free e then (Inr (fsid, False), d2)
      else get_or_create_subject no_failure (subject e) d2) = (Inr (sid, b3), d3)"
    and x3: "db_extends d2 d3"
  proof (cases "is_free e")
    case True
    then show ?thesis using that [of fsid False d2] by simp
  next
    case False
    obtain sid b3 d3 where "get_or_create_subject no_failure (subject e) d2
        = (Inr (sid, b3), d3)"
      using get_or_create_subject_no_failure [OF ok(3)] by metis
    then show ?thesis using False that get_or_create_subject_extends by simp
  qed
  have "db_extends d1 d3" using x2 x3 db_extends_trans by blast
  then have c3: "find_class (class_name e) fid d3 = Some c"
    using c(1) find_class_extends by blast
  show ?thesis
  proof (cases "find_schedule cid (day e) (start_time e) (end_time e) d3")
    case (Some r)
    then have "\<exists>st'. complete_try_entry no_failure fid fsid ntid e d st = (Inr (), d3, st')"
      by (simp add: complete_try_entry_def g1 g2 g3 Let_def)
    moreover have "key_taken fid d3 e" using c3 c(2) Some by (simp add: key_taken_def)
    ultimately show ?thesis using that by blast
  next
    case None
    obtain i d4 where g4: "add_schedule no_failure cid tid sid (day e) (start_time e)
        (end_time e) d3 = (Inr i, d4)"
      and f4: "find_schedule cid (day e) (start_time e) (end_time e) d4 \<noteq> None"
      and c4: "classes d4 = classes d3"
      using add_schedule_no_failure [OF ok(4,5,6) None] by metis
    have "\<exists>st'. complete_try_entry no_failure fid fsid ntid e d st = (Inr (), d4, st')"
      using None by (simp add: complete_try_entry_def g1 g2 g3 g4 Let_def)
    moreover have "key_taken fid d4 e"
      using c3 c(2) f4 find_class_same [OF c4] by (simp add: key_taken_def)
    ultimately show ?thesis using that by blast
  qed
qed

lemma complete_try_entry_taken:
  assumes "entry_ok e" and "key_taken fid d e"
  obtains d' st' where
    "complete_try_entry no_failure fid fsid ntid e d st = (Inr (), d', st')"
    and "schedules d' = schedules d" and "db_extends d d'"
    and "co_skipped st' = co_skipped st + 1" and "co_imported st' = co_imported st"
proof -
  from assms(1) have ok: "teacher e \<noteq> None" "subject e \<noteq> None"
    by (simp_all add: entry_ok_def)
  from assms(2) obtain c r where c: "find_class (class_name e) fid d = Some c"
    and r: "find_schedule (cl_id c) (day e) (start_time e) (end_time e) d = Some r"
    by (auto simp: key_taken_def split: option.splits)
  have g1: "get_or_create_class no_failure (class_name e) fid d = (Inr (cl_id c, False), d)"
    using c by (simp add: get_or_create_class_def)
  obtain tid b2 d2 where g2: "(if is_free e then (Inr (ntid, False), d)
      else get_or_create_teacher no_failure (teacher e) d) = (Inr (tid, b2), d2)"
    and x2: "db_extends d d2" "schedules d2 = schedules d"
  proof (cases "is_free e")
    case True
    then show ?thesis using that [of ntid False d] by simp
  next
    case False
    obtain tid b2 d2 where "get_or_create_teacher no_failure (teacher e) d
        = (Inr (tid, b2), d2)"
      using get_or_create_teacher_no_failure [OF ok(1)] by metis
    then show ?thesis
      using False that get_or_create_teacher_extends get_or_create_teacher_schedules by simp
  qed
  obtain sid b3 d3 where g3: "(if is_free e then (Inr (fsid, False), d2)
      else get_or_create_subject no_failure (subject e) d2) = (Inr (sid, b3), d3)"
    and x3: "db_extends d2 d3" "schedules d3 = schedules d2"
  proof (cases "is_free e")
    case True
    then show ?thesis using that [of fsid False d2] by simp
  next
    case False
    obtain sid b3 d3 where "get_or_create_subject no_failure (subject e) d2
        = (Inr (sid, b3), d3)"
      using get_or_create_subject_no_failure [OF ok(2)] by metis
    then show ?thesis
      using False that get_or_create_subject_extends get_or_create_subject_schedules by simp
  qed
  have x: "db_extends d d3" using x2 x3 db_extends_trans by blast
  have s: "schedules d3 = schedules d" using x2 x3 by simp
  have f: "find_schedule (cl_id c) (day e) (start_time e) (end_time e) d3 = Some r"
    using r find_schedule_same [OF s] by simp
  obtain st' where t: "complete_try_entry no_failure fid fsid ntid e d st = (Inr (), d3, st')"
    and "co_skipped st' = co_skipped st + 1" "co_imported st' = co_imported st"
    by (simp add: complete_try_entry_def g1 g2 g3 f Let_def)
  with s x that show ?thesis by blast
qed

lemma complete_fold_fresh:
  assumes "\<forall>e \<in> set es. entry_ok e"
    and "foldl (complete_step no_failure fid fsid ntid) (d, st) es = (d', st')"
  shows "\<forall>e \<in> set es. key_taken fid d' e"
  using assms
proof (induction es arbitrary: d st)
  case Nil
  then show ?case by simp
next
  case (Cons e es)
  from Cons.prems(1) have ok: "entry_ok e" by simp
  obtain d1 st0 where t: "complete_try_entry no_failure fid fsid ntid e d st = (Inr (), d1, st0)"
    and k: "key_taken fid d1 e"
    using complete_try_entry_fresh [OF ok] by metis
  then have s: "complete_step no_failure fid fsid ntid (d, st) e = (d1, st0)"
    by (simp add: complete_step_def)
  with Cons.prems(2)
  have f: "foldl (complete_step no_failure fid fsid ntid) (d1, st0) es = (d', st')"
    by simp
  from complete_fold_count [OF f] have "db_extends d1 d'" by simp
  with k have "key_taken fid d' e" by (rule key_taken_extends)
  moreover from Cons.IH [OF _ f] Cons.prems(1) have "\<forall>x \<in> set es. key_taken fid d' x" by simp
  ultimately show ?case by simp
qed

lemma complete_fold_taken:
  assumes "\<forall>e \<in> set es. entry_ok e \<and> key_taken fid d e"
    and "foldl (complete_step no_failure fid fsid ntid) (d, st) es = (d', st')"
  shows "schedules d' = schedules d \<and> co_skipped st' = co_skipped st + length es
     \<and> co_imported st' = co_imported st"
  using assms
proof (induction es arbitrary: d st)
  case Nil
  then show ?case by simp
next
  case (Cons e es)
  from Cons.prems(1) have ok: "entry_ok e" and k: "key_taken fid d e" by simp_all
  obtain d1 st0 where t: "complete_try_entry no_failure fid fsid ntid e d st = (Inr (), d1, st0)"
    and s1: "schedules d1 = schedules d" and x1: "db_extends d d1"
    and c1: "co_skipped st0 = co_skipped st + 1" "co_imported st0 = co_imported st"
    using complete_try_entry_taken [OF ok k] by metis
  then have s: "complete_step no_failure fid fsid ntid (d, st) e = (d1, st0)"
    by (simp add: complete_step_def)
  with Cons.prems(2)
  have f: "foldl (complete_step no_failure fid fsid ntid) (d1, st0) es = (d', st')"
    by simp
  have "\<forall>x \<in> set es. entry_ok x \<and> key_taken fid d1 x"
    using Cons.prems(1) x1 by (auto intro: key_taken_extends)
  from Cons.IH [OF this f] s1 c1 show ?case by simp
qed

lemma complete_import_twice:
  assumes ok: "\<forall>e \<in> set es. entry_ok e"
    and r1: "complete_import_to_database no_failure es fl False d = (r1, d1)"
    and r2: "complete_import_to_database no_failure es fl False d1 = (r2, d2)"
  shows "schedules d2 = schedules d1
     \<and> (\<exists>st2. r2 = Inr st2 \<and> co_imported st2 = 0 \<and> co_skipped st2 = length es)
     \<and> (\<exists>f. find_floor fl d1 = Some f \<and> (\<forall>e \<in> set es. key_taken (fl_id f) d1 e))"
proof -
  let ?st0 = "\<lparr> co_total = length es, co_imported = 0, co_free_periods = 0,
                 co_academic = 0, co_skipped = 0, co_classes_created = {} \<rparr>"
  obtain fid d0 f where g: "get_or_create_floor no_failure fl d = (Inr fid, d0)"
    and f: "find_floor fl d0 = Some f" "fl_id f = fid"
    using get_or_create_floor_no_failure by metis
  obtain fsid b d0a where gs: "get_or_create_subject no_failure (Some ''Free Period'') d0
      = (Inr (fsid, b), d0a)"
    using get_or_create_subject_no_failure [of "Some ''Free Period''"] by (metis option.distinct(1))
  obtain ntid b' d0b where gt: "get_or_create_teacher no_failure (Some ''No Teacher'') d0a
      = (Inr (ntid, b'), d0b)"
    using get_or_create_teacher_no_failure [of "Some ''No Teacher''"] by (metis option.distinct(1))
  obtain da sta where l1:
    "foldl (complete_step no_failure fid fsid ntid) (d0b, ?st0) es = (da, sta)"
    by (cases "foldl (complete_step no_failure fid fsid ntid) (d0b, ?st0) es")
  from r1 g gs gt l1 have d1: "d1 = da"
    by (simp add: complete_import_to_database_def Let_def)
  have x: "db_extends d0 d1"
    using get_or_create_subject_extends [OF gs] get_or_create_teacher_extends [OF gt]
      complete_fold_count [OF l1] d1 db_extends_trans by blast
  then have ff: "find_floor fl d1 = Some f" using f(1) find_floor_same [of d1 d0 fl]
    by (simp add: db_extends_def)
  then have g2: "get_or_create_floor no_failure fl d1 = (Inr fid, d1)"
    using f(2) get_or_create_floor_found by blast
  obtain fsid2 b2 d1a where gs2: "get_or_create_subject no_failure (Some ''Free Period'') d1
      = (Inr (fsid2, b2), d1a)"
    using get_or_create_subject_no_failure [of "Some ''Free Period''"] by (metis option.distinct(1))
  obtain ntid2 b2' d1b where gt2: "get_or_create_teacher no_failure (Some ''No Teacher'') d1a
      = (Inr (ntid2, b2'), d1b)"
    using get_or_create_teacher_no_failure [of "Some ''No Teacher''"] by (metis option.distinct(1))
  have x2: "db_extends d1 d1b"
    using get_or_create_subject_extends [OF gs2] get_or_create_teacher_extends [OF gt2]
      db_extends_trans by blast
  have s2: "schedules d1b = schedules d1"
    using get_or_create_subject_schedules [OF gs2] get_or_create_teacher_schedules [OF gt2]
    by simp
  have taken1: "\<forall>e \<in> set es. key_taken fid d1 e"
    using complete_fold_fresh [OF ok l1] d1 by simp
  then have taken: "\<forall>e \<in> set es. entry_ok e \<and> key_taken fid d1b e"
    using ok x2 by (auto intro: key_taken_extends)
  obtain db stb where l2:
    "foldl (complete_step no_failure fid fsid2 ntid2) (d1b, ?st0) es = (db, stb)"
    by (cases "foldl (complete_step no_failure fid fsid2 ntid2) (d1b, ?st0) es")
  from r2 g2 gs2 gt2 l2 have res: "d2 = db" "r2 = Inr stb"
    by (simp_all add: complete_import_to_database_def Let_def)
  from complete_fold_taken [OF taken l2] res s2 taken1 ff f(2) show ?thesis by auto
qed


section \<open>Importing the same document twice\<close>

lemma set_map_filter_iff: "y \<in> set (List.map_filter f xs) \<longleftrightarrow> (\<exists>x \<in> set xs. f x = Some y)"
  by (induction xs) (auto split: option.splits)

lemma truthy_not_None: "truthy x \<Longrightarrow> x \<noteq> None"
  by (cases x) (auto simp: truthy_def)

lemma smart_column_entry_ok:
  assumes "smart_column_entry dname dnum r cname cp = Some e"
  shows "entry_ok e"
  using assms
  by (auto simp: smart_column_entry_def entry_ok_def Let_def
           split: prod.splits if_splits option.splits dest: truthy_not_None)

lemma smart_row_entries_ok:
  "e \<in> set (smart_row_entries dname dnum cols r) \<Longrightarrow> entry_ok e"
  by (auto simp: smart_row_entries_def set_map_filter_iff split: option.splits
           dest: smart_column_entry_ok)

lemma smart_extract_page_ok:
  "smart_extract_page pg = Inr res \<Longrightarrow> e \<in> set (page_entries res) \<Longrightarrow> entry_ok e"
  by (auto simp: smart_extract_page_def split: list.splits sum.splits option.splits prod.splits
           dest: smart_row_entries_ok)

lemma smart_extract_ok:
  "smart_extract_schedules_from_pdf pages = Inr es \<Longrightarrow> \<forall>e \<in> set es. entry_ok e"
proof (induction pages arbitrary: es)
  case Nil
  then show ?case by simp
next
  case (Cons pg pages)
  then show ?case
    by (auto split: sum.splits dest: smart_extract_page_ok)
qed

lemma time_periods_parse:
  assumes "p \<in> set period_nums" and "map_of TIME_PERIODS p = Some (s, e)"
  shows "parse_time s \<noteq> None \<and> parse_time e \<noteq> None"
  using assms
  by (auto simp: period_nums_def TIME_PERIODS_def parse_time_def py_int_def is_digit_def)

lemma complete_period_entry_ok:
  assumes "p \<in> set period_nums"
    and "complete_period_entry fl dname dnum cols r cname p = Some e"
  shows "entry_ok e"
proof -
  from time_period_known [OF assms(1)] obtain s en
    where tp: "map_of TIME_PERIODS p = Some (s, en)" "s \<noteq> []" "en \<noteq> []" by blast
  from time_periods_parse [OF assms(1) tp(1)] assms(2) tp show ?thesis
    by (auto simp: complete_period_entry_def entry_ok_def Let_def
             split: prod.splits if_splits option.splits dest: truthy_not_None)
qed

lemma complete_row_entries_ok:
  "e \<in> set (complete_row_entries fl dname dnum cols r) \<Longrightarrow> entry_ok e"
  by (auto simp: complete_row_entries_def set_map_filter_iff split: option.splits
           dest: complete_period_entry_ok)

lemma complete_extract_page_ok:
  "e \<in> set (page_entries (complete_extract_page fl pg)) \<Longrightarrow> entry_ok e"
  by (auto simp: complete_extract_page_def
           split: list.splits option.splits prod.splits if_splits
           dest: complete_row_entries_ok)

lemma complete_extract_ok:
  "\<forall>e \<in> set (complete_extract_schedules_from_pdf pages fl). entry_ok e"
  by (auto simp: complete_extract_schedules_from_pdf_def dest: complete_extract_page_ok)


text \<open>
  C1. Running the same extraction and import twice over the same document, with
  clear-existing disabled and no commit rejected by the store, leaves the schedule rows after
  the second run equal to those after the first; the second run imports nothing and skips
  every entry as a duplicate, because after the first run the natural key of each entry is
  taken by an existing row. Stated for \<open>import_schedule_smart\<close> and for
  \<open>import_complete_schedules\<close>.
\<close>

theorem import_twice_is_idempotent:
  "(smart_extract_schedules_from_pdf pages = Inr es
      \<and> smart_import_to_database no_failure es fl d = (ra, da)
      \<and> smart_import_to_database no_failure es fl da = (rb, dc)
    \<longrightarrow> schedules dc = schedules da
        \<and> (\<exists>st2. rb = Inr st2 \<and> sm_imported st2 = 0 \<and> sm_skipped st2 = length es
              \<and> sm_errors st2 = 0)
        \<and> (\<exists>f. find_floor fl da = Some f \<and> (\<forall>e \<in> set es. key_taken (fl_id f) da e)))
   \<and> (ces = complete_extract_schedules_from_pdf pages fl'
      \<and> complete_import_to_database no_failure ces fl False d = (cra, cda)
      \<and> complete_import_to_database no_failure ces fl False cda = (crb, cdb)
    \<longrightarrow> schedules cdb = schedules cda
        \<and> (\<exists>st2. crb = Inr st2 \<and> co_imported st2 = 0 \<and> co_skipped st2 = length ces)
        \<and> (\<exists>f. find_floor fl cda = Some f \<and> (\<forall>e \<in> set ces. key_taken (fl_id f) cda e)))"
proof (rule conjI; rule impI)
  assume a: "smart_extract_schedules_from_pdf pages = Inr es
      \<and> smart_import_to_database no_failure es fl d = (ra, da)
      \<and> smart_import_to_database no_failure es fl da = (rb, dc)"
  then have ok: "\<forall>e \<in> set es. entry_ok e" using smart_extract_ok by blast
  from smart_import_twice [OF ok] a
  show "schedules dc = schedules da
        \<and> (\<exists>st2. rb = Inr st2 \<and> sm_imported st2 = 0 \<and> sm_skipped st2 = length es
              \<and> sm_errors st2 = 0)
        \<and> (\<exists>f. find_floor fl da = Some f \<and> (\<forall>e \<in> set es. key_taken (fl_id f) da e))"
    by blast
next
  assume a: "ces = complete_extract_schedules_from_pdf pages fl'
      \<and> complete_import_to_database no_failure ces fl False d = (cra, cda)
      \<and> complete_import_to_database no_failure ces fl False cda = (crb, cdb)"
  then have ok: "\<forall>e \<in> set ces. entry_ok e" using complete_extract_ok by blast
  from complete_import_twice [OF ok] a
  show "schedules cdb = schedules cda
        \<and> (\<exists>st2. crb = Inr st2 \<and> co_imported st2 = 0 \<and> co_skipped st2 = length ces)
        \<and> (\<exists>f. find_floor fl cda = Some f \<and> (\<forall>e \<in> set ces. key_taken (fl_id f) cda e))"
    by blast
qed


lemmas extract_eval = smart_extract_page_def smart_day_of_table_def smart_period_columns_def
  smart_period_of_cell_def smart_row_entries_def smart_column_entry_def class_name_of_row_def
  day_in_text_def DAY_MAPPING_def TIME_PERIODS_def period_nums_def parse_time_def py_int_def
  is_digit_def truthy_def py_str_def

lemma example_smart_extract:
  "smart_extract_schedules_from_pdf [example_page] = Inr [example_entry]"
  by (simp add: example_page_def example_entry_def extract_eval classifier_eval)

lemma example_complete_extract:
  "length (complete_extract_schedules_from_pdf [example_page] 2) = 10"
proof -
  let ?r = "[Some ''5A'', Some ''Math\<newline>Mr. Ali'', None, Some ''Break'']"
  let ?T = "[[Some ''Floor''], [None, Some ''Monday''],
             [Some ''Class'', Some ''1\<newline>08:30'', Some ''2\<newline>09:05'', Some ''3\<newline>09:40''], ?r]"
  have tabs: "tables example_page = ?T # []" by (simp add: example_page_def)
  have day: "complete_resolve_day ?T (text_of_page example_page) = Some (''monday'', 0)"
    by (simp add: day_eval)
  have hdr: "complete_find_period_columns ?T = Some (2, [(1, ''1''), (2, ''2''), (3, ''3'')])"
    by (simp add: locator_eval)
  have cn: "class_name_of_row ?r = Some ''5A''"
    by (simp add: class_name_of_row_def truthy_def py_str_def py_strip_def py_isspace_def)
  have "complete_extract_page 2 example_page =
          Extracted (complete_row_entries 2 ''monday'' 0 [(1, ''1''), (2, ''2''), (3, ''3'')] ?r)"
    using complete_extract_page_resolved [OF tabs day hdr, of 2] by simp
  then show ?thesis
    using complete_row_entries_ten [OF cn, of 2 "''monday''" 0 "[(1, ''1''), (2, ''2''), (3, ''3'')]"]
    by (simp add: complete_extract_schedules_from_pdf_def)
qed

theorem import_twice_is_idempotent_witness:
  "smart_extract_schedules_from_pdf [example_page] = Inr [example_entry]
   \<and> schedules (snd (smart_import_to_database no_failure [example_entry] 2
                     (snd (smart_import_to_database no_failure [example_entry] 2 empty_db))))
     = schedules (snd (smart_import_to_database no_failure [example_entry] 2 empty_db))
   \<and> (\<exists>st2. fst (smart_import_to_database no_failure [example_entry] 2
                     (snd (smart_import_to_database no_failure [example_entry] 2 empty_db)))
             = Inr st2
          \<and> sm_imported st2 = 0 \<and> sm_skipped st2 = 1 \<and> sm_errors st2 = 0)
   \<and> length (complete_extract_schedules_from_pdf [example_page] 2) = 10
   \<and> (\<exists>st2. fst (complete_import_to_database no_failure
                     (complete_extract_schedules_from_pdf [example_page] 2) 2 False
                     (snd (complete_import_to_database no_failure
                            (complete_extract_schedules_from_pdf [example_page] 2) 2 False
                            empty_db)))
             = Inr st2
          \<and> co_imported st2 = 0 \<and> co_skipped st2 = 10)"
proof -
  let ?S1 = "smart_import_to_database no_failure [example_entry] 2 empty_db"
  let ?S2 = "smart_import_to_database no_failure [example_entry] 2 (snd ?S1)"
  let ?ces = "complete_extract_schedules_from_pdf [example_page] 2"
  let ?C1 = "complete_import_to_database no_failure ?ces 2 False empty_db"
  let ?C2 = "complete_import_to_database no_failure ?ces 2 False (snd ?C1)"
  have s1: "?S1 = (fst ?S1, snd ?S1)" and s2: "?S2 = (fst ?S2, snd ?S2)"
    and c1: "?C1 = (fst ?C1, snd ?C1)" and c2: "?C2 = (fst ?C2, snd ?C2)"
    by simp_all
  note inst = import_twice_is_idempotent
    [where pages = "[example_page]" and es = "[example_entry]" and fl = 2 and d = empty_db
       and ra = "fst ?S1" and da = "snd ?S1" and rb = "fst ?S2" and dc = "snd ?S2"
       and ces = ?ces and fl' = 2
       and cra = "fst ?C1" and cda = "snd ?C1" and crb = "fst ?C2" and cdb = "snd ?C2"]
  have A: "schedules (snd ?S2) = schedules (snd ?S1)
        \<and> (\<exists>st2. fst ?S2 = Inr st2 \<and> sm_imported st2 = 0
              \<and> sm_skipped st2 = length [example_entry] \<and> sm_errors st2 = 0)"
    using inst example_smart_extract s1 s2 by blast
  have B: "\<exists>st2. fst ?C2 = Inr st2 \<and> co_imported st2 = 0 \<and> co_skipped st2 = length ?ces"
    using inst c1 c2 by blast
  show ?thesis using A B example_smart_extract example_complete_extract by simp
qed


lemmas db_eval = get_or_create_floor_def get_or_create_class_def get_or_create_teacher_def
  get_or_create_subject_def add_floor_def add_class_def add_teacher_def add_subject_def
  add_schedule_def find_floor_def find_class_def find_teacher_def find_subject_def
  find_schedule_def next_id_def bump_def no_failure_def fails_at_def Let_def truthy_def
  example_entry_def example_free_entry_def empty_db_def example_school_db_def

section \<open>Delete guard\<close>

text \<open>
  C8. Deleting a teacher or a subject that at least one schedule row references is
  refused: the database, and so the teacher (or subject) and every schedule row, is exactly
  as before and no success is reported; when the teacher (or subject) exists, the answer is
  the error flash. Nothing cascades.
\<close>

theorem delete_guard:
  "((\<exists>s \<in> set (schedules d). sc_teacher_id s = teacher_id)
      \<longrightarrow> snd (delete_teacher teacher_id d) = d
        \<and> fst (delete_teacher teacher_id d) \<noteq> Inr FlashSuccess
        \<and> (find (\<lambda>t. te_id t = teacher_id) (teachers d) \<noteq> None
             \<longrightarrow> delete_teacher teacher_id d = (Inr FlashError, d)))
   \<and> ((\<exists>s \<in> set (schedules d). sc_subject_id s = subject_id)
      \<longrightarrow> snd (delete_subject subject_id d) = d
        \<and> fst (delete_subject subject_id d) \<noteq> Inr FlashSuccess
        \<and> (find (\<lambda>s. su_id s = subject_id) (subjects d) \<noteq> None
             \<longrightarrow> delete_subject subject_id d = (Inr FlashError, d)))"
proof -
  have t: "filter (\<lambda>s. sc_teacher_id s = teacher_id) (schedules d) \<noteq> []"
    if "\<exists>s \<in> set (schedules d). sc_teacher_id s = teacher_id"
    using that by (auto simp: filter_empty_conv)
  have s: "filter (\<lambda>s. sc_subject_id s = subject_id) (schedules d) \<noteq> []"
    if "\<exists>s \<in> set (schedules d). sc_subject_id s = subject_id"
    using that by (auto simp: filter_empty_conv)
  show ?thesis
    using t s by (auto simp: delete_teacher_def delete_subject_def split: option.splits)
qed

theorem delete_guard_witness:
  "delete_teacher 1 example_school_db = (Inr FlashError, example_school_db)
   \<and> delete_subject 1 example_school_db = (Inr FlashError, example_school_db)"
proof -
  have h1: "\<exists>s \<in> set (schedules example_school_db). sc_teacher_id s = 1"
    and h2: "\<exists>s \<in> set (schedules example_school_db). sc_subject_id s = 1"
    and h3: "find (\<lambda>t. te_id t = 1) (teachers example_school_db) \<noteq> None"
    and h4: "find (\<lambda>s. su_id s = 1) (subjects example_school_db) \<noteq> None"
    by (simp_all add: example_school_db_def)
  show ?thesis
    using delete_guard [of example_school_db 1 1] h1 h2 h3 h4 by blast
qed

section \<open>A failing entry does not stop the import\<close>

lemma smart_import_count:
  assumes "smart_import_to_database fails es fl d = (Inr st, d')"
  shows "sm_total st = length es
     \<and> sm_imported st + sm_skipped st + sm_errors st = length es"
proof -
  from assms obtain fid d0 where g: "get_or_create_floor fails fl d = (Inr fid, d0)"
    by (auto simp: smart_import_to_database_def split: prod.splits sum.splits)
  let ?st0 = "\<lparr> sm_total = length es, sm_imported = 0, sm_skipped = 0,
                 sm_errors = 0, sm_classes_created = {}, sm_teachers_created = {},
                 sm_subjects_created = {} \<rparr>"
  obtain da sta where l: "foldl (smart_step fails fid) (d0, ?st0) es = (da, sta)"
    by (cases "foldl (smart_step fails fid) (d0, ?st0) es")
  from assms g l have "st = sta" by (simp add: smart_import_to_database_def Let_def)
  with smart_fold_count [OF l] show ?thesis by simp
qed

lemma pdf_import_count:
  assumes "import_schedule_to_database fails es fl d = (Inr st, d')"
  shows "pd_processed st = length es
     \<and> pd_imported st + pd_skipped st + pd_errors st = length es"
proof -
  from assms obtain fid d0 where g: "get_or_create_floor fails fl d = (Inr fid, d0)"
    by (auto simp: import_schedule_to_database_def split: prod.splits sum.splits)
  let ?st0 = "\<lparr> pd_processed = 0, pd_imported = 0, pd_skipped = 0, pd_errors = 0,
                 pd_classes_created = 0, pd_teachers_created = 0,
                 pd_subjects_created = 0 \<rparr>"
  obtain da sta where l: "foldl (pdf_step fails fid) (d0, ?st0) es = (da, sta)"
    by (cases "foldl (pdf_step fails fid) (d0, ?st0) es")
  from assms g l have "st = sta" by (simp add: import_schedule_to_database_def Let_def)
  with pdf_fold_count [OF l] show ?thesis by simp
qed

text \<open>
  C9 (amended). For every entry of a batch, a persistence failure while the entry is
  processed is caught and the failing commit persists nothing: the entry adds no schedule
  row, and the state is the one committed before the failure, so a class, teacher or subject
  row committed earlier for the same entry stays. The loop goes on with the next entry.
  \<open>import_schedule_smart\<close> and \<open>import_schedule_from_pdf\<close> count the failure in
  \<open>errors\<close>, so that imported, skipped and errors add up to the number of entries.
\<close>

theorem import_failure_is_isolated:
  "(smart_try_entry fails fid e d st = (Inl err, d', st')
      \<longrightarrow> smart_step fails fid (d, st) e = (d', st'\<lparr> sm_errors := sm_errors st' + 1 \<rparr>)
        \<and> schedules d' = schedules d \<and> db_extends d d'
        \<and> sm_imported st' = sm_imported st \<and> sm_skipped st' = sm_skipped st
        \<and> sm_errors st' = sm_errors st)
   \<and> (smart_import_to_database fails es fl d = (Inr sst, sd)
      \<longrightarrow> sm_total sst = length es
        \<and> sm_imported sst + sm_skipped sst + sm_errors sst = length es)
   \<and> (pdf_try_entry fails fid e d (pst\<lparr> pd_processed := pd_processed pst + 1 \<rparr>)
         = (Inl err, d', pst')
      \<longrightarrow> pdf_step fails fid (d, pst) e = (d', pst'\<lparr> pd_errors := pd_errors pst' + 1 \<rparr>)
        \<and> schedules d' = schedules d \<and> db_extends d d'
        \<and> pd_imported pst' = pd_imported pst \<and> pd_skipped pst' = pd_skipped pst
        \<and> pd_errors pst' = pd_errors pst)
   \<and> (import_schedule_to_database fails es fl d = (Inr pstf, pd)
      \<longrightarrow> pd_processed pstf = length es
        \<and> pd_imported pstf + pd_skipped pstf + pd_errors pstf = length es)
   \<and> (complete_try_entry fails fid fsid ntid ce d cst = (Inl err, d', cst')
      \<longrightarrow> complete_step fails fid fsid ntid (d, cst) ce = (d', cst')
        \<and> schedules d' = schedules d \<and> db_extends d d'
        \<and> co_imported cst' = co_imported cst \<and> co_skipped cst' = co_skipped cst)
   \<and> foldl (complete_step fails fid fsid ntid) cs (cesa @ ce # cesb)
       = foldl (complete_step fails fid fsid ntid)
           (complete_step fails fid fsid ntid
              (foldl (complete_step fails fid fsid ntid) cs cesa) ce) cesb"
proof -
  have A: "smart_step fails fid (d, st) e = (d', st'\<lparr> sm_errors := sm_errors st' + 1 \<rparr>)
        \<and> schedules d' = schedules d \<and> db_extends d d'
        \<and> sm_imported st' = sm_imported st \<and> sm_skipped st' = sm_skipped st
        \<and> sm_errors st' = sm_errors st"
    if t: "smart_try_entry fails fid e d st = (Inl err, d', st')"
    using smart_try_entry_cases [OF t] t by (simp add: smart_step_def)
  have B: "pdf_step fails fid (d, pst) e = (d', pst'\<lparr> pd_errors := pd_errors pst' + 1 \<rparr>)
        \<and> schedules d' = schedules d \<and> db_extends d d'
        \<and> pd_imported pst' = pd_imported pst \<and> pd_skipped pst' = pd_skipped pst
        \<and> pd_errors pst' = pd_errors pst"
    if t: "pdf_try_entry fails fid e d (pst\<lparr> pd_processed := pd_processed pst + 1 \<rparr>)
         = (Inl err, d', pst')"
    using pdf_try_entry_cases [OF t] t by (simp add: pdf_step_def)
  have C: "complete_step fails fid fsid ntid (d, cst) ce = (d', cst')
        \<and> schedules d' = schedules d \<and> db_extends d d'
        \<and> co_imported cst' = co_imported cst \<and> co_skipped cst' = co_skipped cst"
    if t: "complete_try_entry fails fid fsid ntid ce d cst = (Inl err, d', cst')"
    using complete_try_entry_cases [OF t] t by (simp add: complete_step_def)
  have D: "foldl (complete_step fails fid fsid ntid) cs (cesa @ ce # cesb)
       = foldl (complete_step fails fid fsid ntid)
           (complete_step fails fid fsid ntid
              (foldl (complete_step fails fid fsid ntid) cs cesa) ce) cesb"
    by simp
  show ?thesis
    using A B C D smart_import_count [of fails es fl d sst sd]
      pdf_import_count [of fails es fl d pstf pd]
    by blast
qed

lemma example_smart_failure:
  "smart_import_to_database (fails_at 4) [example_entry] 2 empty_db =
     (Inr \<lparr> sm_total = 1, sm_imported = 0, sm_skipped = 0, sm_errors = 1,
            sm_classes_created = {Some ''5A''},
            sm_teachers_created = {Some ''Mr. Ali''},
            sm_subjects_created = {Some ''Math''} \<rparr>,
      \<lparr> floors = [\<lparr> fl_id = 1, fl_name = DefaultFloorName 2, fl_number = 2 \<rparr>],
        classes = [\<lparr> cl_id = 1, cl_name = ''5A'', cl_floor_id = 1 \<rparr>],
        teachers = [\<lparr> te_id = 1, te_name = ''Mr. Ali'' \<rparr>],
        subjects = [\<lparr> su_id = 1, su_name = ''Math'' \<rparr>], schedules = [],
        attendances = [], commit_no = 5 \<rparr>)"
  by (simp add: smart_import_to_database_def smart_step_def smart_try_entry_def db_eval)

lemma example_complete_failure:
  "complete_import_to_database (fails_at 4) [example_free_entry] 2 False empty_db =
     (Inr \<lparr> co_total = 1, co_imported = 0, co_free_periods = 0, co_academic = 0,
            co_skipped = 0, co_classes_created = {Some ''5A''} \<rparr>,
      \<lparr> floors = [\<lparr> fl_id = 1, fl_name = DefaultFloorName 2, fl_number = 2 \<rparr>],
        classes = [\<lparr> cl_id = 1, cl_name = ''5A'', cl_floor_id = 1 \<rparr>],
        teachers = [\<lparr> te_id = 1, te_name = ''No Teacher'' \<rparr>],
        subjects = [\<lparr> su_id = 1, su_name = ''Free Period'' \<rparr>], schedules = [],
        attendances = [], commit_no = 5 \<rparr>)"
  by (simp add: complete_import_to_database_def complete_step_def complete_try_entry_def db_eval)

text \<open>
  C9 as stated fails: when the commit of the schedule row is rejected, the class, teacher and
  subject rows created for that entry are already committed and stay;
  \<open>import_complete_schedules\<close> counts the failure nowhere.
\<close>

theorem import_failure_counterexample:
  "smart_import_to_database (fails_at 4) [example_entry] 2 empty_db =
     (Inr \<lparr> sm_total = 1, sm_imported = 0, sm_skipped = 0, sm_errors = 1,
            sm_classes_created = {Some ''5A''},
            sm_teachers_created = {Some ''Mr. Ali''},
            sm_subjects_created = {Some ''Math''} \<rparr>,
      \<lparr> floors = [\<lparr> fl_id = 1, fl_name = DefaultFloorName 2, fl_number = 2 \<rparr>],
        classes = [\<lparr> cl_id = 1, cl_name = ''5A'', cl_floor_id = 1 \<rparr>],
        teachers = [\<lparr> te_id = 1, te_name = ''Mr. Ali'' \<rparr>],
        subjects = [\<lparr> su_id = 1, su_name = ''Math'' \<rparr>], schedules = [],
        attendances = [], commit_no = 5 \<rparr>)
   \<and> complete_import_to_database (fails_at 4) [example_free_entry] 2 False empty_db =
     (Inr \<lparr> co_total = 1, co_imported = 0, co_free_periods = 0, co_academic = 0,
            co_skipped = 0, co_classes_created = {Some ''5A''} \<rparr>,
      \<lparr> floors = [\<lparr> fl_id = 1, fl_name = DefaultFloorName 2, fl_number = 2 \<rparr>],
        classes = [\<lparr> cl_id = 1, cl_name = ''5A'', cl_floor_id = 1 \<rparr>],
        teachers = [\<lparr> te_id = 1, te_name = ''No Teacher'' \<rparr>],
        subjects = [\<lparr> su_id = 1, su_name = ''Free Period'' \<rparr>], schedules = [],
        attendances = [], commit_no = 5 \<rparr>)"
  using example_smart_failure example_complete_failure by simp

lemma example_pdf_failure:
  "fst (import_schedule_to_database (fails_at 4) [example_entry] 2 empty_db)
     = Inr \<lparr> pd_processed = 1, pd_imported = 0, pd_skipped = 0, pd_errors = 1,
             pd_classes_created = 1, pd_teachers_created = 1, pd_subjects_created = 1 \<rparr>"
  by (simp add: import_schedule_to_database_def pdf_step_def pdf_try_entry_def db_eval)

lemma example_smart_try_failure:
  "fst (smart_try_entry (fails_at 3) 1 example_entry empty_db
          \<lparr> sm_total = 1, sm_imported = 0, sm_skipped = 0, sm_errors = 0,
            sm_classes_created = {}, sm_teachers_created = {}, sm_subjects_created = {} \<rparr>)
     = Inl OperationalError"
  by (simp add: smart_try_entry_def db_eval)

lemma example_pdf_try_failure:
  "fst (pdf_try_entry (fails_at 3) 1 example_entry empty_db
          (\<lparr> pd_processed = 0, pd_imported = 0, pd_skipped = 0, pd_errors = 0,
             pd_classes_created = 0, pd_teachers_created = 0, pd_subjects_created = 0 \<rparr>
           \<lparr> pd_processed := pd_processed
               \<lparr> pd_processed = 0, pd_imported = 0, pd_skipped = 0, pd_errors = 0,
                 pd_classes_created = 0, pd_teachers_created = 0,
                 pd_subjects_created = 0 \<rparr> + 1 \<rparr>))
     = Inl OperationalError"
  by (simp add: pdf_try_entry_def db_eval)

lemma example_complete_try_failure:
  "fst (complete_try_entry (fails_at 1) 1 1 1 example_free_entry empty_db
          \<lparr> co_total = 1, co_imported = 0, co_free_periods = 0, co_academic = 0,
            co_skipped = 0, co_classes_created = {} \<rparr>)
     = Inl OperationalError"
  by (simp add: complete_try_entry_def db_eval)

theorem import_failure_is_isolated_witness:
  "fst (smart_try_entry (fails_at 3) 1 example_entry empty_db
          \<lparr> sm_total = 1, sm_imported = 0, sm_skipped = 0, sm_errors = 0,
            sm_classes_created = {}, sm_teachers_created = {}, sm_subjects_created = {} \<rparr>)
     = Inl OperationalError
   \<and> schedules (fst (snd (smart_try_entry (fails_at 3) 1 example_entry empty_db
          \<lparr> sm_total = 1, sm_imported = 0, sm_skipped = 0, sm_errors = 0,
            sm_classes_created = {}, sm_teachers_created = {}, sm_subjects_created = {} \<rparr>)))
     = schedules empty_db
   \<and> (\<exists>sst. fst (smart_import_to_database (fails_at 4) [example_entry] 2 empty_db) = Inr sst
          \<and> sm_imported sst + sm_skipped sst + sm_errors sst = length [example_entry])
   \<and> schedules (fst (snd (pdf_try_entry (fails_at 3) 1 example_entry empty_db
          (\<lparr> pd_processed = 0, pd_imported = 0, pd_skipped = 0, pd_errors = 0,
             pd_classes_created = 0, pd_teachers_created = 0, pd_subjects_created = 0 \<rparr>
           \<lparr> pd_processed := pd_processed
               \<lparr> pd_processed = 0, pd_imported = 0, pd_skipped = 0, pd_errors = 0,
                 pd_classes_created = 0, pd_teachers_created = 0,
                 pd_subjects_created = 0 \<rparr> + 1 \<rparr>))))
     = schedules empty_db
   \<and> (\<exists>pst. fst (import_schedule_to_database (fails_at 4) [example_entry] 2 empty_db)
            = Inr pst
          \<and> pd_imported pst + pd_skipped pst + pd_errors pst = length [example_entry])
   \<and> schedules (fst (snd (complete_try_entry (fails_at 1) 1 1 1 example_free_entry empty_db
          \<lparr> co_total = 1, co_imported = 0, co_free_periods = 0, co_academic = 0,
            co_skipped = 0, co_classes_created = {} \<rparr>)))
     = schedules empty_db"
proof -
  let ?S0 = "\<lparr> sm_total = 1, sm_imported = 0, sm_skipped = 0, sm_errors = 0,
            sm_classes_created = {}, sm_teachers_created = {}, sm_subjects_created = {} \<rparr>"
  let ?P0 = "\<lparr> pd_processed = 0, pd_imported = 0, pd_skipped = 0, pd_errors = 0,
             pd_classes_created = 0, pd_teachers_created = 0, pd_subjects_created = 0 \<rparr>"
  let ?C0 = "\<lparr> co_total = 1, co_imported = 0, co_free_periods = 0, co_academic = 0,
            co_skipped = 0, co_classes_created = {} \<rparr>"
  let ?X = "smart_try_entry (fails_at 3) 1 example_entry empty_db ?S0"
  let ?Y = "smart_import_to_database (fails_at 4) [example_entry] 2 empty_db"
  let ?Z = "pdf_try_entry (fails_at 3) 1 example_entry empty_db
              (?P0\<lparr> pd_processed := pd_processed ?P0 + 1 \<rparr>)"
  let ?W = "import_schedule_to_database (fails_at 4) [example_entry] 2 empty_db"
  let ?V = "complete_try_entry (fails_at 1) 1 1 1 example_free_entry empty_db ?C0"
  have x: "?X = (Inl OperationalError, fst (snd ?X), snd (snd ?X))"
    using example_smart_try_failure by (metis prod.collapse)
  have z: "?Z = (Inl OperationalError, fst (snd ?Z), snd (snd ?Z))"
    using example_pdf_try_failure by (metis prod.collapse)
  have v: "?V = (Inl OperationalError, fst (snd ?V), snd (snd ?V))"
    using example_complete_try_failure by (metis prod.collapse)
  obtain sst where y: "?Y = (Inr sst, snd ?Y)"
    using example_smart_failure by (metis snd_conv)
  obtain pst where w: "?W = (Inr pst, snd ?W)"
    using example_pdf_failure by (metis prod.collapse)
  have A: "schedules (fst (snd ?X)) = schedules empty_db"
    using x import_failure_is_isolated
      [where fails = "fails_at 3" and fid = 1 and e = example_entry and d = empty_db
         and st = ?S0 and err = OperationalError and d' = "fst (snd ?X)"
         and st' = "snd (snd ?X)"]
    by blast
  have B: "sm_imported sst + sm_skipped sst + sm_errors sst = length [example_entry]"
    using y import_failure_is_isolated
      [where fails = "fails_at 4" and es = "[example_entry]" and fl = 2 and d = empty_db
         and sst = sst and sd = "snd ?Y"]
    by blast
  have C: "schedules (fst (snd ?Z)) = schedules empty_db"
    using z import_failure_is_isolated
      [where fails = "fails_at 3" and fid = 1 and e = example_entry and d = empty_db
         and pst = ?P0 and err = OperationalError and d' = "fst (snd ?Z)"
         and pst' = "snd (snd ?Z)"]
    by blast
  have D: "pd_imported pst + pd_skipped pst + pd_errors pst = length [example_entry]"
    using w import_failure_is_isolated
      [where fails = "fails_at 4" and es = "[example_entry]" and fl = 2 and d = empty_db
         and pstf = pst and pd = "snd ?W"]
    by blast
  have E: "schedules (fst (snd ?V)) = schedules empty_db"
    using v import_failure_is_isolated
      [where fails = "fails_at 1" and fid = 1 and fsid = 1 and ntid = 1
         and ce = example_free_entry and d = empty_db and cst = ?C0
         and err = OperationalError and d' = "fst (snd ?V)" and cst' = "snd (snd ?V)"]
    by blast
  have y': "fst ?Y = Inr sst" using y by (metis fst_conv)
  have w': "fst ?W = Inr pst" using w by (metis fst_conv)
  show ?thesis
    using example_smart_try_failure A B C D E y' w' by blast
qed


section \<open>Invalid entries and duplicates in the import scripts\<close>

lemma pdf_try_entry_invalid:
  assumes "pdf_invalid e"
  obtains d' st' where "pdf_try_entry no_failure fid e d st = (Inr (), d', st')"
    and "schedules d' = schedules d"
    and "pd_skipped st' = pd_skipped st + 1" and "pd_imported st' = pd_imported st"
    and "pd_errors st' = pd_errors st"
proof (cases "day e = None \<or> start_time e = None \<or> end_time e = None
              \<or> \<not> truthy (class_name e)")
  case True
  then have "pdf_try_entry no_failure fid e d st
               = (Inr (), d, st\<lparr> pd_skipped := pd_skipped st + 1 \<rparr>)"
    by (auto simp: pdf_try_entry_def)
  then show ?thesis using that by simp
next
  case False
  then have cn: "class_name e \<noteq> None" by (auto dest: truthy_not_None)
  obtain cid b1 d1 where g1: "get_or_create_class no_failure (class_name e) fid d
      = (Inr (cid, b1), d1)"
    using get_or_create_class_no_failure [OF cn] by metis
  have s1: "schedules d1 = schedules d" using get_or_create_class_schedules [OF g1] .
  show ?thesis
  proof (cases "truthy (teacher e)")
    case nt: False
    let ?s1 = "if b1 then st\<lparr> pd_classes_created := pd_classes_created st + 1 \<rparr> else st"
    have eq: "pdf_try_entry no_failure fid e d st
                = (Inr (), d1, ?s1\<lparr> pd_skipped := pd_skipped ?s1 + 1 \<rparr>)"
      using False nt by (auto simp: pdf_try_entry_def g1 Let_def)
    show ?thesis by (rule that [OF eq s1]) simp_all
  next
    case t: True
    then have tn: "teacher e \<noteq> None" by (rule truthy_not_None)
    obtain tid b2 d2 where g2: "get_or_create_teacher no_failure (teacher e) d1
        = (Inr (tid, b2), d2)"
      using get_or_create_teacher_no_failure [OF tn] by metis
    have s2: "schedules d2 = schedules d"
      using s1 get_or_create_teacher_schedules [OF g2] by simp
    from assms False t have ns: "\<not> truthy (subject e)" by (auto simp: pdf_invalid_def)
    let ?s1 = "if b1 then st\<lparr> pd_classes_created := pd_classes_created st + 1 \<rparr> else st"
    let ?s2 = "if b2 then ?s1\<lparr> pd_teachers_created := pd_teachers_created ?s1 + 1 \<rparr>
               else ?s1"
    have eq: "pdf_try_entry no_failure fid e d st
                = (Inr (), d2, ?s2\<lparr> pd_skipped := pd_skipped ?s2 + 1 \<rparr>)"
      using False t ns by (auto simp: pdf_try_entry_def g1 g2 Let_def)
    show ?thesis by (rule that [OF eq s2]) simp_all
  qed
qed

lemma pdf_try_entry_taken:
  assumes "\<not> pdf_invalid e" and "key_taken fid d e"
  obtains d' st' where "pdf_try_entry no_failure fid e d st = (Inr (), d', st')"
    and "schedules d' = schedules d"
    and "pd_skipped st' = pd_skipped st + 1" and "pd_imported st' = pd_imported st"
    and "pd_errors st' = pd_errors st"
proof -
  from assms(1) have v: "day e \<noteq> None" "start_time e \<noteq> None" "end_time e \<noteq> None"
    "truthy (class_name e)" "truthy (teacher e)" "truthy (subject e)"
    by (auto simp: pdf_invalid_def)
  then have ok: "teacher e \<noteq> None" "subject e \<noteq> None" by (auto dest: truthy_not_None)
  from assms(2) obtain c r where c: "find_class (class_name e) fid d = Some c"
    and r: "find_schedule (cl_id c) (day e) (start_time e) (end_time e) d = Some r"
    by (auto simp: key_taken_def split: option.splits)
  have g1: "get_or_create_class no_failure (class_name e) fid d = (Inr (cl_id c, False), d)"
    using c by (simp add: get_or_create_class_def)
  obtain tid b2 d2 where g2: "get_or_create_teacher no_failure (teacher e) d
      = (Inr (tid, b2), d2)"
    using get_or_create_teacher_no_failure [OF ok(1)] by metis
  obtain sid b3 d3 where g3: "get_or_create_subject no_failure (subject e) d2
      = (Inr (sid, b3), d3)"
    using get_or_create_subject_no_failure [OF ok(2)] by metis
  have s: "schedules d3 = schedules d"
    using get_or_create_teacher_schedules [OF g2] get_or_create_subject_schedules [OF g3]
    by simp
  have f: "find_schedule (cl_id c) (day e) (start_time e) (end_time e) d3 = Some r"
    using r find_schedule_same [OF s] by simp
  let ?s2 = "if b2 then st\<lparr> pd_teachers_created := pd_teachers_created st + 1 \<rparr> else st"
  let ?s3 = "if b3 then ?s2\<lparr> pd_subjects_created := pd_subjects_created ?s2 + 1 \<rparr>
             else ?s2"
  have eq: "pdf_try_entry no_failure fid e d st
              = (Inr (), d3, ?s3\<lparr> pd_skipped := pd_skipped ?s3 + 1 \<rparr>)"
    using v by (auto simp: pdf_try_entry_def g1 g2 g3 f Let_def)
  show ?thesis by (rule that [OF eq s]) simp_all
qed

lemma pdf_step_skips:
  assumes "pdf_invalid e \<or> key_taken fid d e"
    and "pdf_step no_failure fid (d, st) e = (d', st')"
  shows "pd_skipped st' = pd_skipped st + 1 \<and> pd_imported st' = pd_imported st
     \<and> pd_errors st' = pd_errors st \<and> pd_processed st' = pd_processed st + 1
     \<and> schedules d' = schedules d"
proof -
  let ?st = "st\<lparr> pd_processed := pd_processed st + 1 \<rparr>"
  obtain d1 st1 where t: "pdf_try_entry no_failure fid e d ?st = (Inr (), d1, st1)"
    and f: "schedules d1 = schedules d" "pd_skipped st1 = pd_skipped ?st + 1"
      "pd_imported st1 = pd_imported ?st" "pd_errors st1 = pd_errors ?st"
  proof (cases "pdf_invalid e")
    case True
    then show ?thesis using pdf_try_entry_invalid [of e fid d ?st] that by metis
  next
    case False
    with assms(1) have "key_taken fid d e" by simp
    with False show ?thesis using pdf_try_entry_taken [of e fid d ?st] that by metis
  qed
  from pdf_try_entry_cases [OF t] have "pd_processed st1 = pd_processed ?st" by simp
  with t f assms(2) show ?thesis by (simp add: pdf_step_def)
qed

lemma remaining_try_entry_invalid:
  assumes "\<not> remaining_valid e"
  shows "remaining_try_entry fails fid e d st
           = (Inr (), d, st\<lparr> rf_skipped_invalid := rf_skipped_invalid st + 1 \<rparr>)"
  using assms by (simp add: remaining_try_entry_def)

lemma remaining_try_entry_cases:
  assumes "remaining_valid e" and "remaining_try_entry fails fid e d st = (r, d', st')"
  shows "db_extends d d'
     \<and> rf_total st' = rf_total st \<and> rf_errors st' = rf_errors st
     \<and> rf_skipped_invalid st' = rf_skipped_invalid st
     \<and> (case r of
          Inl err \<Rightarrow> schedules d' = schedules d \<and> rf_imported st' = rf_imported st
                     \<and> rf_skipped_duplicate st' = rf_skipped_duplicate st
        | Inr u \<Rightarrow> (schedules d' = schedules d \<and> rf_imported st' = rf_imported st
                      \<and> rf_skipped_duplicate st' = rf_skipped_duplicate st + 1)
                 \<or> (length (schedules d') = length (schedules d) + 1
                      \<and> rf_imported st' = rf_imported st + 1
                      \<and> rf_skipped_duplicate st' = rf_skipped_duplicate st))"
proof -
  note v = assms(1)
  note t = assms(2)
  obtain ra da where g1: "get_or_create_class fails (class_name e) fid d = (ra, da)"
    by (cases "get_or_create_class fails (class_name e) fid d")
  obtain rb db where g2: "get_or_create_teacher fails (teacher e) da = (rb, db)"
    by (cases "get_or_create_teacher fails (teacher e) da")
  obtain rc dc where g3: "get_or_create_subject fails (subject e) db = (rc, dc)"
    by (cases "get_or_create_subject fails (subject e) db")
  note ext = get_or_create_class_extends [OF g1] get_or_create_teacher_extends [OF g2]
    get_or_create_subject_extends [OF g3]
  note sch = get_or_create_class_schedules [OF g1] get_or_create_teacher_schedules [OF g2]
    get_or_create_subject_schedules [OF g3]
  show ?thesis
  proof (cases ra)
    case (Inl err)
    with v t g1 ext sch show ?thesis by (auto simp: remaining_try_entry_def)
  next
    case c1: (Inr a1)
    show ?thesis
    proof (cases rb)
      case (Inl err)
      with v t g1 g2 c1 ext sch show ?thesis
        by (auto simp: remaining_try_entry_def Let_def dest: db_extends_trans
            split: prod.splits)
    next
      case c2: (Inr a2)
      show ?thesis
      proof (cases rc)
        case (Inl err)
        with v t g1 g2 g3 c1 c2 ext sch show ?thesis
          by (auto simp: remaining_try_entry_def Let_def dest: db_extends_trans
              split: prod.splits)
      next
        case c3: (Inr a3)
        have e13: "db_extends d dc" using ext db_extends_trans by blast
        have s13: "schedules dc = schedules d" using sch by simp
        obtain cid cn tid tn sid sn where a: "a1 = (cid, cn)" "a2 = (tid, tn)" "a3 = (sid, sn)"
          by (cases a1, cases a2, cases a3) auto
        show ?thesis
        proof (cases "find_schedule cid (day e) (start_time e) (end_time e) dc")
          case (Some x)
          with v t g1 g2 g3 c1 c2 c3 a e13 s13 show ?thesis
            by (auto simp: remaining_try_entry_def Let_def)
        next
          case None
          obtain rd dd where g4: "add_schedule fails cid tid sid (day e) (start_time e)
              (end_time e) dc = (rd, dd)"
            by (cases "add_schedule fails cid tid sid (day e) (start_time e) (end_time e) dc")
          have e4: "db_extends d dd"
            using e13 add_schedule_extends [OF g4] db_extends_trans by blast
          show ?thesis
          proof (cases rd)
            case (Inl err)
            with v t g1 g2 g3 g4 c1 c2 c3 a None e4 s13
              add_schedule_failed [of fails cid tid sid "day e" "start_time e" "end_time e"
                dc err dd]
            show ?thesis by (auto simp: remaining_try_entry_def Let_def)
          next
            case (Inr i)
            with g4 have "length (schedules dd) = length (schedules dc) + 1"
              by (auto simp: add_schedule_def bump_def Let_def split: option.splits if_splits)
            with Inr v t g1 g2 g3 g4 c1 c2 c3 a None e4 s13
            show ?thesis by (auto simp: remaining_try_entry_def Let_def)
          qed
        qed
      qed
    qed
  qed
qed

lemma remaining_step_count:
  assumes "remaining_step fails fid (d, st) e = (d', st')"
  shows "db_extends d d' \<and> rf_total st' = rf_total st
     \<and> rf_skipped_invalid st'
       = rf_skipped_invalid st + length (filter (\<lambda>x. \<not> remaining_valid x) [e])
     \<and> rf_imported st' + rf_skipped_duplicate st' + rf_errors st'
       = rf_imported st + rf_skipped_duplicate st + rf_errors st
         + length (filter remaining_valid [e])"
proof (cases "remaining_valid e")
  case False
  with assms show ?thesis
    by (auto simp: remaining_step_def remaining_try_entry_invalid db_extends_def)
next
  case True
  obtain r da sta where t: "remaining_try_entry fails fid e d st = (r, da, sta)"
    by (cases "remaining_try_entry fails fid e d st")
  from remaining_try_entry_cases [OF True t] assms t True show ?thesis
    by (auto simp: remaining_step_def split: sum.splits)
qed

lemma remaining_fold_count:
  "foldl (remaining_step fails fid) (d, st) es = (d', st') \<Longrightarrow>
     db_extends d d' \<and> rf_total st' = rf_total st
     \<and> rf_skipped_invalid st'
       = rf_skipped_invalid st + length (filter (\<lambda>x. \<not> remaining_valid x) es)
     \<and> rf_imported st' + rf_skipped_duplicate st' + rf_errors st'
       = rf_imported st + rf_skipped_duplicate st + rf_errors st
         + length (filter remaining_valid es)"
proof (induction es arbitrary: d st)
  case Nil
  then show ?case by (simp add: db_extends_def)
next
  case (Cons e es)
  obtain da sta where s: "remaining_step fails fid (d, st) e = (da, sta)"
    by (cases "remaining_step fails fid (d, st) e")
  from Cons.prems s have "foldl (remaining_step fails fid) (da, sta) es = (d', st')" by simp
  from Cons.IH [OF this] remaining_step_count [OF s] show ?case
    by (auto dest: db_extends_trans)
qed

lemma remaining_import_count:
  assumes "remaining_import_to_database fails es fl d = (Inr (Some st), d')"
  shows "rf_total st = length es
     \<and> rf_skipped_invalid st = length (filter (\<lambda>x. \<not> remaining_valid x) es)
     \<and> rf_imported st + rf_skipped_duplicate st + rf_errors st
       = length (filter remaining_valid es)"
proof -
  from assms have ne: "es \<noteq> []"
    by (auto simp: remaining_import_to_database_def)
  with assms obtain fid d0 where g: "get_or_create_floor fails fl d = (Inr fid, d0)"
    by (auto simp: remaining_import_to_database_def split: prod.splits sum.splits)
  let ?st0 = "\<lparr> rf_total = length es, rf_imported = 0,
                        rf_skipped_duplicate = 0, rf_skipped_invalid = 0, rf_errors = 0,
                        rf_classes_created = {}, rf_teachers_created = {},
                        rf_subjects_created = {} \<rparr>"
  obtain da sta where l: "foldl (remaining_step fails fid) (d0, ?st0) es = (da, sta)"
    by (cases "foldl (remaining_step fails fid) (d0, ?st0) es")
  from assms g l ne have "st = sta"
    by (simp add: remaining_import_to_database_def Let_def)
  with remaining_fold_count [OF l] show ?thesis by simp
qed

lemma remaining_step_invalid:
  assumes "\<not> remaining_valid e" and "remaining_step fails fid (d, st) e = (d', st')"
  shows "d' = d \<and> rf_skipped_invalid st' = rf_skipped_invalid st + 1
     \<and> rf_skipped_duplicate st' = rf_skipped_duplicate st
     \<and> rf_imported st' = rf_imported st \<and> rf_errors st' = rf_errors st"
  using assms by (auto simp: remaining_step_def remaining_try_entry_invalid)

lemma remaining_step_taken:
  assumes "remaining_valid e" and "key_taken fid d e"
    and "remaining_step no_failure fid (d, st) e = (d', st')"
  shows "schedules d' = schedules d
     \<and> rf_skipped_duplicate st' = rf_skipped_duplicate st + 1
     \<and> rf_skipped_invalid st' = rf_skipped_invalid st
     \<and> rf_imported st' = rf_imported st \<and> rf_errors st' = rf_errors st"
proof -
  from assms(1) have ok: "teacher e \<noteq> None" "subject e \<noteq> None"
    by (auto simp: remaining_valid_def dest: truthy_not_None)
  from assms(2) obtain c r where c: "find_class (class_name e) fid d = Some c"
    and r: "find_schedule (cl_id c) (day e) (start_time e) (end_time e) d = Some r"
    by (auto simp: key_taken_def split: option.splits)
  have g1: "get_or_create_class no_failure (class_name e) fid d = (Inr (cl_id c, False), d)"
    using c by (simp add: get_or_create_class_def)
  obtain tid bb db where g2: "get_or_create_teacher no_failure (teacher e) d
      = (Inr (tid, bb), db)"
    using get_or_create_teacher_no_failure [OF ok(1)] by metis
  obtain sid bc dc where g3: "get_or_create_subject no_failure (subject e) db
      = (Inr (sid, bc), dc)"
    using get_or_create_subject_no_failure [OF ok(2)] by metis
  have s: "schedules dc = schedules d"
    using get_or_create_teacher_schedules [OF g2] get_or_create_subject_schedules [OF g3]
    by simp
  have f: "find_schedule (cl_id c) (day e) (start_time e) (end_time e) dc = Some r"
    using r find_schedule_same [OF s] by simp
  let ?s2 = "if bb then st\<lparr> rf_teachers_created := insert (teacher e) (rf_teachers_created st) \<rparr>
             else st"
  let ?s3 = "if bc then ?s2\<lparr> rf_subjects_created := insert (subject e) (rf_subjects_created ?s2) \<rparr>
             else ?s2"
  have eq: "remaining_try_entry no_failure fid e d st
              = (Inr (), dc, ?s3\<lparr> rf_skipped_duplicate := rf_skipped_duplicate ?s3 + 1 \<rparr>)"
    using assms(1) by (auto simp: remaining_try_entry_def g1 g2 g3 f Let_def)
  from assms(3) eq s show ?thesis by (auto simp: remaining_step_def)
qed

lemma get_or_create_class_missing:
  "get_or_create_class fails None fid d = (r, d') \<Longrightarrow> \<exists>err. r = Inl err"
  by (auto simp: get_or_create_class_def find_class_def add_class_def split: if_splits)

lemma get_or_create_teacher_missing:
  "get_or_create_teacher fails None d = (r, d') \<Longrightarrow> \<exists>err. r = Inl err"
  by (auto simp: get_or_create_teacher_def find_teacher_def add_teacher_def split: if_splits)

lemma get_or_create_subject_missing:
  "get_or_create_subject fails None d = (r, d') \<Longrightarrow> \<exists>err. r = Inl err"
  by (auto simp: get_or_create_subject_def find_subject_def add_subject_def split: if_splits)

lemma find_schedule_missing:
  "dw = None \<or> s = None \<or> en = None \<Longrightarrow> find_schedule cid dw s en d = None"
  by (auto simp: find_schedule_def split: option.splits)

lemma add_schedule_missing:
  "dw = None \<or> s = None \<or> en = None \<Longrightarrow> add_schedule fails cid tid sid dw s en d = (r, d')
     \<Longrightarrow> \<exists>err. r = Inl err"
  by (auto simp: add_schedule_def split: option.splits if_splits)

lemma smart_try_entry_missing:
  assumes "\<not> entry_ok e" and "smart_try_entry fails fid e d st = (r, d', st')"
  shows "\<exists>err. r = Inl err"
proof -
  note t = assms(2)
  obtain ra da where g1: "get_or_create_class fails (class_name e) fid d = (ra, da)"
    by (cases "get_or_create_class fails (class_name e) fid d")
  obtain rb db where g2: "get_or_create_teacher fails (teacher e) da = (rb, db)"
    by (cases "get_or_create_teacher fails (teacher e) da")
  obtain rc dc where g3: "get_or_create_subject fails (subject e) db = (rc, dc)"
    by (cases "get_or_create_subject fails (subject e) db")
  show ?thesis
  proof (cases ra)
    case (Inl err)
    with t g1 show ?thesis by (auto simp: smart_try_entry_def)
  next
    case c1: (Inr a1)
    have n1: "class_name e \<noteq> None"
    proof
      assume "class_name e = None"
      with g1 c1 get_or_create_class_missing [of fails fid d ra da] show False by simp
    qed
    show ?thesis
    proof (cases rb)
      case (Inl err)
      with t g1 g2 c1 show ?thesis
        by (auto simp: smart_try_entry_def Let_def split: prod.splits)
    next
      case c2: (Inr a2)
      have n2: "teacher e \<noteq> None"
      proof
        assume "teacher e = None"
        with g2 c2 get_or_create_teacher_missing [of fails da rb db] show False by simp
      qed
      show ?thesis
      proof (cases rc)
        case (Inl err)
        with t g1 g2 g3 c1 c2 show ?thesis
          by (auto simp: smart_try_entry_def Let_def split: prod.splits)
      next
        case c3: (Inr a3)
        have n3: "subject e \<noteq> None"
        proof
          assume "subject e = None"
          with g3 c3 get_or_create_subject_missing [of fails db rc dc] show False by simp
        qed
        from assms(1) n1 n2 n3 have m: "day e = None \<or> start_time e = None \<or> end_time e = None"
          unfolding entry_ok_def by blast
        obtain cid cn tid tn sid sn where a: "a1 = (cid, cn)" "a2 = (tid, tn)" "a3 = (sid, sn)"
          by (cases a1, cases a2, cases a3) auto
        have f: "find_schedule cid (day e) (start_time e) (end_time e) dc = None"
          using find_schedule_missing [OF m] .
        obtain rd dd where g4: "add_schedule fails cid tid sid (day e) (start_time e)
            (end_time e) dc = (rd, dd)"
          by (cases "add_schedule fails cid tid sid (day e) (start_time e) (end_time e) dc")
        from add_schedule_missing [OF m g4] obtain err where "rd = Inl err" by blast
        with t g1 g2 g3 g4 c1 c2 c3 a f show ?thesis
          by (auto simp: smart_try_entry_def Let_def)
      qed
    qed
  qed
qed

lemma smart_step_missing:
  assumes "\<not> entry_ok e" and "smart_step fails fid (d, st) e = (d', st')"
  shows "sm_errors st' = sm_errors st + 1 \<and> sm_skipped st' = sm_skipped st
     \<and> sm_imported st' = sm_imported st \<and> schedules d' = schedules d"
proof -
  obtain r da sta where t: "smart_try_entry fails fid e d st = (r, da, sta)"
    by (cases "smart_try_entry fails fid e d st")
  from smart_try_entry_missing [OF assms(1) t] obtain err where r: "r = Inl err" by blast
  from smart_try_entry_cases [OF t] r assms(2) t show ?thesis
    by (auto simp: smart_step_def)
qed

lemma example_pdf_mixed_batch:
  "import_schedule_to_database no_failure
       [example_entry\<lparr> subject := None \<rparr>, example_entry] 2 example_school_db
     = (Inr \<lparr> pd_processed = 2, pd_imported = 0, pd_skipped = 2, pd_errors = 0,
              pd_classes_created = 0, pd_teachers_created = 0, pd_subjects_created = 0 \<rparr>,
        example_school_db)"
  by (simp add: import_schedule_to_database_def pdf_step_def pdf_try_entry_def db_eval)

lemma example_remaining_mixed_batch:
  "remaining_import_to_database no_failure
       [example_entry\<lparr> subject := None \<rparr>, example_entry] 2 example_school_db
     = (Inr (Some \<lparr> rf_total = 2, rf_imported = 0, rf_skipped_duplicate = 1,
                    rf_skipped_invalid = 1, rf_errors = 0, rf_classes_created = {},
                    rf_teachers_created = {}, rf_subjects_created = {} \<rparr>),
        example_school_db)"
  by (simp add: remaining_import_to_database_def remaining_step_def remaining_try_entry_def
      remaining_valid_def db_eval)

lemma example_smart_missing_field:
  "smart_import_to_database no_failure [example_entry\<lparr> subject := None \<rparr>] 2 example_school_db
     = (Inr \<lparr> sm_total = 1, sm_imported = 0, sm_skipped = 0, sm_errors = 1,
              sm_classes_created = {}, sm_teachers_created = {}, sm_subjects_created = {} \<rparr>,
        \<lparr> floors = [\<lparr> fl_id = 1, fl_name = DefaultFloorName 2, fl_number = 2 \<rparr>],
          classes = [\<lparr> cl_id = 1, cl_name = ''5A'', cl_floor_id = 1 \<rparr>],
          teachers = [\<lparr> te_id = 1, te_name = ''Mr. Ali'' \<rparr>],
          subjects = [\<lparr> su_id = 1, su_name = ''Math'' \<rparr>],
          schedules = [\<lparr> sc_id = 1, sc_class_id = 1, sc_teacher_id = 1, sc_subject_id = 1,
                         sc_day_of_week = 0, sc_start_time = (8, 30), sc_end_time = (9, 5) \<rparr>],
          attendances = [], commit_no = 1 \<rparr>)"
  by (simp add: smart_import_to_database_def smart_step_def smart_try_entry_def db_eval)

text \<open>
  C3 (amended). In \<open>import_remaining_floors.import_to_database\<close>, for every entry
  processed, a missing required field (class name, subject, instructor, start or end time,
  or a null day) adds one to \<open>skipped_invalid\<close> and to no other counter, whatever the store
  does, and the database is left as it is; a valid entry whose natural key is taken, when
  no commit fails while it is processed, adds one to \<open>skipped_duplicate\<close>, a counter of
  its own, and none to \<open>skipped_invalid\<close>. The loop handles every entry of the batch:
  \<open>skipped_invalid\<close> ends as the number of invalid entries, and each valid entry is
  counted once in \<open>imported\<close>, \<open>skipped_duplicate\<close> or \<open>errors\<close>.
  In \<open>import_schedule_from_pdf\<close> an entry with a missing required field, when no commit
  fails while it is processed, is skipped as well: it is counted in \<open>skipped\<close>, not in
  \<open>errors\<close>, adds no schedule row, and the loop goes on to the end of the batch.
  \<open>import_schedule_smart\<close> has no validation: an entry with a field that is \<open>None\<close>
  raises at a commit and is counted in \<open>errors\<close>, not in \<open>skipped\<close>, where the
  duplicates are counted; it adds no schedule row.
\<close>

theorem import_counts_invalid_and_duplicate_apart:
  "(\<not> remaining_valid e \<and> remaining_step fails fid (d, st) e = (d', st')
      \<longrightarrow> d' = d \<and> rf_skipped_invalid st' = rf_skipped_invalid st + 1
        \<and> rf_skipped_duplicate st' = rf_skipped_duplicate st
        \<and> rf_imported st' = rf_imported st \<and> rf_errors st' = rf_errors st)
   \<and> (remaining_valid e \<and> key_taken fid d e
        \<and> remaining_step no_failure fid (d, st) e = (d', st')
      \<longrightarrow> schedules d' = schedules d
        \<and> rf_skipped_duplicate st' = rf_skipped_duplicate st + 1
        \<and> rf_skipped_invalid st' = rf_skipped_invalid st
        \<and> rf_imported st' = rf_imported st \<and> rf_errors st' = rf_errors st)
   \<and> (remaining_import_to_database fails es fl d = (Inr (Some stf), df)
      \<longrightarrow> rf_total stf = length es
        \<and> rf_skipped_invalid stf = length (filter (\<lambda>x. \<not> remaining_valid x) es)
        \<and> rf_imported stf + rf_skipped_duplicate stf + rf_errors stf
          = length (filter remaining_valid es))
   \<and> (pdf_invalid e \<and> pdf_step no_failure fid (d, pst) e = (d', pst')
      \<longrightarrow> pd_skipped pst' = pd_skipped pst + 1 \<and> pd_imported pst' = pd_imported pst
        \<and> pd_errors pst' = pd_errors pst \<and> pd_processed pst' = pd_processed pst + 1
        \<and> schedules d' = schedules d)
   \<and> (import_schedule_to_database fails es fl d = (Inr pstf, pdb)
      \<longrightarrow> pd_processed pstf = length es
        \<and> pd_imported pstf + pd_skipped pstf + pd_errors pstf = length es)
   \<and> (\<not> entry_ok e \<and> smart_step fails fid (d, sst) e = (d', sst')
      \<longrightarrow> sm_errors sst' = sm_errors sst + 1 \<and> sm_skipped sst' = sm_skipped sst
        \<and> sm_imported sst' = sm_imported sst \<and> schedules d' = schedules d)"
  using remaining_step_invalid [of e fails fid d st d' st']
    remaining_step_taken [of e fid d st d' st']
    remaining_import_count [of fails es fl d stf df]
    pdf_step_skips [of e fid d pst d' pst'] pdf_import_count [of fails es fl d pstf pdb]
    smart_step_missing [of e fails fid d sst d' sst']
  by blast

text \<open>
  C3 as stated fails on two of the import scripts. The statistics of
  \<open>import_schedule_from_pdf\<close> have no \<open>skipped_invalid\<close>: a batch of one invalid
  entry and one duplicate ends with \<open>skipped = 2\<close>. \<open>import_schedule_smart\<close> does not
  validate: the entry without a subject is counted in \<open>errors\<close>.
\<close>

theorem skipped_invalid_counter_counterexample:
  "pdf_invalid (example_entry\<lparr> subject := None \<rparr>)
   \<and> \<not> pdf_invalid example_entry \<and> key_taken 1 example_school_db example_entry
   \<and> import_schedule_to_database no_failure
       [example_entry\<lparr> subject := None \<rparr>, example_entry] 2 example_school_db
     = (Inr \<lparr> pd_processed = 2, pd_imported = 0, pd_skipped = 2, pd_errors = 0,
              pd_classes_created = 0, pd_teachers_created = 0, pd_subjects_created = 0 \<rparr>,
        example_school_db)
   \<and> smart_import_to_database no_failure [example_entry\<lparr> subject := None \<rparr>] 2
       example_school_db
     = (Inr \<lparr> sm_total = 1, sm_imported = 0, sm_skipped = 0, sm_errors = 1,
              sm_classes_created = {}, sm_teachers_created = {}, sm_subjects_created = {} \<rparr>,
        \<lparr> floors = [\<lparr> fl_id = 1, fl_name = DefaultFloorName 2, fl_number = 2 \<rparr>],
          classes = [\<lparr> cl_id = 1, cl_name = ''5A'', cl_floor_id = 1 \<rparr>],
          teachers = [\<lparr> te_id = 1, te_name = ''Mr. Ali'' \<rparr>],
          subjects = [\<lparr> su_id = 1, su_name = ''Math'' \<rparr>],
          schedules = [\<lparr> sc_id = 1, sc_class_id = 1, sc_teacher_id = 1, sc_subject_id = 1,
                         sc_day_of_week = 0, sc_start_time = (8, 30), sc_end_time = (9, 5) \<rparr>],
          attendances = [], commit_no = 1 \<rparr>)"
  using example_pdf_mixed_batch example_smart_missing_field
  by (simp add: pdf_invalid_def key_taken_def db_eval)

theorem import_counts_invalid_and_duplicate_apart_witness:
  "\<not> remaining_valid (example_entry\<lparr> subject := None \<rparr>)
   \<and> rf_skipped_invalid (snd (remaining_step (fails_at 0) 1
          (example_school_db,
           \<lparr> rf_total = 2, rf_imported = 0, rf_skipped_duplicate = 0,
             rf_skipped_invalid = 0, rf_errors = 0, rf_classes_created = {},
             rf_teachers_created = {}, rf_subjects_created = {} \<rparr>)
          (example_entry\<lparr> subject := None \<rparr>))) = 0 + 1
   \<and> remaining_valid example_entry \<and> key_taken 1 example_school_db example_entry
   \<and> rf_skipped_duplicate (snd (remaining_step no_failure 1
          (example_school_db,
           \<lparr> rf_total = 2, rf_imported = 0, rf_skipped_duplicate = 0,
             rf_skipped_invalid = 0, rf_errors = 0, rf_classes_created = {},
             rf_teachers_created = {}, rf_subjects_created = {} \<rparr>)
          example_entry)) = 0 + 1
   \<and> rf_skipped_invalid (snd (remaining_step no_failure 1
          (example_school_db,
           \<lparr> rf_total = 2, rf_imported = 0, rf_skipped_duplicate = 0,
             rf_skipped_invalid = 0, rf_errors = 0, rf_classes_created = {},
             rf_teachers_created = {}, rf_subjects_created = {} \<rparr>)
          example_entry)) = 0
   \<and> rf_total
        \<lparr> rf_total = 2, rf_imported = 0, rf_skipped_duplicate = 1,
          rf_skipped_invalid = 1, rf_errors = 0, rf_classes_created = {},
          rf_teachers_created = {}, rf_subjects_created = {} \<rparr>
      = length [example_entry\<lparr> subject := None \<rparr>, example_entry]
   \<and> pdf_invalid (example_entry\<lparr> subject := None \<rparr>)
   \<and> pd_skipped (snd (pdf_step no_failure 1
          (example_school_db,
           \<lparr> pd_processed = 0, pd_imported = 0, pd_skipped = 0, pd_errors = 0,
             pd_classes_created = 0, pd_teachers_created = 0, pd_subjects_created = 0 \<rparr>)
          (example_entry\<lparr> subject := None \<rparr>))) = 0 + 1
   \<and> pd_processed
        \<lparr> pd_processed = 2, pd_imported = 0, pd_skipped = 2, pd_errors = 0,
          pd_classes_created = 0, pd_teachers_created = 0, pd_subjects_created = 0 \<rparr>
      = length [example_entry\<lparr> subject := None \<rparr>, example_entry]
   \<and> \<not> entry_ok (example_entry\<lparr> subject := None \<rparr>)
   \<and> sm_errors (snd (smart_step no_failure 1
          (example_school_db,
           \<lparr> sm_total = 1, sm_imported = 0, sm_skipped = 0, sm_errors = 0,
             sm_classes_created = {}, sm_teachers_created = {}, sm_subjects_created = {} \<rparr>)
          (example_entry\<lparr> subject := None \<rparr>))) = 0 + 1"
proof -
  let ?R0 = "\<lparr> rf_total = 2, rf_imported = 0, rf_skipped_duplicate = 0,
             rf_skipped_invalid = 0, rf_errors = 0, rf_classes_created = {},
             rf_teachers_created = {}, rf_subjects_created = {} \<rparr>"
  let ?RF = "\<lparr> rf_total = 2, rf_imported = 0, rf_skipped_duplicate = 1,
          rf_skipped_invalid = 1, rf_errors = 0, rf_classes_created = {},
          rf_teachers_created = {}, rf_subjects_created = {} \<rparr>"
  let ?P0 = "\<lparr> pd_processed = 0, pd_imported = 0, pd_skipped = 0, pd_errors = 0,
             pd_classes_created = 0, pd_teachers_created = 0, pd_subjects_created = 0 \<rparr>"
  let ?PF = "\<lparr> pd_processed = 2, pd_imported = 0, pd_skipped = 2, pd_errors = 0,
          pd_classes_created = 0, pd_teachers_created = 0, pd_subjects_created = 0 \<rparr>"
  let ?S0 = "\<lparr> sm_total = 1, sm_imported = 0, sm_skipped = 0, sm_errors = 0,
             sm_classes_created = {}, sm_teachers_created = {}, sm_subjects_created = {} \<rparr>"
  let ?bad = "example_entry\<lparr> subject := None \<rparr>"
  let ?A = "remaining_step (fails_at 0) 1 (example_school_db, ?R0) ?bad"
  let ?B = "remaining_step no_failure 1 (example_school_db, ?R0) example_entry"
  let ?C = "pdf_step no_failure 1 (example_school_db, ?P0) ?bad"
  let ?D = "smart_step no_failure 1 (example_school_db, ?S0) ?bad"
  have inv: "\<not> remaining_valid ?bad" by (simp add: remaining_valid_def db_eval)
  have val: "remaining_valid example_entry" by (simp add: remaining_valid_def db_eval)
  have pinv: "pdf_invalid ?bad" by (simp add: pdf_invalid_def db_eval)
  have nok: "\<not> entry_ok ?bad" by (simp add: entry_ok_def db_eval)
  have key: "key_taken 1 example_school_db example_entry"
    by (simp add: key_taken_def db_eval)
  have a: "?A = (fst ?A, snd ?A)" and b: "?B = (fst ?B, snd ?B)"
    and c: "?C = (fst ?C, snd ?C)" and d: "?D = (fst ?D, snd ?D)" by simp_all
  have r0: "rf_skipped_invalid ?R0 = 0" "rf_skipped_duplicate ?R0 = 0"
    and p0: "pd_skipped ?P0 = 0" and s0: "sm_errors ?S0 = 0" by simp_all
  have A: "rf_skipped_invalid (snd ?A) = rf_skipped_invalid ?R0 + 1"
    using inv a import_counts_invalid_and_duplicate_apart
      [where e = ?bad and fails = "fails_at 0" and fid = 1 and d = example_school_db
         and st = ?R0 and d' = "fst ?A" and st' = "snd ?A"]
    by blast
  have B: "rf_skipped_duplicate (snd ?B) = rf_skipped_duplicate ?R0 + 1
      \<and> rf_skipped_invalid (snd ?B) = rf_skipped_invalid ?R0"
    using val key b import_counts_invalid_and_duplicate_apart
      [where e = example_entry and fid = 1 and d = example_school_db
         and st = ?R0 and d' = "fst ?B" and st' = "snd ?B"]
    by blast
  have C: "rf_total ?RF = length [?bad, example_entry]"
    using example_remaining_mixed_batch import_counts_invalid_and_duplicate_apart
      [where fails = no_failure and es = "[?bad, example_entry]" and fl = 2
         and d = example_school_db and df = example_school_db and stf = ?RF]
    by blast
  have D: "pd_skipped (snd ?C) = pd_skipped ?P0 + 1"
    using pinv c import_counts_invalid_and_duplicate_apart
      [where e = ?bad and fid = 1 and d = example_school_db and pst = ?P0
         and d' = "fst ?C" and pst' = "snd ?C"]
    by blast
  have E: "pd_processed ?PF = length [?bad, example_entry]"
    using example_pdf_mixed_batch import_counts_invalid_and_duplicate_apart
      [where fails = no_failure and es = "[?bad, example_entry]" and fl = 2
         and d = example_school_db and pdb = example_school_db and pstf = ?PF]
    by blast
  have F: "sm_errors (snd ?D) = sm_errors ?S0 + 1"
    using nok d import_counts_invalid_and_duplicate_apart
      [where e = ?bad and fails = no_failure and fid = 1 and d = example_school_db
         and sst = ?S0 and d' = "fst ?D" and sst' = "snd ?D"]
    by blast
  show ?thesis
    using inv val key pinv nok A B C D E F unfolding r0 p0 s0 by simp
qed


end
